(* ===== verification/Prelude.thy ===== *)
theory Prelude
  imports Complex_Main "HOL-Library.Word" "HOL-Library.State_Monad" "HOL-Library.Monad_Syntax"
begin

text \<open>
  The vocabulary every component shares: machine integer names, the C operators whose HOL namesake
  means something else, the errno values of the C library, the state monad in which the firmware's
  functions are written, and a small Hoare calculus for it.  The collections \<open>run_simps\<close>
  (equations that run a program one step) and \<open>hoare_rules\<close> (introduction rules) are filled here
  and by every component.
\<close>

unbundle bit_operations_syntax

named_theorems run_simps \<open>equations that execute one step of a program\<close>
named_theorems hoare_rules \<open>syntax-directed rules for hoare triples\<close>

section \<open>Machine integers\<close>

type_synonym u8 = "8 word"
type_synonym u16 = "16 word"
type_synonym u32 = "32 word"

text \<open>C's integer division truncates towards zero, HOL's rounds towards minus infinity.\<close>

definition c_div :: "int \<Rightarrow> int \<Rightarrow> int" where
  "c_div a b = sgn a * sgn b * (\<bar>a\<bar> div \<bar>b\<bar>)"

definition c_rem :: "int \<Rightarrow> int \<Rightarrow> int" where
  "c_rem a b = a - c_div a b * b"

lemma c_div_nonneg [simp]: "0 \<le> a \<Longrightarrow> 0 < b \<Longrightarrow> c_div a b = a div b"
  by (cases "a = 0") (auto simp: c_div_def)

lemma c_rem_nonneg [simp]: "0 \<le> a \<Longrightarrow> 0 < b \<Longrightarrow> c_rem a b = a mod b"
  by (simp add: c_rem_def minus_div_mult_eq_mod)

text \<open>A negative dividend gives a non-positive quotient, which no positive bound exceeds.\<close>

lemma c_div_neg: "a \<le> 0 \<Longrightarrow> 0 < b \<Longrightarrow> c_div a b \<le> 0"
proof -
  assume "a \<le> 0" and "0 < b"
  then have "sgn a * (\<bar>a\<bar> div \<bar>b\<bar>) \<le> 0"
    by (simp add: mult_nonpos_nonneg pos_imp_zdiv_nonneg_iff sgn_if)
  with \<open>0 < b\<close> show ?thesis by (simp add: c_div_def)
qed

lemma int_div_less_iff: "0 < (b::int) \<Longrightarrow> a div b < n \<longleftrightarrow> a < n * b"
proof -
  assume b: "0 < b"
  have eq: "b * (a div b) + a mod b = a" by (rule mult_div_mod_eq)
  have m: "0 \<le> a mod b" "a mod b < b" using b by simp_all
  show ?thesis
  proof
    assume "a div b < n"
    then have "b * (a div b) \<le> b * (n - 1)" using b by (intro mult_left_mono) auto
    then have "b * (a div b) \<le> n * b - b" by (simp add: right_diff_distrib mult.commute)
    with eq m show "a < n * b" by linarith
  next
    assume lt: "a < n * b"
    show "a div b < n"
    proof (rule ccontr)
      assume "\<not> a div b < n"
      then have "n * b \<le> (a div b) * b" using b by (intro mult_right_mono) auto
      then have "n * b \<le> b * (a div b)" by (simp only: mult.commute)
      with eq m lt show False by linarith
    qed
  qed
qed

lemma c_div_less_iff: "0 < b \<Longrightarrow> 0 < n \<Longrightarrow> c_div a b < n \<longleftrightarrow> a < n * b"
proof (cases "0 \<le> a")
  case True
  assume "0 < b" "0 < n"
  with True show ?thesis
    by (simp add: int_div_less_iff)
next
  case False
  assume b: "0 < b" and n: "0 < n"
  have "c_div a b < n" using c_div_neg [of a b] False b n by linarith
  moreover have "a < n * b" using False b n by (smt (verit) mult_pos_pos)
  ultimately show ?thesis by simp
qed

text \<open>\<open>(uint32_t)x\<close> of a wider signed value keeps the low 32 bits.\<close>

abbreviation to_u32 :: "int \<Rightarrow> u32" where
  "to_u32 x \<equiv> word_of_int x"

lemma uint_to_u32: "uint (to_u32 x) = x mod 2 ^ 32"
  by (simp add: uint_word_of_int)

lemma unat_u16_less: "unat (x :: u16) < 65536"
  using unsigned_less [of x, where ?'a = nat] by simp

lemma unat_u32_less: "unat (x :: u32) < 4294967296"
  using unsigned_less [of x, where ?'a = nat] by simp

lemma unat_ucast_u16 [simp]: "unat (ucast (x :: u16) :: u32) = unat x"
  using unat_u16_less [of x] by (simp add: unsigned_ucast_eq take_bit_nat_eq_self)

section \<open>errno\<close>

text \<open>
  The firmware is built against newlib (\<open>CONFIG_NEWLIB_LIBC=y\<close>); these are its values.
  The proofs only use that they are positive and distinct.
\<close>

definition EIO :: int where "EIO = 5"
definition EAGAIN :: int where "EAGAIN = 11"
definition ENOMEM :: int where "ENOMEM = 12"
definition EACCES :: int where "EACCES = 13"
definition ENODEV :: int where "ENODEV = 19"
definition ETIMEDOUT :: int where "ETIMEDOUT = 116"
definition EINPROGRESS :: int where "EINPROGRESS = 119"
definition EALREADY :: int where "EALREADY = 120"
definition ENOTCONN :: int where "ENOTCONN = 128"
definition ENOTSUP :: int where "ENOTSUP = 134"

lemmas errno_defs = EIO_def EAGAIN_def ENOMEM_def EACCES_def ENODEV_def ETIMEDOUT_def
  EINPROGRESS_def EALREADY_def ENOTCONN_def ENOTSUP_def

section \<open>Programs as state transformers\<close>

abbreviation return :: "'a \<Rightarrow> ('w, 'a) state" where
  "return \<equiv> State_Monad.return"

definition gets :: "('w \<Rightarrow> 'a) \<Rightarrow> ('w, 'a) state" where
  "gets f = State (\<lambda>w. (f w, w))"

definition modify :: "('w \<Rightarrow> 'w) \<Rightarrow> ('w, unit) state" where
  "modify f = State (\<lambda>w. ((), f w))"

definition skip :: "('w, unit) state" where
  "skip = return ()"

text \<open>\<open>if (c) { m }\<close> with no \<open>else\<close>.\<close>

definition when_do :: "bool \<Rightarrow> ('w, unit) state \<Rightarrow> ('w, unit) state" where
  "when_do c m = (if c then m else skip)"

text \<open>Calls a function for its effect, \<open>(void)f()\<close>.\<close>

definition ignore :: "('w, 'a) state \<Rightarrow> ('w, unit) state" where
  "ignore m = do { _ \<leftarrow> m; skip }"

definition exec :: "('w, 'a) state \<Rightarrow> 'w \<Rightarrow> 'w" where
  "exec m w = snd (run_state m w)"

definition result :: "('w, 'a) state \<Rightarrow> 'w \<Rightarrow> 'a" where
  "result m w = fst (run_state m w)"

lemma run_gets [simp, run_simps]: "run_state (gets f) w = (f w, w)"
  by (simp add: gets_def)

lemma run_modify [simp, run_simps]: "run_state (modify f) w = ((), f w)"
  by (simp add: modify_def)

lemma run_skip [simp, run_simps]: "run_state skip w = ((), w)"
  by (simp add: skip_def)

lemma run_when_do [run_simps]: "run_state (when_do c m) w = (if c then run_state m w else ((), w))"
  by (simp add: when_do_def)

lemma when_do_True [simp]: "when_do True m = m"
  and when_do_False [simp]: "when_do False m = skip"
  by (simp_all add: when_do_def)

lemma run_state_split: "run_state m w = (result m w, exec m w)"
  by (simp add: result_def exec_def)

lemma exec_return [simp, run_simps]: "exec (return x) w = w"
  and result_return [simp, run_simps]: "result (return x) w = x"
  by (simp_all add: exec_def result_def)

lemma exec_gets [simp, run_simps]: "exec (gets f) w = w"
  and result_gets [simp, run_simps]: "result (gets f) w = f w"
  by (simp_all add: exec_def result_def)

lemma exec_modify [simp, run_simps]: "exec (modify f) w = f w"
  by (simp add: exec_def)

lemma exec_skip [simp, run_simps]: "exec skip w = w"
  by (simp add: exec_def)

lemma exec_bind [run_simps]: "exec (m \<bind> f) w = exec (f (result m w)) (exec m w)"
  and result_bind [run_simps]: "result (m \<bind> f) w = result (f (result m w)) (exec m w)"
  by (simp_all add: exec_def result_def split: prod.splits)

lemma exec_when_do [run_simps]: "exec (when_do c m) w = (if c then exec m w else w)"
  by (simp add: exec_def run_when_do)

lemma exec_ignore [run_simps]: "exec (ignore m) w = exec m w"
  by (simp add: ignore_def exec_bind)

lemma exec_if [run_simps]: "exec (if b then m else n) w = (if b then exec m w else exec n w)"
  and result_if [run_simps]: "result (if b then m else n) w = (if b then result m w else result n w)"
  by simp_all

section \<open>A Hoare calculus\<close>

text \<open>
  \<open>hoare P m Q\<close>: started where \<open>P\<close> holds, \<open>m\<close> ends with a result and a state for which \<open>Q\<close>
  holds.  Programs are total functions here, so this is total correctness.
\<close>

definition hoare :: "('w \<Rightarrow> bool) \<Rightarrow> ('w, 'a) state \<Rightarrow> ('a \<Rightarrow> 'w \<Rightarrow> bool) \<Rightarrow> bool" where
  "hoare P m Q \<longleftrightarrow> (\<forall>w. P w \<longrightarrow> Q (result m w) (exec m w))"

text \<open>\<open>keeps I m\<close>: the invariant \<open>I\<close> survives \<open>m\<close>.\<close>

definition keeps :: "('w \<Rightarrow> bool) \<Rightarrow> ('w, 'a) state \<Rightarrow> bool" where
  "keeps I m \<longleftrightarrow> (\<forall>w. I w \<longrightarrow> I (exec m w))"

lemma keepsD: "keeps I m \<Longrightarrow> I w \<Longrightarrow> I (exec m w)"
  by (simp add: keeps_def)

lemma hoareD: "hoare P m Q \<Longrightarrow> P w \<Longrightarrow> Q (result m w) (exec m w)"
  by (simp add: hoare_def)

lemma hoare_weaken: "hoare P' m Q \<Longrightarrow> (\<And>w. P w \<Longrightarrow> P' w) \<Longrightarrow> hoare P m Q"
  by (simp add: hoare_def)

lemma hoare_bind: "hoare P m R \<Longrightarrow> (\<And>x. hoare (R x) (f x) Q) \<Longrightarrow> hoare P (m \<bind> f) Q"
  by (auto simp: hoare_def run_simps)

lemma keeps_return [hoare_rules]: "keeps I (return x)"
  and keeps_gets [hoare_rules]: "keeps I (gets f)"
  and keeps_skip [hoare_rules]: "keeps I skip"
  by (simp_all add: keeps_def)

lemma keeps_modify [hoare_rules]: "(\<And>w. I w \<Longrightarrow> I (f w)) \<Longrightarrow> keeps I (modify f)"
  by (simp add: keeps_def)

lemma keeps_bind [hoare_rules]: "keeps I m \<Longrightarrow> (\<And>x. keeps I (f x)) \<Longrightarrow> keeps I (m \<bind> f)"
  by (simp add: keeps_def run_simps)

lemma keeps_bind_result:
  "keeps I m \<Longrightarrow> (\<And>w. P (result m w)) \<Longrightarrow> (\<And>x. P x \<Longrightarrow> keeps I (f x)) \<Longrightarrow> keeps I (m \<bind> f)"
  by (simp add: keeps_def run_simps)

lemma keeps_if [hoare_rules]:
  "(b \<Longrightarrow> keeps I m) \<Longrightarrow> (\<not> b \<Longrightarrow> keeps I n) \<Longrightarrow> keeps I (if b then m else n)"
  by simp

lemma keeps_when_do [hoare_rules]: "(c \<Longrightarrow> keeps I m) \<Longrightarrow> keeps I (when_do c m)"
  by (simp add: when_do_def keeps_skip)

lemma keeps_ignore [hoare_rules]: "keeps I m \<Longrightarrow> keeps I (ignore m)"
  by (simp add: ignore_def keeps_bind keeps_skip)

lemma keeps_case_option [hoare_rules]:
  "(x = None \<Longrightarrow> keeps I m) \<Longrightarrow> (\<And>y. x = Some y \<Longrightarrow> keeps I (f y)) \<Longrightarrow>
   keeps I (case x of None \<Rightarrow> m | Some y \<Rightarrow> f y)"
  by (cases x) simp_all

lemma keeps_case_prod [hoare_rules]:
  "(\<And>a b. x = (a, b) \<Longrightarrow> keeps I (f a b)) \<Longrightarrow> keeps I (case x of (a, b) \<Rightarrow> f a b)"
  by (cases x) simp

lemma keeps_Let [hoare_rules]: "keeps I (f x) \<Longrightarrow> keeps I (let y = x in f y)"
  by simp

text \<open>
  \<open>advances R m\<close>: the state after \<open>m\<close> is related by \<open>R\<close> to the one before.  The rules need \<open>R\<close>
  reflexive and transitive, so that it can be followed step by step.
\<close>

definition advances :: "('w \<Rightarrow> 'w \<Rightarrow> bool) \<Rightarrow> ('w, 'a) state \<Rightarrow> bool" where
  "advances R m \<longleftrightarrow> reflp R \<and> transp R \<and> (\<forall>w. R w (exec m w))"

named_theorems advances_rules \<open>syntax-directed rules for advances\<close>

lemma advancesD: "advances R m \<Longrightarrow> R w (exec m w)"
  by (simp add: advances_def)

lemma advances_pure:
  "reflp R \<Longrightarrow> transp R \<Longrightarrow> (\<And>w. exec m w = w) \<Longrightarrow> advances R m"
  by (simp add: advances_def reflpD)

lemma advances_return [advances_rules]: "reflp R \<Longrightarrow> transp R \<Longrightarrow> advances R (return x)"
  and advances_gets [advances_rules]: "reflp R \<Longrightarrow> transp R \<Longrightarrow> advances R (gets f)"
  and advances_skip [advances_rules]: "reflp R \<Longrightarrow> transp R \<Longrightarrow> advances R skip"
  by (simp_all add: advances_pure)

lemma advances_modify [advances_rules]:
  "reflp R \<Longrightarrow> transp R \<Longrightarrow> (\<And>w. R w (f w)) \<Longrightarrow> advances R (modify f)"
  by (simp add: advances_def)

lemma advances_bind [advances_rules]:
  "advances R m \<Longrightarrow> (\<And>x. advances R (f x)) \<Longrightarrow> advances R (m \<bind> f)"
  unfolding advances_def by (auto simp: run_simps elim: transpE)

lemma advances_if [advances_rules]:
  "(b \<Longrightarrow> advances R m) \<Longrightarrow> (\<not> b \<Longrightarrow> advances R n) \<Longrightarrow> advances R (if b then m else n)"
  by simp

lemma advances_when_do [advances_rules]:
  "reflp R \<Longrightarrow> transp R \<Longrightarrow> (c \<Longrightarrow> advances R m) \<Longrightarrow> advances R (when_do c m)"
  by (simp add: when_do_def advances_skip)

lemma advances_ignore [advances_rules]: "advances R m \<Longrightarrow> advances R (ignore m)"
  by (simp add: advances_def run_simps)

lemma advances_case_option [advances_rules]:
  "(x = None \<Longrightarrow> advances R m) \<Longrightarrow> (\<And>y. x = Some y \<Longrightarrow> advances R (f y)) \<Longrightarrow>
   advances R (case x of None \<Rightarrow> m | Some y \<Rightarrow> f y)"
  by (cases x) simp_all

lemma advances_case_sum [advances_rules]:
  "(\<And>y. x = Inl y \<Longrightarrow> advances R (f y)) \<Longrightarrow> (\<And>y. x = Inr y \<Longrightarrow> advances R (g y)) \<Longrightarrow>
   advances R (case x of Inl y \<Rightarrow> f y | Inr y \<Rightarrow> g y)"
  by (cases x) simp_all

lemma advances_case_prod [advances_rules]:
  "(\<And>a b. x = (a, b) \<Longrightarrow> advances R (f a b)) \<Longrightarrow> advances R (case x of (a, b) \<Rightarrow> f a b)"
  by (cases x) simp

lemma advances_Let [advances_rules]: "advances R (f x) \<Longrightarrow> advances R (let y = x in f y)"
  by simp

lemma keeps_case_sum [hoare_rules]:
  "(\<And>y. x = Inl y \<Longrightarrow> keeps I (f y)) \<Longrightarrow> (\<And>y. x = Inr y \<Longrightarrow> keeps I (g y)) \<Longrightarrow>
   keeps I (case x of Inl y \<Rightarrow> f y | Inr y \<Rightarrow> g y)"
  by (cases x) simp_all

text \<open>\<open>same f\<close>: nothing \<open>f\<close> reads has changed.\<close>

definition same :: "('w \<Rightarrow> 'b) \<Rightarrow> 'w \<Rightarrow> 'w \<Rightarrow> bool" where
  "same f w w' \<longleftrightarrow> f w' = f w"

lemma reflp_same [simp]: "reflp (same f)" and transp_same [simp]: "transp (same f)"
  by (auto simp: same_def reflp_def transp_def)

lemma advances_sameD: "advances (same f) m \<Longrightarrow> f (exec m w) = f w"
  by (simp add: advances_def same_def)

end
