(* ===== verification/Platform.thy ===== *)
theory Platform
  imports Prelude
begin

text \<open>
  Everything the firmware is built with and runs on.  \<open>config\<close> holds the Kconfig options of
  app/Kconfig, \<open>sdk_consts\<close> the macros of SDK headers that are not in the repository.  Zephyr, the
  modem library, the nRF Cloud library, cJSON and the sockets are one parameter: an \<open>env\<close> answers
  each call the firmware makes with a \<open>resp\<close> (return value, out-parameters, time taken) that may
  depend on the whole history, and, before it answers a call of the main thread, lets handlers run
  (\<open>intr\<close>).  The history is the list of calls made so far, newest first, so that predicates over
  it are structural recursions.
\<close>

section \<open>Build configuration (app/Kconfig)\<close>

datatype cloud_provider = NrfCloud | HologramCloud

record config =
  TRACKER_CLOUD_PROVIDER :: cloud_provider
  TRACKER_NRF_CLOUD_APP_ID :: string
  TRACKER_NRF_CLOUD_PORTAL_LOCATION :: bool
  TRACKER_CLOUD_CONNECT_BUDGET_SECONDS :: nat
  TRACKER_MODEM_TIME_WAIT_SECONDS :: nat
  TRACKER_AGNSS :: bool
  TRACKER_AGNSS_PROACTIVE_WAIT_SECONDS :: nat
  TRACKER_AGNSS_FIX_TIMEOUT_SECONDS :: nat
  TRACKER_AGNSS_BUDGET_SECONDS :: nat
  TRACKER_AGNSS_MIN_INTERVAL_SECONDS :: nat
  TRACKER_AGNSS_STOP_GNSS_DURING_FETCH :: bool
  TRACKER_AGNSS_FULL_REQUEST_FALLBACK :: bool
  NRF_CLOUD_AGNSS_FILTERED :: bool
  NRF_CLOUD_AGNSS_ELEVATION_MASK :: nat
  TRACKER_MOTION_WAKE :: bool
  TRACKER_MOTION_THRESHOLD_MG :: nat
  TRACKER_MOTION_DURATION_SAMPLES :: nat
  TRACKER_MOTION_ODR_HZ :: nat
  TRACKER_MOTION_HP_CUTOFF :: nat
  TRACKER_MOTION_SETTLE_CYCLES :: nat
  TRACKER_MOTION_SURGE_SECONDS :: nat
  TRACKER_HW_REVISION :: string
  TRACKER_BUILD_STAMP :: string
  TRACKER_WATCHDOG_MARGIN_SECONDS :: nat
  HOLOGRAM_DEVICE_KEY :: string
  HOLOGRAM_HOST :: string
  HOLOGRAM_PORT :: nat
  HOLOGRAM_TOPIC :: string
  TRACKER_SLEEP_SECONDS :: nat
  TRACKER_CHARGING_INTERVAL_SECONDS :: nat
  TRACKER_GNSS_FIX_TIMEOUT_SECONDS :: nat
  TRACKER_GNSS_EXTRA_FIX_SECONDS :: nat
  TRACKER_GNSS_EXTERNAL :: bool
  TRACKER_GNSS_EXT_POWER_PIN :: nat
  TRACKER_GNSS_EXT_WARMUP_MS :: nat
  TRACKER_GNSS_EXT_FIX_TIMEOUT_SECONDS :: nat
  TRACKER_GNSS_EXT_UERE_METERS :: nat
  TRACKER_GNSS_EXT_POWER_CYCLE :: bool
  TRACKER_GNSS_EXT_MODEM_FALLBACK :: bool
  TRACKER_LTE_CONNECT_TIMEOUT_SECONDS :: nat
  TRACKER_MODEM_RECOVERY_MINUTES :: nat
  TRACKER_REBOOT_MINUTES :: nat
  TRACKER_STATUS_LED :: bool
  TRACKER_STATUS_LED_RED_INDEX :: nat
  TRACKER_STATUS_LED_GREEN_INDEX :: nat
  TRACKER_STATUS_LED_BLUE_INDEX :: nat
  TRACKER_STATUS_LED_BLINK_MS :: nat
  TRACKER_STATUS_LED_FLASH_ON_MS :: nat
  TRACKER_STATUS_LED_FLASH_OFF_MS :: nat
  TRACKER_STATUS_LED_FULL_PERCENT :: nat
  TRACKER_STATUS_LED_ON_BATTERY :: bool
  TRACKER_FORCE_PUBLISH_WITHOUT_FIX :: bool
  TRACKER_SKIP_LTE :: bool
  TRACKER_OFFLINE_DEBUG :: bool
  BOARD_CIRCUITDOJO_FEATHER_NRF9151 :: bool
  LTE_LC_RAI_MODULE :: bool

text \<open>
  The defaults of app/Kconfig; the three options it does not declare (the nRF Cloud filter and its
  mask, release assistance) as in app/prj.conf.example, the build stamp as in the README's example.
\<close>

definition kconfig_defaults :: config where
  "kconfig_defaults = \<lparr>
     TRACKER_CLOUD_PROVIDER = NrfCloud,
     TRACKER_NRF_CLOUD_APP_ID = ''GPSTRACKER'',
     TRACKER_NRF_CLOUD_PORTAL_LOCATION = False,
     TRACKER_CLOUD_CONNECT_BUDGET_SECONDS = 240,
     TRACKER_MODEM_TIME_WAIT_SECONDS = 60,
     TRACKER_AGNSS = True,
     TRACKER_AGNSS_PROACTIVE_WAIT_SECONDS = 5,
     TRACKER_AGNSS_FIX_TIMEOUT_SECONDS = 90,
     TRACKER_AGNSS_BUDGET_SECONDS = 180,
     TRACKER_AGNSS_MIN_INTERVAL_SECONDS = 1800,
     TRACKER_AGNSS_STOP_GNSS_DURING_FETCH = True,
     TRACKER_AGNSS_FULL_REQUEST_FALLBACK = True,
     NRF_CLOUD_AGNSS_FILTERED = True,
     NRF_CLOUD_AGNSS_ELEVATION_MASK = 5,
     TRACKER_MOTION_WAKE = True,
     TRACKER_MOTION_THRESHOLD_MG = 350,
     TRACKER_MOTION_DURATION_SAMPLES = 2,
     TRACKER_MOTION_ODR_HZ = 50,
     TRACKER_MOTION_HP_CUTOFF = 2,
     TRACKER_MOTION_SETTLE_CYCLES = 1,
     TRACKER_MOTION_SURGE_SECONDS = 600,
     TRACKER_HW_REVISION = ''feather-nrf9151'',
     TRACKER_BUILD_STAMP = ''2026-08-02T17:51Z'',
     TRACKER_WATCHDOG_MARGIN_SECONDS = 300,
     HOLOGRAM_DEVICE_KEY = ''CHANGEME'',
     HOLOGRAM_HOST = ''cloudsocket.hologram.io'',
     HOLOGRAM_PORT = 9999,
     HOLOGRAM_TOPIC = ''TRACKER'',
     TRACKER_SLEEP_SECONDS = 540,
     TRACKER_CHARGING_INTERVAL_SECONDS = 60,
     TRACKER_GNSS_FIX_TIMEOUT_SECONDS = 120,
     TRACKER_GNSS_EXTRA_FIX_SECONDS = 5,
     TRACKER_GNSS_EXTERNAL = True,
     TRACKER_GNSS_EXT_POWER_PIN = 13,
     TRACKER_GNSS_EXT_WARMUP_MS = 500,
     TRACKER_GNSS_EXT_FIX_TIMEOUT_SECONDS = 60,
     TRACKER_GNSS_EXT_UERE_METERS = 3,
     TRACKER_GNSS_EXT_POWER_CYCLE = True,
     TRACKER_GNSS_EXT_MODEM_FALLBACK = True,
     TRACKER_LTE_CONNECT_TIMEOUT_SECONDS = 120,
     TRACKER_MODEM_RECOVERY_MINUTES = 30,
     TRACKER_REBOOT_MINUTES = 120,
     TRACKER_STATUS_LED = True,
     TRACKER_STATUS_LED_RED_INDEX = 0,
     TRACKER_STATUS_LED_GREEN_INDEX = 1,
     TRACKER_STATUS_LED_BLUE_INDEX = 2,
     TRACKER_STATUS_LED_BLINK_MS = 500,
     TRACKER_STATUS_LED_FLASH_ON_MS = 50,
     TRACKER_STATUS_LED_FLASH_OFF_MS = 1950,
     TRACKER_STATUS_LED_FULL_PERCENT = 95,
     TRACKER_STATUS_LED_ON_BATTERY = False,
     TRACKER_FORCE_PUBLISH_WITHOUT_FIX = False,
     TRACKER_SKIP_LTE = False,
     TRACKER_OFFLINE_DEBUG = False,
     BOARD_CIRCUITDOJO_FEATHER_NRF9151 = True,
     LTE_LC_RAI_MODULE = True\<rparr>"

section \<open>SDK constants and data types\<close>

text \<open>
  \<open>double\<close> and \<open>float\<close> are read as the exact rational value of the IEEE number (infinities and NaN
  are not represented); the rounding of an arithmetic result is a parameter, \<open>rnd32\<close> and \<open>rnd64\<close>.
\<close>

type_synonym double = rat
type_synonym float32 = rat

record sdk_consts =
  NRF_MODEM_GNSS_PVT_FLAG_FIX_VALID :: u8
  NRF_MODEM_GNSS_SV_FLAG_USED_IN_FIX :: u8
  NRF_MODEM_GNSS_MAX_SATELLITES :: nat
  NRF_MODEM_GNSS_AGNSS_GPS_UTC_REQUEST :: u32
  NRF_MODEM_GNSS_AGNSS_KLOBUCHAR_REQUEST :: u32
  NRF_MODEM_GNSS_AGNSS_NEQUICK_REQUEST :: u32
  NRF_MODEM_GNSS_AGNSS_GPS_SYS_TIME_AND_SV_TOW_REQUEST :: u32
  NRF_MODEM_GNSS_AGNSS_POSITION_REQUEST :: u32
  NRF_MODEM_GNSS_AGNSS_INTEGRITY_REQUEST :: u32
  NRF_MODEM_GNSS_SYSTEM_GPS :: nat
  NPM13XX_EVENT_VBUS_DETECTED :: nat
  NPM13XX_EVENT_VBUS_REMOVED :: nat
  LTE_LC_CELL_EUTRAN_ID_MAX :: int
  LTE_LC_CELL_RSRP_INVALID :: int
  NRF_CLOUD_JSON_APPID_KEY :: string
  NRF_CLOUD_JSON_MSG_TYPE_KEY :: string
  NRF_CLOUD_JSON_MSG_TYPE_VAL_DATA :: string
  NRF_CLOUD_MSG_TIMESTAMP_KEY :: string
  NRF_CLOUD_JSON_DATA_KEY :: string
  NRF_CLOUD_NO_TIMESTAMP :: int
  rnd32 :: "rat \<Rightarrow> float32"
  rnd64 :: "rat \<Rightarrow> double"

datatype device = Dev_leds | Dev_pmic | Dev_charger | Dev_wdt | Dev_accel | Dev_power_port
  | Dev_uart | Dev_gnss

datatype semaphore = Lte_connected_sem | Wake_sem | Fix_sem_modem | Agnss_req_sem | Fix_sem_ext

datatype spinlock = Data_lock_modem | Data_lock_ext

datatype atomic_var = Pending | Last_event_ms_hi | Last_event_ms_lo

datatype pm_action = PM_DEVICE_ACTION_SUSPEND | PM_DEVICE_ACTION_RESUME

datatype sensor_channel = SENSOR_CHAN_NPM13XX_CHARGER_VBUS_STATUS | SENSOR_CHAN_GAUGE_VOLTAGE
  | SENSOR_CHAN_NPM13XX_CHARGER_STATUS

datatype sensor_attribute = SENSOR_ATTR_FULL_SCALE | SENSOR_ATTR_SAMPLING_FREQUENCY
  | SENSOR_ATTR_CONFIGURATION | SENSOR_ATTR_SLOPE_TH | SENSOR_ATTR_SLOPE_DUR

datatype nw_reg_status = LTE_LC_NW_REG_REGISTERED_HOME | LTE_LC_NW_REG_REGISTERED_ROAMING
  | LTE_LC_NW_REG_OTHER int

datatype func_mode = LTE_LC_FUNC_MODE_OFFLINE | LTE_LC_FUNC_MODE_NORMAL
  | LTE_LC_FUNC_MODE_ACTIVATE_GNSS

datatype modem_info = MODEM_INFO_CELLID | MODEM_INFO_AREA_CODE | MODEM_INFO_OPERATOR

datatype gnss_data_id = NRF_MODEM_GNSS_DATA_PVT | NRF_MODEM_GNSS_DATA_AGNSS_REQ

datatype k_timeout = K_MSEC nat | K_FOREVER

datatype sock_opt = SO_RAI_ONE_RESP | SO_RCVTIMEO_SECONDS nat

record pvt_frame =
  pvt_latitude :: double
  pvt_longitude :: double
  pvt_altitude :: float32
  pvt_accuracy :: float32
  pvt_speed :: float32
  pvt_heading :: float32
  pvt_hdop :: float32
  pvt_flags :: u8
  pvt_sv_flags :: "u8 list"   \<comment> \<open>\<open>sv[i].flags\<close>, \<open>NRF_MODEM_GNSS_MAX_SATELLITES\<close> entries\<close>

record agnss_system =
  system_id :: nat
  sv_mask_ephe :: "64 word"
  sv_mask_alm :: "64 word"

record agnss_frame =
  data_flags :: u32
  system_count :: nat
  system :: "agnss_system list"

record lte_cell =
  cell_id :: int
  cell_tac :: int
  cell_mcc :: int
  cell_mnc :: int
  cell_rsrp :: int

record agnss_request =
  rq_agnss_req :: agnss_frame
  rq_net_info :: "lte_cell option"   \<comment> \<open>the serving cell, or NULL\<close>
  rq_filtered :: bool
  rq_mask_angle :: nat

record cloud_gnss_data =
  gd_ts_ms :: int
  gd_lat :: double
  gd_lon :: double
  gd_accuracy :: float32
  gd_alt :: float32
  gd_speed :: float32
  gd_heading :: float32

record credentials_status =
  cs_ca :: bool
  cs_ca_aws :: bool
  cs_prv_key :: bool

section \<open>Calls into the SDK\<close>

text \<open>
  One constructor per function of the SDK that the firmware calls, with the arguments that vary,
  grouped by the library: the Zephyr kernel and watchdog, the board's peripherals, the modem, nRF
  Cloud, and cJSON with the sockets.
\<close>

datatype kern_call =
    K_uptime_get | K_sleep nat | Sys_reboot
  | K_sem_give semaphore | K_sem_reset semaphore | K_sem_take semaphore nat
  | Atomic_get atomic_var | Atomic_set atomic_var int
  | K_spin_lock spinlock | K_spin_unlock spinlock
  | K_timer_start nat nat | K_timer_stop
  | K_work_reschedule k_timeout | K_work_cancel_delayable_sync
  | Device_is_ready device
  | Wdt_install_timeout u32 | Wdt_setup | Wdt_feed int

datatype board_call =
    Gpio_pin_configure nat | Gpio_pin_set nat bool
  | Pm_device_action_run device pm_action
  | Sensor_sample_fetch | Sensor_channel_get sensor_channel
  | Sensor_g_to_ms2 int | Sensor_attr_set sensor_attribute int int | Sensor_trigger_set bool
  | Led_on nat | Led_off nat
  | Mfd_npm13xx_add_callback

datatype modem_call =
    Nrf_modem_lib_init | Nrf_modem_at_cmd string | Nrf_modem_at_printf string
  | Modem_info_init | Modem_info_get_rsrp | Modem_info_string_get modem_info
  | Lte_lc_register_handler | Lte_lc_psm_req bool | Lte_lc_nw_reg_status_get
  | Lte_lc_connect_async | Lte_lc_func_mode_set func_mode
  | Gnss_event_handler_set | Gnss_use_case_set_multiple_hot_start
  | Gnss_fix_retry_set nat | Gnss_fix_interval_set nat | Gnss_elevation_threshold_set nat
  | Gnss_start | Gnss_stop | Gnss_read gnss_data_id

datatype cloud_call =
    Client_id_get | Credentials_check
  | Coap_init | Coap_connect | Coap_resume | Coap_disconnect
  | Coap_keepopen_is_supported | Coap_pause
  | Coap_json_message_send string | Coap_location_send cloud_gnss_data
  | Coap_agnss_data_get agnss_request | Agnss_process "u8 list"
  | Date_time_now

text \<open>The two cJSON items the Hologram transport allocates and frees itself.\<close>

datatype cjson_item = Cjson_root | Cjson_topics

datatype net_call =
    CJSON_CreateObject | CJSON_CreateArray | CJSON_CreateString string
  | CJSON_AddStringToObject string string | CJSON_AddItemToArray | CJSON_AddItemToObject string
  | CJSON_PrintPreallocated nat | CJSON_Delete cjson_item
  | Getaddrinfo string | Socket | Connect int nat | Setsockopt int sock_opt
  | Send int string | Recv int nat | Close int | Freeaddrinfo

datatype call = Kern kern_call | Board board_call | Modem modem_call | Cloud cloud_call | Net net_call

text \<open>
  What a call answers: its return value \<open>rc\<close> (\<open>flag\<close> where that is a boolean or a pointer tested
  against NULL), the milliseconds it took, and the out-parameters it fills.
\<close>

record resp =
  rc :: int
  took :: nat
  flag :: bool
  i64 :: int
  val1 :: int
  val2 :: int
  text_out :: string
  reg_status :: nw_reg_status
  pvt :: pvt_frame
  frame :: agnss_frame
  creds :: credentials_status
  bytes :: "u8 list"

datatype event = Ev (ev_isr: bool) (ev_call: call) (ev_resp: resp)

text \<open>
  The state every component's state extends: the history.  An environment is a record over the
  state type \<open>'w\<close>: the build constants, whether the code runs in a handler, the answers, and what
  the handlers do to the state before a call of the main thread is answered.
\<close>

record platform =
  hist :: "event list"

record 'w env =
  cfg :: config
  sdk :: sdk_consts
  in_isr :: bool
  reply :: "event list \<Rightarrow> call \<Rightarrow> resp"
  intr :: "call \<Rightarrow> 'w \<Rightarrow> 'w"

definition api :: "('a platform_scheme) env \<Rightarrow> call \<Rightarrow> ('a platform_scheme, resp) state" where
  "api E c = State (\<lambda>w.
     let w1 = intr E c w; r = reply E (hist w1) c
     in (r, w1\<lparr>hist := Ev (in_isr E) c r # hist w1\<rparr>))"

text \<open>The environment of code that runs in a handler: nothing preempts it.\<close>

definition isr_env :: "('a platform_scheme) env \<Rightarrow> ('a platform_scheme) env" where
  "isr_env E = E\<lparr>in_isr := True, intr := (\<lambda>_ w. w)\<rparr>"

named_theorems api_simps \<open>the effect of one call, written out\<close>

lemma exec_api [api_simps]:
  "exec (api E c) w =
     (intr E c w)\<lparr>hist := Ev (in_isr E) c (reply E (hist (intr E c w)) c) # hist (intr E c w)\<rparr>"
  and result_api [api_simps]: "result (api E c) w = reply E (hist (intr E c w)) c"
  by (simp_all add: api_def exec_def result_def Let_def)

text \<open>
  Proofs about programs of many calls keep \<open>exec (api E c) w\<close> folded (written out, its state occurs
  several times) and use the equations of single fields; this is the history's.
\<close>

lemma hist_api: "hist (exec (api E c) w) = Ev (in_isr E) c (result (api E c) w) # hist (intr E c w)"
  by (simp add: api_simps)

lemma isr_env_simps [simp]:
  "in_isr (isr_env E)" "intr (isr_env E) c w = w" "reply (isr_env E) = reply E"
  "cfg (isr_env E) = cfg E" "sdk (isr_env E) = sdk E"
  by (simp_all add: isr_env_def)

definition api_rc :: "('a platform_scheme) env \<Rightarrow> call \<Rightarrow> ('a platform_scheme, int) state" where
  "api_rc E c = do { r \<leftarrow> api E c; return (rc r) }"

definition api_flag :: "('a platform_scheme) env \<Rightarrow> call \<Rightarrow> ('a platform_scheme, bool) state" where
  "api_flag E c = do { r \<leftarrow> api E c; return (flag r) }"

definition api_do :: "('a platform_scheme) env \<Rightarrow> call \<Rightarrow> ('a platform_scheme, unit) state" where
  "api_do E c = ignore (api E c)"

lemma exec_api_variants [run_simps]:
  "exec (api_rc E c) w = exec (api E c) w" "exec (api_flag E c) w = exec (api E c) w"
  "exec (api_do E c) w = exec (api E c) w"
  by (simp_all add: api_rc_def api_flag_def api_do_def exec_bind exec_ignore)

lemma result_api_variants [run_simps]:
  "result (api_rc E c) w = rc (result (api E c) w)"
  "result (api_flag E c) w = flag (result (api E c) w)"
  by (simp_all add: api_rc_def api_flag_def result_bind)

section \<open>Which calls a program makes\<close>

text \<open>
  \<open>issues A m\<close>: the history only grows, and every call that \<open>m\<close> itself makes satisfies \<open>A\<close>;
  calls made by handlers that ran meanwhile are marked as theirs.
\<close>

definition issues :: "(call \<Rightarrow> bool) \<Rightarrow> ('a platform_scheme, 'b) state \<Rightarrow> bool" where
  "issues A m \<longleftrightarrow> (\<forall>w. \<exists>es. hist (exec m w) = es @ hist w \<and>
     (\<forall>e \<in> set es. ev_isr e \<or> A (ev_call e)))"

named_theorems issues_rules \<open>syntax-directed rules for issues\<close>

lemma issuesE:
  assumes "issues A m"
  obtains es where "hist (exec m w) = es @ hist w" "\<forall>e \<in> set es. ev_isr e \<or> A (ev_call e)"
  using assms by (auto simp: issues_def)

lemma issues_mono: "issues A m \<Longrightarrow> (\<And>c. A c \<Longrightarrow> B c) \<Longrightarrow> issues B m"
  unfolding issues_def by meson

lemma issues_return [issues_rules]: "issues A (return x)"
  and issues_gets [issues_rules]: "issues A (gets f)"
  and issues_skip [issues_rules]: "issues A skip"
  by (simp_all add: issues_def run_simps)

lemma issues_modify [issues_rules]: "(\<And>w. hist (f w) = hist w) \<Longrightarrow> issues A (modify f)"
  by (simp add: issues_def run_simps)

lemma issues_bind [issues_rules]:
  assumes "issues A m" and "\<And>x. issues A (f x)"
  shows "issues A (m \<bind> f)"
  unfolding issues_def
proof
  fix w
  obtain es where es: "hist (exec m w) = es @ hist w" "\<forall>e \<in> set es. ev_isr e \<or> A (ev_call e)"
    by (rule issuesE [OF assms(1)])
  obtain fs where fs: "hist (exec (f (result m w)) (exec m w)) = fs @ hist (exec m w)"
    "\<forall>e \<in> set fs. ev_isr e \<or> A (ev_call e)"
    by (rule issuesE [OF assms(2)])
  have "hist (exec (m \<bind> f) w) = (fs @ es) @ hist w" using es fs by (simp add: run_simps)
  moreover have "\<forall>e \<in> set (fs @ es). ev_isr e \<or> A (ev_call e)" using es fs by auto
  ultimately show "\<exists>es. hist (exec (m \<bind> f) w) = es @ hist w \<and>
      (\<forall>e \<in> set es. ev_isr e \<or> A (ev_call e))" by blast
qed

lemma issues_if [issues_rules]:
  "(b \<Longrightarrow> issues A m) \<Longrightarrow> (\<not> b \<Longrightarrow> issues A n) \<Longrightarrow> issues A (if b then m else n)"
  by simp

lemma issues_when_do [issues_rules]: "(c \<Longrightarrow> issues A m) \<Longrightarrow> issues A (when_do c m)"
  by (simp add: when_do_def issues_skip)

lemma issues_ignore [issues_rules]: "issues A m \<Longrightarrow> issues A (ignore m)"
  by (simp add: ignore_def issues_bind issues_skip)

lemma issues_case_option [issues_rules]:
  "(x = None \<Longrightarrow> issues A m) \<Longrightarrow> (\<And>y. x = Some y \<Longrightarrow> issues A (f y)) \<Longrightarrow>
   issues A (case x of None \<Rightarrow> m | Some y \<Rightarrow> f y)"
  by (cases x) simp_all

lemma issues_case_prod [issues_rules]:
  "(\<And>a b. x = (a, b) \<Longrightarrow> issues A (f a b)) \<Longrightarrow> issues A (case x of (a, b) \<Rightarrow> f a b)"
  by (cases x) simp

lemma issues_case_sum [issues_rules]:
  "(\<And>y. x = Inl y \<Longrightarrow> issues A (f y)) \<Longrightarrow> (\<And>y. x = Inr y \<Longrightarrow> issues A (g y)) \<Longrightarrow>
   issues A (case x of Inl y \<Rightarrow> f y | Inr y \<Rightarrow> g y)"
  by (cases x) simp_all

lemma issues_Let [issues_rules]: "issues A (f x) \<Longrightarrow> issues A (let y = x in f y)"
  by simp

section \<open>What the runtime guarantees\<close>

text \<open>
  The one law every environment obeys: what handlers do to the history is to add calls of their own.
  The environment of a handler satisfies it trivially; that of the main thread is shown to satisfy
  it where the handlers are known.
\<close>

locale runtime =
  fixes E :: "('a platform_scheme) env"
  assumes intr_appends: "\<exists>es. hist (intr E c w) = es @ hist w \<and> (\<forall>e \<in> set es. ev_isr e)"
begin

lemma issues_api [issues_rules]: "in_isr E \<or> A c \<Longrightarrow> issues A (api E c)"
  unfolding issues_def
proof
  fix w
  assume A: "in_isr E \<or> A c"
  obtain es where es: "hist (intr E c w) = es @ hist w" "\<forall>e \<in> set es. ev_isr e"
    using intr_appends by blast
  define e where "e = Ev (in_isr E) c (reply E (hist (intr E c w)) c)"
  have "hist (exec (api E c) w) = (e # es) @ hist w"
    by (simp add: api_simps es e_def)
  moreover have "\<forall>x \<in> set (e # es). ev_isr x \<or> A (ev_call x)"
    using es A by (auto simp: e_def)
  ultimately show "\<exists>es. hist (exec (api E c) w) = es @ hist w \<and>
      (\<forall>e \<in> set es. ev_isr e \<or> A (ev_call e))" by blast
qed

lemma issues_api_rc [issues_rules]: "in_isr E \<or> A c \<Longrightarrow> issues A (api_rc E c)"
  and issues_api_flag [issues_rules]: "in_isr E \<or> A c \<Longrightarrow> issues A (api_flag E c)"
  and issues_api_do [issues_rules]: "in_isr E \<or> A c \<Longrightarrow> issues A (api_do E c)"
  by (auto simp: api_rc_def api_flag_def api_do_def
      intro!: issues_bind issues_api issues_return issues_ignore)

end

interpretation isr: runtime "isr_env E" for E
  by unfold_locales simp

text \<open>An invariant that does not look at the history is kept by a call if the handlers keep it.\<close>

lemma keeps_api:
  assumes "\<And>w. I w \<Longrightarrow> I (intr E c w)"
    and "\<And>w h. I w \<Longrightarrow> I (w\<lparr>hist := h\<rparr>)"
  shows "keeps I (api E c)"
  using assms by (simp add: keeps_def api_simps)

text \<open>\<open>preserves E f\<close>: no handler changes what \<open>f\<close> reads.\<close>

definition preserves :: "'w env \<Rightarrow> ('w \<Rightarrow> 'b) \<Rightarrow> bool" where
  "preserves E f \<longleftrightarrow> (\<forall>c w. f (intr E c w) = f w)"

lemma preservesD: "preserves E f \<Longrightarrow> f (intr E c w) = f w"
  by (simp add: preserves_def)

lemma preserves_api:
  assumes "preserves E f" and "\<And>w h. f (w\<lparr>hist := h\<rparr>) = f w"
  shows "f (exec (api E c) w) = f w"
  using assms by (simp add: api_simps preserves_def)

lemma preserves_isr [simp]: "preserves (isr_env E) f"
  by (simp add: preserves_def)

section \<open>Atomic variables and uptime\<close>

lemma keeps_api_variants:
  assumes "keeps I (api E c)"
  shows "keeps I (api_rc E c)" "keeps I (api_flag E c)" "keeps I (api_do E c)"
  using assms by (simp_all add: keeps_def run_simps)

definition atomic_set :: "('a platform_scheme) env \<Rightarrow> atomic_var \<Rightarrow> int \<Rightarrow>
    ('a platform_scheme \<Rightarrow> 'a platform_scheme) \<Rightarrow> ('a platform_scheme, unit) state" where
  "atomic_set E v x f = do { _ \<leftarrow> api E (Kern (Atomic_set v x)); modify f }"

definition atomic_get :: "('a platform_scheme) env \<Rightarrow> atomic_var \<Rightarrow>
    ('a platform_scheme \<Rightarrow> 'b) \<Rightarrow> ('a platform_scheme, 'b) state" where
  "atomic_get E v f = do { _ \<leftarrow> api E (Kern (Atomic_get v)); gets f }"

definition k_uptime_get :: "('a platform_scheme) env \<Rightarrow> ('a platform_scheme, int) state" where
  "k_uptime_get E = do { r \<leftarrow> api E (Kern K_uptime_get); return (i64 r) }"

text \<open>
  A critical section: \<open>m\<close> runs with interrupts masked, so handlers run before the lock is held or
  after it is released.
\<close>

definition locked :: "('a platform_scheme) env \<Rightarrow> spinlock \<Rightarrow> ('a platform_scheme, 'b) state \<Rightarrow>
    ('a platform_scheme, 'b) state" where
  "locked E l m = do {
     api_do E (Kern (K_spin_lock l));
     x \<leftarrow> m;
     api_do E (Kern (K_spin_unlock l));
     return x
   }"

lemmas atomic_defs = atomic_set_def atomic_get_def

section \<open>Reading the history\<close>

text \<open>
  \<open>given s h\<close>: semaphore \<open>s\<close> was given after it was last reset or taken.  A binary semaphore's
  \<open>k_sem_take\<close> succeeds only then; \<open>sem_sound\<close> states that of an environment's answers.
\<close>

fun given :: "semaphore \<Rightarrow> event list \<Rightarrow> bool" where
  "given s [] = False"
| "given s (e # h) =
     (if ev_call e = Kern (K_sem_give s) then True
      else if ev_call e = Kern (K_sem_reset s) then False
      else if (\<exists>t. ev_call e = Kern (K_sem_take s t)) \<and> rc (ev_resp e) = 0 then False
      else given s h)"

definition sem_sound :: "(event list \<Rightarrow> call \<Rightarrow> resp) \<Rightarrow> bool" where
  "sem_sound R \<longleftrightarrow> (\<forall>h s t. rc (R h (Kern (K_sem_take s t))) = 0 \<longrightarrow> given s h)"

text \<open>Since the last reset of a semaphore, a give is an event of the part added since.\<close>

lemma given_append:
  "given s (es @ e # h) \<Longrightarrow> ev_call e = Kern (K_sem_reset s) \<Longrightarrow>
   \<exists>x \<in> set es. ev_call x = Kern (K_sem_give s)"
  by (induction es) (auto split: if_splits)

context runtime begin

text \<open>
  A reset followed by a successful take: a handler gave the semaphore while the take was waiting.
\<close>

lemma sem_wait_given:
  defines "w1 \<equiv> \<lambda>w s. exec (api E (Kern (K_sem_reset s))) w"
  assumes sem: "sem_sound (reply E)"
    and ok: "rc (result (api E (Kern (K_sem_take s t))) (w1 w s)) = 0"
  obtains es where "hist (intr E (Kern (K_sem_take s t)) (w1 w s)) = es @ hist (w1 w s)"
    "\<forall>e \<in> set es. ev_isr e" "\<exists>x \<in> set es. ev_call x = Kern (K_sem_give s)"
proof -
  let ?c = "Kern (K_sem_take s t)"
  obtain es where es: "hist (intr E ?c (w1 w s)) = es @ hist (w1 w s)" "\<forall>e \<in> set es. ev_isr e"
    using intr_appends by blast
  obtain e h where e: "hist (w1 w s) = e # h" "ev_call e = Kern (K_sem_reset s)"
    by (simp add: w1_def hist_api)
  have "given s (es @ e # h)"
    using sem ok es(1) e(1) unfolding sem_sound_def by (metis result_api)
  then have "\<exists>x \<in> set es. ev_call x = Kern (K_sem_give s)"
    using e(2) by (rule given_append)
  with es show ?thesis by (rule that)
qed

end

text \<open>The milliseconds the main thread asked to sleep.\<close>

fun slept :: "event list \<Rightarrow> nat" where
  "slept [] = 0"
| "slept (e # h) = (case ev_call e of Kern (K_sleep ms) \<Rightarrow> if ev_isr e then 0 else ms | _ \<Rightarrow> 0) + slept h"

lemma slept_append: "slept (es @ h) = slept es + slept h"
  by (induction es) simp_all

lemma slept_isr: "\<forall>e \<in> set es. ev_isr e \<Longrightarrow> slept es = 0"
  by (induction es) (simp_all split: call.splits kern_call.splits)

context runtime begin

lemma slept_api: "slept (hist (exec (api E c) w)) =
  (case c of Kern (K_sleep ms) \<Rightarrow> if in_isr E then 0 else ms | _ \<Rightarrow> 0) + slept (hist w)"
proof -
  obtain es where "hist (intr E c w) = es @ hist w" "\<forall>e \<in> set es. ev_isr e"
    using intr_appends by blast
  then show ?thesis
    by (simp add: hist_api slept_append slept_isr split: call.splits kern_call.splits)
qed

end

text \<open>A field that no call changes, handlers included.\<close>

lemma advances_api_same:
  assumes "\<And>c w. f (exec (api E c) w) = f w"
  shows "advances (same f) (api E c)" "advances (same f) (api_rc E c)"
    "advances (same f) (api_flag E c)" "advances (same f) (api_do E c)"
  using assms by (simp_all add: advances_def same_def run_simps)

text \<open>\<open>issues\<close> as a relation between histories, to be followed through a program.\<close>

definition calls_only :: "(call \<Rightarrow> bool) \<Rightarrow> 'a platform_scheme \<Rightarrow> 'a platform_scheme \<Rightarrow> bool" where
  "calls_only A w w' \<longleftrightarrow> (\<exists>es. hist w' = es @ hist w \<and> (\<forall>e \<in> set es. ev_isr e \<or> A (ev_call e)))"

lemma calls_only_issues: "issues A m \<Longrightarrow> calls_only A w (exec m w)"
  by (simp add: issues_def calls_only_def)

lemma calls_only_refl: "hist w' = hist w \<Longrightarrow> calls_only A w w'"
  by (simp add: calls_only_def)

lemma calls_only_trans: "calls_only A u v \<Longrightarrow> calls_only A v w \<Longrightarrow> calls_only A u w"
proof -
  assume "calls_only A u v" "calls_only A v w"
  then obtain es fs where es: "hist v = es @ hist u" "\<forall>e \<in> set es. ev_isr e \<or> A (ev_call e)"
    and fs: "hist w = fs @ hist v" "\<forall>e \<in> set fs. ev_isr e \<or> A (ev_call e)"
    unfolding calls_only_def by blast
  have "hist w = (fs @ es) @ hist u" "\<forall>e \<in> set (fs @ es). ev_isr e \<or> A (ev_call e)"
    using es fs by auto
  then show ?thesis unfolding calls_only_def by blast
qed

section \<open>Time\<close>

text \<open>
  The milliseconds the main thread's calls took.  \<open>clock_sound\<close>: the uptime is their sum, and a sleep
  takes at least what was asked.
\<close>

fun elapsed :: "event list \<Rightarrow> nat" where
  "elapsed [] = 0"
| "elapsed (e # h) = (if ev_isr e then 0 else took (ev_resp e)) + elapsed h"

definition clock_sound :: "(event list \<Rightarrow> call \<Rightarrow> resp) \<Rightarrow> bool" where
  "clock_sound R \<longleftrightarrow> (\<forall>h. i64 (R h (Kern K_uptime_get)) = int (elapsed h)) \<and>
     (\<forall>h ms. took (R h (Kern (K_sleep ms))) \<ge> ms)"

lemma elapsed_append: "elapsed (es @ h) = elapsed es + elapsed h"
  by (induction es) simp_all

lemma calls_only_elapsed: "calls_only A w w' \<Longrightarrow> elapsed (hist w) \<le> elapsed (hist w')"
  by (auto simp: calls_only_def elapsed_append)

context runtime begin

lemma elapsed_api: "elapsed (hist w) + (if in_isr E then 0 else took (result (api E c) w)) \<le>
    elapsed (hist (exec (api E c) w))"
proof -
  obtain es where "hist (intr E c w) = es @ hist w" using intr_appends by blast
  then show ?thesis by (simp add: hist_api elapsed_append)
qed

lemma uptime_elapsed_after:
  assumes "clock_sound (reply E)" "\<not> in_isr E"
  shows "result (k_uptime_get E) w \<le> int (elapsed (hist (exec (k_uptime_get E) w)))"
  using assms by (simp add: clock_sound_def k_uptime_get_def run_simps api_simps)

lemma uptime_elapsed:
  assumes "clock_sound (reply E)"
  shows "result (k_uptime_get E) w \<ge> int (elapsed (hist w))"
proof -
  obtain es where "hist (intr E (Kern K_uptime_get) w) = es @ hist w" using intr_appends by blast
  then show ?thesis
    using assms by (simp add: clock_sound_def k_uptime_get_def run_simps result_api elapsed_append)
qed

end

end
