(* ===== verification/Wake.thy ===== *)
theory Wake
  imports Platform
begin

text \<open>
  wake.c: what ended a battery sleep.  \<open>pending\<close> is the atomic that carries the reason, the
  semaphore \<open>Wake_sem\<close> lives in the history.
\<close>

section \<open>State and operations\<close>

datatype tracker_wake_reason =
    TRACKER_WAKE_BOOT | TRACKER_WAKE_TIMER | TRACKER_WAKE_VBUS | TRACKER_WAKE_MOTION

text \<open>\<open>(atomic_val_t)reason\<close>\<close>

fun wake_reason_val :: "tracker_wake_reason \<Rightarrow> int" where
  "wake_reason_val TRACKER_WAKE_BOOT = 0"
| "wake_reason_val TRACKER_WAKE_TIMER = 1"
| "wake_reason_val TRACKER_WAKE_VBUS = 2"
| "wake_reason_val TRACKER_WAKE_MOTION = 3"

lemma wake_reason_val_inj [simp]: "wake_reason_val a = wake_reason_val b \<longleftrightarrow> a = b"
  by (cases a; cases b) simp_all

record wake_state = platform +
  pending :: tracker_wake_reason

definition wake_signal ::
  "('a wake_state_scheme) env \<Rightarrow> tracker_wake_reason \<Rightarrow> ('a wake_state_scheme, unit) state" where
  "wake_signal E reason = do {
     atomic_set E Pending (wake_reason_val reason) (pending_update (\<lambda>_. reason));
     api_do E (Kern (K_sem_give Wake_sem))
   }"

text \<open>\<open>wake_wait\<close> from the reset of the semaphore on, after \<open>pending\<close> has been set to TIMER.\<close>

definition wake_take ::
  "('a wake_state_scheme) env \<Rightarrow> nat \<Rightarrow> ('a wake_state_scheme, tracker_wake_reason) state" where
  "wake_take E seconds = do {
     api_do E (Kern (K_sem_reset Wake_sem));
     err \<leftarrow> api_rc E (Kern (K_sem_take Wake_sem (seconds * 1000)));
     if err \<noteq> 0 then return TRACKER_WAKE_TIMER
     else atomic_get E Pending pending
   }"

definition wake_wait ::
  "('a wake_state_scheme) env \<Rightarrow> nat \<Rightarrow> ('a wake_state_scheme, tracker_wake_reason) state" where
  "wake_wait E seconds = do {
     atomic_set E Pending (wake_reason_val TRACKER_WAKE_TIMER)
       (pending_update (\<lambda>_. TRACKER_WAKE_TIMER));
     wake_take E seconds
   }"

fun wake_reason_name :: "tracker_wake_reason \<Rightarrow> string" where
  "wake_reason_name TRACKER_WAKE_BOOT = ''boot''"
| "wake_reason_name TRACKER_WAKE_VBUS = ''vbus''"
| "wake_reason_name TRACKER_WAKE_MOTION = ''motion''"
| "wake_reason_name TRACKER_WAKE_TIMER = ''timer''"

lemma wake_reason_name_inj: "wake_reason_name a = wake_reason_name b \<longleftrightarrow> a = b"
  by (cases a; cases b) simp_all

section \<open>The pending reason is the last one stored\<close>

text \<open>The value last stored in \<open>pending\<close>, read off the history.\<close>

fun last_stored :: "event list \<Rightarrow> int option" where
  "last_stored [] = None"
| "last_stored (e # h) =
     (case ev_call e of Kern (Atomic_set Pending x) \<Rightarrow> Some x | _ \<Rightarrow> last_stored h)"

definition pending_current :: "'a wake_state_scheme \<Rightarrow> bool" where
  "pending_current w \<longleftrightarrow> last_stored (hist w) = Some (wake_reason_val (pending w))"

definition sets_pending :: "int \<Rightarrow> event \<Rightarrow> bool" where
  "sets_pending x e \<longleftrightarrow> ev_call e = Kern (Atomic_set Pending x)"

lemma last_stored_other:
  "(\<And>x. ev_call e \<noteq> Kern (Atomic_set Pending x)) \<Longrightarrow> last_stored (e # h) = last_stored h"
  by (auto split: call.splits kern_call.splits atomic_var.splits)

lemma last_stored_set: "last_stored (Ev i (Kern (Atomic_set Pending x)) r # h) = Some x"
  by simp

lemma last_stored_append:
  "last_stored (es @ h) = Some x \<Longrightarrow> (\<exists>e \<in> set es. sets_pending x e) \<or> last_stored h = Some x"
  by (induction es)
     (auto simp: sets_pending_def split: call.splits kern_call.splits atomic_var.splits)

lemma keeps_pending_current_api:
  assumes "\<And>w. pending_current w \<Longrightarrow> pending_current (intr E c w)"
    and "\<And>x. c \<noteq> Kern (Atomic_set Pending x)"
  shows "keeps pending_current (api E c)"
  using assms by (auto simp: keeps_def api_simps pending_current_def last_stored_other simp del: last_stored.simps)

lemma wake_signal_pending_current:
  assumes "\<And>c w. pending_current w \<Longrightarrow> pending_current (intr E c w)"
  shows "hoare (\<lambda>_. True) (wake_signal E reason) (\<lambda>_ w. pending_current w)"
proof -
  have 1: "hoare (\<lambda>_. True) (atomic_set E Pending (wake_reason_val reason) (pending_update (\<lambda>_. reason)))
      (\<lambda>_ w. pending_current w)"
    by (simp add: hoare_def atomic_set_def run_simps hist_api pending_current_def)
  have "keeps pending_current (api_do E (Kern (K_sem_give Wake_sem)))"
    by (intro keeps_api_variants keeps_pending_current_api assms) simp_all
  then have 2: "hoare pending_current (api_do E (Kern (K_sem_give Wake_sem)))
      (\<lambda>_ w. pending_current w)"
    by (simp add: hoare_def keeps_def)
  show ?thesis unfolding wake_signal_def by (rule hoare_bind [OF 1 2])
qed

section \<open>What the client of \<open>wake_wait\<close> may rely on\<close>

text \<open>
  The contract of wake.h for a wait under an environment whose handlers store reasons only through
  \<open>wake_signal\<close>.
\<close>

locale wake_runtime = runtime E for E :: "('a wake_state_scheme) env" +
  assumes intr_pending: "pending_current w \<Longrightarrow> pending_current (intr E c w)"
begin

lemma wake_take_issues [issues_rules]:
  "A (Kern (Atomic_get Pending)) \<Longrightarrow> A (Kern (K_sem_reset Wake_sem)) \<Longrightarrow>
   A (Kern (K_sem_take Wake_sem (s * 1000))) \<Longrightarrow> issues A (wake_take E s)"
  unfolding wake_take_def atomic_get_def by (intro issues_rules) auto

lemma wake_wait_issues [issues_rules]:
  "A (Kern (Atomic_set Pending (wake_reason_val TRACKER_WAKE_TIMER))) \<Longrightarrow>
   A (Kern (Atomic_get Pending)) \<Longrightarrow> A (Kern (K_sem_reset Wake_sem)) \<Longrightarrow>
   A (Kern (K_sem_take Wake_sem (s * 1000))) \<Longrightarrow> issues A (wake_wait E s)"
  unfolding wake_wait_def atomic_set_def by (intro issues_rules) auto

lemma wake_take_pending_current: "keeps pending_current (wake_take E s)"
  unfolding wake_take_def atomic_get_def
  by (intro hoare_rules keeps_api_variants keeps_pending_current_api intr_pending) simp_all

lemma wake_take_result:
  "result (wake_take E s) w = TRACKER_WAKE_TIMER \<or>
   result (wake_take E s) w = pending (exec (wake_take E s) w)"
  by (simp add: wake_take_def atomic_get_def run_simps)

text \<open>
  A reason other than TIMER was stored by a handler after the wait had set \<open>pending\<close> to TIMER: what
  was raised before the wait is not reported.
\<close>

lemma wake_wait_from_handler:
  assumes "result (wake_wait E s) w = r" and "r \<noteq> TRACKER_WAKE_TIMER"
  shows "\<exists>es e0 es0. hist (exec (wake_wait E s) w) = es @ e0 # es0 @ hist w \<and>
    sets_pending (wake_reason_val TRACKER_WAKE_TIMER) e0 \<and>
    last_stored (hist (exec (wake_wait E s) w)) = Some (wake_reason_val r) \<and>
    (\<exists>e \<in> set es. ev_isr e \<and> sets_pending (wake_reason_val r) e)"
proof -
  define m where "m = atomic_set E Pending (wake_reason_val TRACKER_WAKE_TIMER)
       (pending_update (\<lambda>_. TRACKER_WAKE_TIMER))"
  define w1 where "w1 = exec m w"
  define w2 where "w2 = exec (wake_take E s) w1"
  have w2: "exec (wake_wait E s) w = w2" "result (wake_take E s) w1 = r"
    using assms by (simp_all add: wake_wait_def run_simps w2_def w1_def m_def)
  obtain es0 where es0: "hist (intr E (Kern (Atomic_set Pending (wake_reason_val TRACKER_WAKE_TIMER))) w) = es0 @ hist w"
    using intr_appends by blast
  obtain e0 where e0: "hist w1 = e0 # es0 @ hist w"
    "sets_pending (wake_reason_val TRACKER_WAKE_TIMER) e0"
    using es0 by (auto simp: w1_def m_def atomic_set_def run_simps hist_api sets_pending_def)
  have cur1: "pending_current w1"
    by (simp add: w1_def m_def atomic_set_def run_simps hist_api pending_current_def)
  have cur2: "pending_current w2"
    unfolding w2_def by (rule keepsD [OF wake_take_pending_current cur1])
  have r: "r = pending w2"
    using wake_take_result [of s w1] w2(2) assms(2) by (simp add: w2_def)
  have "issues (\<lambda>c. \<forall>x. c \<noteq> Kern (Atomic_set Pending x)) (wake_take E s)"
    by (rule wake_take_issues) simp_all
  then obtain es where es: "hist w2 = es @ hist w1"
    "\<forall>e \<in> set es. ev_isr e \<or> (\<forall>x. ev_call e \<noteq> Kern (Atomic_set Pending x))"
    unfolding w2_def by (rule issuesE)
  have last: "last_stored (hist w2) = Some (wake_reason_val r)"
    using cur2 by (simp add: r pending_current_def)
  have "last_stored (hist w1) = Some (wake_reason_val TRACKER_WAKE_TIMER)"
    using e0 by (simp add: sets_pending_def)
  with last es(1) assms(2) have "\<exists>e \<in> set es. sets_pending (wake_reason_val r) e"
    using last_stored_append [of es "hist w1" "wake_reason_val r"] by (auto simp del: wake_reason_val.simps)
  with es(2) have "\<exists>e \<in> set es. ev_isr e \<and> sets_pending (wake_reason_val r) e"
    by (auto simp: sets_pending_def)
  with w2(1) es(1) e0 last show ?thesis by auto
qed

end

end
