(* ===== verification/Watchdog.thy ===== *)
theory Watchdog
  imports Wake
begin

text \<open>
  watchdog.c: the hardware watchdog, the guard timer that feeds it for a bounded time, and the phase
  marker kept in RAM that a reset does not clear.  The marker holds the raw \<open>uint32_t\<close> the code
  stores, so that rubbish left in RAM is representable.
\<close>

section \<open>Phases\<close>

datatype tracker_phase =
    TRACKER_PHASE_NONE | TRACKER_PHASE_WAKE | TRACKER_PHASE_LTE | TRACKER_PHASE_CLOUD_RESUME
  | TRACKER_PHASE_GNSS_START | TRACKER_PHASE_AGNSS | TRACKER_PHASE_FIX | TRACKER_PHASE_REPORT
  | TRACKER_PHASE_FREQUENT | TRACKER_PHASE_GNSS_STOP | TRACKER_PHASE_CLOUD_PAUSE
  | TRACKER_PHASE_LED_SLEEP | TRACKER_PHASE_MOTION_ARM | TRACKER_PHASE_SLEEP
  | TRACKER_PHASE_NO_NETWORK

text \<open>The enumerator's value, sent verbatim as \<open>wdt\<close> in the telemetry.\<close>

fun phase_val :: "tracker_phase \<Rightarrow> u32" where
  "phase_val TRACKER_PHASE_NONE = 0"
| "phase_val TRACKER_PHASE_WAKE = 1"
| "phase_val TRACKER_PHASE_LTE = 2"
| "phase_val TRACKER_PHASE_CLOUD_RESUME = 3"
| "phase_val TRACKER_PHASE_GNSS_START = 4"
| "phase_val TRACKER_PHASE_AGNSS = 5"
| "phase_val TRACKER_PHASE_FIX = 6"
| "phase_val TRACKER_PHASE_REPORT = 7"
| "phase_val TRACKER_PHASE_FREQUENT = 8"
| "phase_val TRACKER_PHASE_GNSS_STOP = 9"
| "phase_val TRACKER_PHASE_CLOUD_PAUSE = 10"
| "phase_val TRACKER_PHASE_LED_SLEEP = 11"
| "phase_val TRACKER_PHASE_MOTION_ARM = 12"
| "phase_val TRACKER_PHASE_SLEEP = 13"
| "phase_val TRACKER_PHASE_NO_NETWORK = 14"

lemma phase_val_inj: "phase_val p = phase_val q \<Longrightarrow> p = q"
  by (cases p; cases q) simp_all

text \<open>\<open>switch (phase)\<close> on the stored value: any other value takes the default.\<close>

definition watchdog_phase_name :: "u32 \<Rightarrow> string" where
  "watchdog_phase_name p =
    (if p = phase_val TRACKER_PHASE_WAKE then ''wake''
     else if p = phase_val TRACKER_PHASE_LTE then ''lte''
     else if p = phase_val TRACKER_PHASE_CLOUD_RESUME then ''cloud-resume''
     else if p = phase_val TRACKER_PHASE_GNSS_START then ''gnss-start''
     else if p = phase_val TRACKER_PHASE_AGNSS then ''agnss''
     else if p = phase_val TRACKER_PHASE_FIX then ''fix''
     else if p = phase_val TRACKER_PHASE_REPORT then ''report''
     else if p = phase_val TRACKER_PHASE_FREQUENT then ''frequent-loop''
     else if p = phase_val TRACKER_PHASE_GNSS_STOP then ''gnss-stop''
     else if p = phase_val TRACKER_PHASE_CLOUD_PAUSE then ''cloud-pause''
     else if p = phase_val TRACKER_PHASE_LED_SLEEP then ''led-sleep''
     else if p = phase_val TRACKER_PHASE_MOTION_ARM then ''motion-arm''
     else if p = phase_val TRACKER_PHASE_SLEEP then ''sleep''
     else if p = phase_val TRACKER_PHASE_NO_NETWORK then ''no-network reboot''
     else ''none'')"

section \<open>State\<close>

record watchdog_state = wake_state +
  wdt_channel :: int
  guard_feeds_left :: u32
  phase_magic :: u32       \<comment> \<open>\<open>.noinit\<close>\<close>
  phase_current :: u32     \<comment> \<open>\<open>.noinit\<close>\<close>
  phase_at_reset :: u32

definition PHASE_MAGIC :: u32 where
  "PHASE_MAGIC = 0x57445431"

definition WDT_GUARD_PERIOD_S :: u32 where
  "WDT_GUARD_PERIOD_S = 30"

text \<open>\<open>(SLEEP + MARGIN) * 1000U\<close>: the product is unsigned and wraps at 32 bits.\<close>

definition WDT_TIMEOUT_MS :: "config \<Rightarrow> u32" where
  "WDT_TIMEOUT_MS C =
     word_of_nat (TRACKER_SLEEP_SECONDS C + TRACKER_WATCHDOG_MARGIN_SECONDS C) * 1000"

text \<open>Zephyr's \<open>DIV_ROUND_UP(n, d)\<close> is \<open>(n + d - 1) / d\<close>, here in \<open>uint32_t\<close>.\<close>

definition DIV_ROUND_UP :: "u32 \<Rightarrow> u32 \<Rightarrow> u32" where
  "DIV_ROUND_UP n d = (n + d - 1) div d"

section \<open>Operations\<close>

definition watchdog_feed :: "('a watchdog_state_scheme) env \<Rightarrow> ('a watchdog_state_scheme, unit) state" where
  "watchdog_feed E = do {
     ch \<leftarrow> gets wdt_channel;
     when_do (ch \<ge> 0) (api_do E (Kern (Wdt_feed ch)))
   }"

definition guard_expiry :: "('a watchdog_state_scheme) env \<Rightarrow> ('a watchdog_state_scheme, unit) state" where
  "guard_expiry E = do {
     n \<leftarrow> gets guard_feeds_left;
     if n = 0 then api_do E (Kern K_timer_stop)
     else do {
       modify (guard_feeds_left_update (\<lambda>n. n - 1));
       watchdog_feed E
     }
   }"

definition phase_init :: "('a watchdog_state_scheme, unit) state" where
  "phase_init = do {
     magic \<leftarrow> gets phase_magic;
     (if magic = PHASE_MAGIC
      then modify (\<lambda>w. w\<lparr>phase_at_reset := phase_current w\<rparr>)
      else modify (\<lambda>w. w\<lparr>phase_magic := PHASE_MAGIC, phase_at_reset := phase_val TRACKER_PHASE_NONE\<rparr>));
     modify (\<lambda>w. w\<lparr>phase_current := phase_val TRACKER_PHASE_NONE\<rparr>)
   }"

definition watchdog_init :: "('a watchdog_state_scheme) env \<Rightarrow> ('a watchdog_state_scheme, int) state" where
  "watchdog_init E = do {
     phase_init;
     ready \<leftarrow> api_flag E (Kern (Device_is_ready Dev_wdt));
     if \<not> ready then return (- ENODEV)
     else do {
       ch \<leftarrow> api_rc E (Kern (Wdt_install_timeout (WDT_TIMEOUT_MS (cfg E))));
       modify (\<lambda>w. w\<lparr>wdt_channel := ch\<rparr>);
       if ch < 0 then return ch
       else do {
         err \<leftarrow> api_rc E (Kern Wdt_setup);
         if err \<noteq> 0 then do {
           modify (\<lambda>w. w\<lparr>wdt_channel := -1\<rparr>);
           return err
         }
         else return 0
       }
     }
   }"

definition watchdog_guard_start ::
  "('a watchdog_state_scheme) env \<Rightarrow> u32 \<Rightarrow> ('a watchdog_state_scheme, unit) state" where
  "watchdog_guard_start E budget_s = do {
     modify (\<lambda>w. w\<lparr>guard_feeds_left := DIV_ROUND_UP budget_s WDT_GUARD_PERIOD_S\<rparr>);
     watchdog_feed E;
     api_do E (Kern (K_timer_start (unat WDT_GUARD_PERIOD_S * 1000) (unat WDT_GUARD_PERIOD_S * 1000)))
   }"

definition watchdog_guard_stop ::
  "('a watchdog_state_scheme) env \<Rightarrow> ('a watchdog_state_scheme, unit) state" where
  "watchdog_guard_stop E = do {
     api_do E (Kern K_timer_stop);
     watchdog_feed E
   }"

definition watchdog_phase :: "tracker_phase \<Rightarrow> ('a watchdog_state_scheme, unit) state" where
  "watchdog_phase phase = modify (\<lambda>w. w\<lparr>phase_current := phase_val phase\<rparr>)"

definition watchdog_reset_phase :: "('a watchdog_state_scheme, u32) state" where
  "watchdog_reset_phase = gets phase_at_reset"

section \<open>The guard: how many feeds, and how long they last\<close>

definition is_feed :: "event \<Rightarrow> bool" where
  "is_feed e \<longleftrightarrow> (\<exists>ch. ev_call e = Kern (Wdt_feed ch))"

definition feeds :: "event list \<Rightarrow> nat" where
  "feeds h = length (filter is_feed h)"

lemma feeds_simps [simp]:
  "feeds [] = 0"
  "feeds (Ev i (Kern (Wdt_feed ch)) r # h) = Suc (feeds h)"
  "feeds (Ev i (Kern K_timer_stop) r # h) = feeds h"
  "feeds (Ev i (Kern (K_timer_start a b)) r # h) = feeds h"
  by (simp_all add: feeds_def is_feed_def)

text \<open>\<open>k\<close> expiries of the guard timer, one after the other.\<close>

definition guard_ticks :: "nat \<Rightarrow> ('a watchdog_state_scheme) env \<Rightarrow>
    'a watchdog_state_scheme \<Rightarrow> 'a watchdog_state_scheme" where
  "guard_ticks k E = exec (guard_expiry E) ^^ k"

lemma exec_watchdog_feed_isr [run_simps]:
  "exec (watchdog_feed (isr_env E)) w =
     (if wdt_channel w \<ge> 0
      then w\<lparr>hist := Ev True (Kern (Wdt_feed (wdt_channel w))) (reply E (hist w) (Kern (Wdt_feed (wdt_channel w)))) # hist w\<rparr>
      else w)"
  by (simp add: watchdog_feed_def run_simps api_simps)

lemma guard_expiry_step:
  fixes E :: "('a watchdog_state_scheme) env" and w :: "'a watchdog_state_scheme"
  assumes "wdt_channel w \<ge> 0"
  defines "w' \<equiv> exec (guard_expiry (isr_env E)) w"
  shows "wdt_channel w' = wdt_channel w"
    and "unat (guard_feeds_left w') = unat (guard_feeds_left w) - 1"
    and "feeds (hist w') = feeds (hist w) + (if guard_feeds_left w = 0 then 0 else 1)"
  using assms by (auto simp: guard_expiry_def run_simps api_simps unat_minus_one)

lemma guard_ticks_feeds:
  assumes "wdt_channel w \<ge> 0"
  shows "feeds (hist (guard_ticks k (isr_env E) w)) = feeds (hist w) + min k (unat (guard_feeds_left w))
    \<and> unat (guard_feeds_left (guard_ticks k (isr_env E) w)) = unat (guard_feeds_left w) - k
    \<and> wdt_channel (guard_ticks k (isr_env E) w) \<ge> 0"
proof (induction k)
  case 0
  show ?case using assms by (simp add: guard_ticks_def)
next
  case (Suc k)
  let ?w = "guard_ticks k (isr_env E) w"
  have step: "guard_ticks (Suc k) (isr_env E) w = exec (guard_expiry (isr_env E)) ?w"
    by (simp add: guard_ticks_def)
  have ch: "wdt_channel ?w \<ge> 0" using Suc.IH by simp
  have z: "guard_feeds_left ?w = 0 \<longleftrightarrow> unat (guard_feeds_left w) \<le> k"
    using Suc.IH by (metis diff_is_0_eq unat_eq_zero)
  show ?case
    unfolding step using guard_expiry_step [OF ch, of E] Suc.IH ch z by auto
qed

lemma DIV_ROUND_UP_nat:
  assumes "unat n + 29 < 2 ^ 32"
  shows "unat (DIV_ROUND_UP n WDT_GUARD_PERIOD_S) = (unat n + 29) div 30"
proof -
  have "n + 30 - 1 = n + 29" by simp
  then have e: "unat (n + 30 - 1) = unat n + 29"
    using assms by (simp add: unat_word_ariths)
  show ?thesis
    by (simp only: DIV_ROUND_UP_def WDT_GUARD_PERIOD_S_def unat_div e) simp
qed

text \<open>The guard's last feed is due when the budget is spent, less than a period later.\<close>

lemma DIV_ROUND_UP_covers: "n \<le> (n + 29) div 30 * 30" "(n + 29) div 30 * 30 < n + (30::nat)"
  by presburger+

section \<open>The phase marker\<close>

text \<open>
  A reset that keeps the RAM: every static starts from its initialiser again, \<open>.noinit\<close> data stay.
\<close>

definition after_reset :: "'a watchdog_state_scheme \<Rightarrow> 'a watchdog_state_scheme" where
  "after_reset w = w\<lparr>hist := [], pending := TRACKER_WAKE_TIMER, wdt_channel := -1,
     guard_feeds_left := 0, phase_at_reset := 0\<rparr>"

lemma exec_phase_init [run_simps]:
  "exec phase_init w = w\<lparr>phase_magic := PHASE_MAGIC,
     phase_at_reset := (if phase_magic w = PHASE_MAGIC then phase_current w else 0),
     phase_current := 0\<rparr>"
  by (simp add: phase_init_def run_simps)

section \<open>The interface\<close>

text \<open>
  What the code relies on while the main thread runs: no handler touches the watchdog's channel or
  the phase marker.  (The guard timer's handler does change \<open>guard_feeds_left\<close>.)
\<close>

locale watchdog_runtime = wake_runtime E for E :: "('a watchdog_state_scheme) env" +
  assumes intr_watchdog: "wdt_channel (intr E c w) = wdt_channel w"
      "phase_magic (intr E c w) = phase_magic w"
      "phase_current (intr E c w) = phase_current w"
      "phase_at_reset (intr E c w) = phase_at_reset w"
begin

lemmas [simp] = intr_watchdog

lemma api_watchdog [simp]:
  "wdt_channel (exec (api E c) w) = wdt_channel w"
  "phase_magic (exec (api E c) w) = phase_magic w"
  "phase_current (exec (api E c) w) = phase_current w"
  "phase_at_reset (exec (api E c) w) = phase_at_reset w"
  by (simp_all add: api_simps)

lemma watchdog_feed_issues [issues_rules]:
  "in_isr E \<or> (\<forall>ch. A (Kern (Wdt_feed ch))) \<Longrightarrow> issues A (watchdog_feed E)"
  unfolding watchdog_feed_def by (intro issues_rules) auto

lemma watchdog_guard_start_issues [issues_rules]:
  "(\<And>ch. A (Kern (Wdt_feed ch))) \<Longrightarrow> (\<And>a b. A (Kern (K_timer_start a b))) \<Longrightarrow>
   issues A (watchdog_guard_start E b)"
  unfolding watchdog_guard_start_def by (intro issues_rules) auto

lemma watchdog_guard_stop_issues [issues_rules]:
  "(\<And>ch. A (Kern (Wdt_feed ch))) \<Longrightarrow> A (Kern K_timer_stop) \<Longrightarrow> issues A (watchdog_guard_stop E)"
  unfolding watchdog_guard_stop_def by (intro issues_rules) auto

lemma watchdog_phase_issues [issues_rules]: "issues A (watchdog_phase p)"
  unfolding watchdog_phase_def by (intro issues_rules) simp

text \<open>Initialisation latches the marker left by the previous run and starts a fresh one.\<close>

lemma watchdog_init_phase:
  defines "w' \<equiv> \<lambda>w. exec (watchdog_init E) w"
  shows "phase_at_reset (w' w) = (if phase_magic w = PHASE_MAGIC then phase_current w else 0)"
    and "phase_magic (w' w) = PHASE_MAGIC"
    and "phase_current (w' w) = 0"
  by (simp_all add: w'_def watchdog_init_def run_simps)

lemma watchdog_init_channel:
  "wdt_channel w < 0 \<Longrightarrow> result (watchdog_init E) w = 0 \<longleftrightarrow> 0 \<le> wdt_channel (exec (watchdog_init E) w)"
  by (auto simp: watchdog_init_def run_simps ENODEV_def)

end

interpretation isr_wdt: watchdog_runtime "isr_env E" for E
  by unfold_locales simp_all

end
