(* ===== verification/Power_Supply.thy ===== *)
theory Power_Supply
  imports Watchdog
begin

text \<open>
  power.c: battery voltage, charge state and external power (VBUS) from the nPM1300.  The one
  static, \<open>vbus_connected\<close>, is written by the PMIC's event callback and by every successful read, and
  is the answer when a read fails.
\<close>

section \<open>State and constants\<close>

datatype tracker_charge_state =
    TRACKER_CHARGE_DISCHARGING | TRACKER_CHARGE_CHARGING | TRACKER_CHARGE_FULL

fun charge_val :: "tracker_charge_state \<Rightarrow> int" where
  "charge_val TRACKER_CHARGE_DISCHARGING = 0"
| "charge_val TRACKER_CHARGE_CHARGING = 1"
| "charge_val TRACKER_CHARGE_FULL = 2"

lemma charge_val_inj: "charge_val a = charge_val b \<longleftrightarrow> a = b"
  by (cases a; cases b) simp_all

record power_state = watchdog_state +
  vbus_connected :: bool

definition BIT :: "nat \<Rightarrow> u32" where
  "BIT n = push_bit n 1"

definition CHG_STAT_COMPLETED :: u32 where "CHG_STAT_COMPLETED = BIT 1"
definition CHG_STAT_TRICKLE :: u32 where "CHG_STAT_TRICKLE = BIT 2"
definition CHG_STAT_CC :: u32 where "CHG_STAT_CC = BIT 3"
definition CHG_STAT_CV :: u32 where "CHG_STAT_CV = BIT 4"

definition CHG_STAT_CHARGING :: u32 where
  "CHG_STAT_CHARGING = (CHG_STAT_TRICKLE OR CHG_STAT_CC OR CHG_STAT_CV)"

definition VBUS_STAT_PRESENT :: u32 where "VBUS_STAT_PRESENT = BIT 0"

lemmas power_bits = BIT_def CHG_STAT_COMPLETED_def CHG_STAT_TRICKLE_def CHG_STAT_CC_def
  CHG_STAT_CV_def CHG_STAT_CHARGING_def VBUS_STAT_PRESENT_def

text \<open>Masking with a single bit tests it.\<close>

lemma and_BIT: "(x AND BIT n) \<noteq> 0 \<longleftrightarrow> bit x n" for x :: u32
  by (simp add: BIT_def and_exp_eq_0_iff_not_bit push_bit_eq_mult)

section \<open>Operations\<close>

definition read_vbus_present :: "('a power_state_scheme) env \<Rightarrow> ('a power_state_scheme, bool) state" where
  "read_vbus_present E = do {
     err \<leftarrow> api_rc E (Board Sensor_sample_fetch);
     if err \<noteq> 0 then gets vbus_connected
     else do {
       r \<leftarrow> api E (Board (Sensor_channel_get SENSOR_CHAN_NPM13XX_CHARGER_VBUS_STATUS));
       if rc r \<noteq> 0 then gets vbus_connected
       else return (to_u32 (val1 r) AND VBUS_STAT_PRESENT \<noteq> 0)
     }
   }"

definition event_callback ::
  "('a power_state_scheme) env \<Rightarrow> u32 \<Rightarrow> ('a power_state_scheme, unit) state" where
  "event_callback E pins = do {
     when_do (pins AND BIT (NPM13XX_EVENT_VBUS_DETECTED (sdk E)) \<noteq> 0) (do {
       modify (\<lambda>w. w\<lparr>vbus_connected := True\<rparr>);
       wake_signal E TRACKER_WAKE_VBUS
     });
     when_do (pins AND BIT (NPM13XX_EVENT_VBUS_REMOVED (sdk E)) \<noteq> 0)
       (modify (\<lambda>w. w\<lparr>vbus_connected := False\<rparr>))
   }"

definition power_init :: "('a power_state_scheme) env \<Rightarrow> ('a power_state_scheme, int) state" where
  "power_init E = do {
     p \<leftarrow> api_flag E (Kern (Device_is_ready Dev_pmic));
     c \<leftarrow> (if p then api_flag E (Kern (Device_is_ready Dev_charger)) else return False);
     if \<not> p \<or> \<not> c then return (- ENODEV)
     else do {
       err \<leftarrow> api_rc E (Board Mfd_npm13xx_add_callback);
       if err \<noteq> 0 then return err
       else do {
         v \<leftarrow> read_vbus_present E;
         modify (\<lambda>w. w\<lparr>vbus_connected := v\<rparr>);
         return 0
       }
     }
   }"

definition power_vbus_present :: "('a power_state_scheme) env \<Rightarrow> ('a power_state_scheme, bool) state" where
  "power_vbus_present E = do {
     v \<leftarrow> read_vbus_present E;
     modify (\<lambda>w. w\<lparr>vbus_connected := v\<rparr>);
     gets vbus_connected
   }"

definition charge_state_from_status :: "u32 \<Rightarrow> tracker_charge_state" where
  "charge_state_from_status status =
     (if status AND CHG_STAT_COMPLETED \<noteq> 0 then TRACKER_CHARGE_FULL
      else if status AND CHG_STAT_CHARGING \<noteq> 0 then TRACKER_CHARGE_CHARGING
      else TRACKER_CHARGE_DISCHARGING)"

definition power_charge_state ::
  "('a power_state_scheme) env \<Rightarrow> ('a power_state_scheme, tracker_charge_state) state" where
  "power_charge_state E = do {
     err \<leftarrow> api_rc E (Board Sensor_sample_fetch);
     if err \<noteq> 0 then return TRACKER_CHARGE_DISCHARGING
     else do {
       r \<leftarrow> api E (Board (Sensor_channel_get SENSOR_CHAN_NPM13XX_CHARGER_STATUS));
       if rc r \<noteq> 0 then return TRACKER_CHARGE_DISCHARGING
       else return (charge_state_from_status (to_u32 (val1 r)))
     }
   }"

text \<open>\<open>(uint16_t)(val.val1 * 1000 + val.val2 / 1000)\<close>: volts and microvolts to millivolts.\<close>

definition sensor_mv :: "int \<Rightarrow> int \<Rightarrow> u16" where
  "sensor_mv v1 v2 = word_of_int (v1 * 1000 + c_div v2 1000)"

text \<open>
  \<open>Inl err\<close> is an error return, before which nothing is written to the out-parameters; \<open>Inr\<close> holds
  what a return of 0 leaves in them.
\<close>

definition power_read ::
  "('a power_state_scheme) env \<Rightarrow> ('a power_state_scheme, int + (u16 \<times> tracker_charge_state)) state" where
  "power_read E = do {
     err \<leftarrow> api_rc E (Board Sensor_sample_fetch);
     if err \<noteq> 0 then return (Inl err)
     else do {
       v \<leftarrow> api E (Board (Sensor_channel_get SENSOR_CHAN_GAUGE_VOLTAGE));
       if rc v \<noteq> 0 then return (Inl (rc v))
       else do {
         let batt_mv = sensor_mv (val1 v) (val2 v);
         s \<leftarrow> api E (Board (Sensor_channel_get SENSOR_CHAN_NPM13XX_CHARGER_STATUS));
         if rc s \<noteq> 0 then return (Inr (batt_mv, TRACKER_CHARGE_DISCHARGING))
         else return (Inr (batt_mv, charge_state_from_status (to_u32 (val1 s))))
       }
     }
   }"

section \<open>Decoding\<close>

lemma charge_state_bits:
  "charge_state_from_status s = TRACKER_CHARGE_FULL \<longleftrightarrow> bit s 1"
  "charge_state_from_status s = TRACKER_CHARGE_CHARGING \<longleftrightarrow> \<not> bit s 1 \<and> (bit s 2 \<or> bit s 3 \<or> bit s 4)"
proof -
  have 1: "s AND CHG_STAT_COMPLETED \<noteq> 0 \<longleftrightarrow> bit s 1"
    by (simp add: CHG_STAT_COMPLETED_def and_BIT)
  have "s AND CHG_STAT_CHARGING = (s AND BIT 2) OR (s AND BIT 3) OR (s AND BIT 4)"
    by (simp only: CHG_STAT_CHARGING_def CHG_STAT_TRICKLE_def CHG_STAT_CC_def CHG_STAT_CV_def
        bit.conj_disj_distrib or.assoc)
  moreover have "x OR y = 0 \<longleftrightarrow> x = 0 \<and> y = 0" for x y :: u32
    by (simp add: or_eq_0_iff)
  ultimately have 2: "s AND CHG_STAT_CHARGING \<noteq> 0 \<longleftrightarrow> bit s 2 \<or> bit s 3 \<or> bit s 4"
    by (metis and_BIT)
  show "charge_state_from_status s = TRACKER_CHARGE_FULL \<longleftrightarrow> bit s 1"
    and "charge_state_from_status s = TRACKER_CHARGE_CHARGING \<longleftrightarrow> \<not> bit s 1 \<and> (bit s 2 \<or> bit s 3 \<or> bit s 4)"
    using 1 2 by (auto simp: charge_state_from_status_def)
qed

lemma uint_u16_of_int: "0 \<le> x \<Longrightarrow> x < 65536 \<Longrightarrow> uint (word_of_int x :: u16) = x"
  by (simp add: uint_word_of_int)

text \<open>A reading of less than 65.536 V, in volts and microvolts, is reported as its millivolts.\<close>

lemma sensor_mv_exact:
  assumes "0 \<le> v1" "v1 \<le> 65" "0 \<le> v2" "v2 < 1000000" "v1 = 65 \<Longrightarrow> v2 < 536000"
  shows "int (unat (sensor_mv v1 v2)) = (v1 * 1000000 + v2) div 1000"
proof -
  have e: "(v1 * 1000000 + v2) div 1000 = v1 * 1000 + v2 div 1000"
    using div_mult_self3 [of 1000 "v1 * 1000" v2] by (simp add: algebra_simps)
  have "v1 * 1000 + v2 div 1000 < 65536" using assms by (cases "v1 = 65") auto
  then have "uint (sensor_mv v1 v2) = v1 * 1000 + v2 div 1000"
    using assms uint_u16_of_int [of "v1 * 1000 + v2 div 1000"] by (simp add: sensor_mv_def)
  with e assms(1,3) show ?thesis by (simp add: unat_eq_nat_uint)
qed

section \<open>The interface\<close>

context watchdog_runtime begin

lemma wake_signal_issues [issues_rules]: "in_isr E \<Longrightarrow> issues A (wake_signal E r)"
  unfolding wake_signal_def atomic_set_def by (intro issues_rules) auto

end

locale power_runtime = watchdog_runtime E for E :: "('a power_state_scheme) env"
begin

lemma read_vbus_present_issues [issues_rules]:
  "A (Board Sensor_sample_fetch) \<Longrightarrow> (\<And>c. A (Board (Sensor_channel_get c))) \<Longrightarrow>
   issues A (read_vbus_present E)"
  unfolding read_vbus_present_def by (intro issues_rules) auto

lemma power_vbus_present_issues [issues_rules]:
  "A (Board Sensor_sample_fetch) \<Longrightarrow> (\<And>c. A (Board (Sensor_channel_get c))) \<Longrightarrow>
   issues A (power_vbus_present E)"
  unfolding power_vbus_present_def by (intro issues_rules) auto

lemma power_read_issues [issues_rules]:
  "A (Board Sensor_sample_fetch) \<Longrightarrow> (\<And>c. A (Board (Sensor_channel_get c))) \<Longrightarrow>
   issues A (power_read E)"
  unfolding power_read_def by (intro issues_rules) auto

lemma power_init_issues [issues_rules]:
  "A (Board Sensor_sample_fetch) \<Longrightarrow> (\<And>c. A (Board (Sensor_channel_get c))) \<Longrightarrow>
   (\<And>d. A (Kern (Device_is_ready d))) \<Longrightarrow> A (Board Mfd_npm13xx_add_callback) \<Longrightarrow>
   issues A (power_init E)"
  unfolding power_init_def by (intro issues_rules) auto

lemma event_callback_issues [issues_rules]: "in_isr E \<Longrightarrow> issues A (event_callback E pins)"
  unfolding event_callback_def by (intro issues_rules) simp_all

end

interpretation isr_power: power_runtime "isr_env E" for E
  by unfold_locales

text \<open>
  Without handlers in between, a read that fails answers with what was known before, and a
  successful one with bit 0 of the VBUS status register.
\<close>

lemma power_vbus_present_result:
  "result (power_vbus_present (isr_env E)) w =
     (let h1 = Ev True (Board Sensor_sample_fetch) (reply E (hist w) (Board Sensor_sample_fetch)) # hist w;
          r = reply E h1 (Board (Sensor_channel_get SENSOR_CHAN_NPM13XX_CHARGER_VBUS_STATUS))
      in if rc (reply E (hist w) (Board Sensor_sample_fetch)) \<noteq> 0 \<or> rc r \<noteq> 0 then vbus_connected w
         else bit (to_u32 (val1 r)) 0)"
  by (simp add: power_vbus_present_def read_vbus_present_def run_simps api_simps Let_def
      VBUS_STAT_PRESENT_def and_BIT)


section \<open>Properties\<close>

text \<open>
  The charger's status register decodes to FULL exactly when its completed bit is set, to
  CHARGING exactly when it is not and one of trickle, constant current and constant voltage is.
\<close>

theorem charge_state_decoding:
  "(charge_state_from_status s = TRACKER_CHARGE_FULL \<longleftrightarrow> bit s 1) \<and>
   (charge_state_from_status s = TRACKER_CHARGE_CHARGING \<longleftrightarrow> \<not> bit s 1 \<and> (bit s 2 \<or> bit s 3 \<or> bit s 4)) \<and>
   (charge_state_from_status s = TRACKER_CHARGE_DISCHARGING \<longleftrightarrow>
      \<not> bit s 1 \<and> \<not> bit s 2 \<and> \<not> bit s 3 \<and> \<not> bit s 4)"
  using charge_state_bits [of s] by (cases "charge_state_from_status s") auto

text \<open>
  A gauge reading of less than 65.536 V is reported as its millivolts, rounded down: nothing is
  lost in the conversion to \<open>uint16_t\<close>.
\<close>

theorem gauge_voltage_exact:
  assumes "0 \<le> v1" "0 \<le> v2" "v2 < 1000000" "v1 * 1000000 + v2 < 65536000"
  shows "int (unat (sensor_mv v1 v2)) = (v1 * 1000000 + v2) div 1000"
  using assms by (intro sensor_mv_exact) auto

theorem gauge_voltage_exact_witness:
  "int (unat (sensor_mv 3 712345)) = (3 * 1000000 + 712345) div 1000"
  using gauge_voltage_exact [of 3 712345] by simp

text \<open>
  Asked without handlers in between, the external power is bit 0 of the charger's status
  register if both sensor calls succeed, and what was known before if one fails; it is remembered.
\<close>

lemma vbus_falls_back:
  "result (power_vbus_present (isr_env E)) w =
     (let h1 = Ev True (Board Sensor_sample_fetch) (reply E (hist w) (Board Sensor_sample_fetch)) # hist w;
          r = reply E h1 (Board (Sensor_channel_get SENSOR_CHAN_NPM13XX_CHARGER_VBUS_STATUS))
      in if rc (reply E (hist w) (Board Sensor_sample_fetch)) = 0 \<and> rc r = 0 then bit (to_u32 (val1 r)) 0
         else vbus_connected w) \<and>
   vbus_connected (exec (power_vbus_present (isr_env E)) w) = result (power_vbus_present (isr_env E)) w"
  using power_vbus_present_result [of E w]
  by (auto simp: power_vbus_present_def run_simps Let_def)

end
