(* ===== verification/Formatting.thy ===== *)
theory Formatting
  imports Prelude
begin

text \<open>
  The conversions of the C library's \<open>snprintf\<close> that the firmware uses (\<open>%u\<close>, \<open>%d\<close>, \<open>%.Nf\<close>), its
  truncation rule, and readers that invert the conversions.
\<close>

section \<open>Decimal numbers\<close>

definition digit :: "nat \<Rightarrow> char" where
  "digit d = char_of (48 + d)"

definition digit_val :: "char \<Rightarrow> nat option" where
  "digit_val c = (let n = of_char c :: nat in if 48 \<le> n \<and> n \<le> 57 then Some (n - 48) else None)"

lemma digit_val_digit [simp]: "d < 10 \<Longrightarrow> digit_val (digit d) = Some d"
  by (simp add: digit_def digit_val_def Let_def)

text \<open>\<open>%u\<close>\<close>

fun show_nat :: "nat \<Rightarrow> string" where
  "show_nat n = (if n < 10 then [digit n] else show_nat (n div 10) @ [digit (n mod 10)])"

declare show_nat.simps [simp del]

text \<open>\<open>%d\<close>\<close>

definition show_int :: "int \<Rightarrow> string" where
  "show_int i = (if i < 0 then ''-'' @ show_nat (nat (- i)) else show_nat (nat i))"

text \<open>Exactly \<open>k\<close> digits, with leading zeros.\<close>

fun show_padded :: "nat \<Rightarrow> nat \<Rightarrow> string" where
  "show_padded 0 n = []"
| "show_padded (Suc k) n = show_padded k (n div 10) @ [digit (n mod 10)]"

text \<open>
  \<open>%.df\<close> prints the exact value rounded to \<open>d\<close> decimals, ties to even.  \<open>round_half_even\<close> is that
  rounding of a non-negative rational.
\<close>

definition round_half_even :: "rat \<Rightarrow> nat" where
  "round_half_even q =
     (let n = nat \<lfloor>q\<rfloor>; f = q - of_int \<lfloor>q\<rfloor>
      in if f < 1 / 2 then n else if 1 / 2 < f then Suc n else if even n then n else Suc n)"

definition show_fixed :: "nat \<Rightarrow> rat \<Rightarrow> string" where
  "show_fixed d x =
     (let n = round_half_even (\<bar>x\<bar> * 10 ^ d)
      in (if x < 0 then ''-'' else '''') @ show_nat (n div 10 ^ d) @ ''.'' @ show_padded d (n mod 10 ^ d))"

text \<open>
  \<open>snprintf(buf, len, ...)\<close>: the return value is the length of the whole text, the buffer holds at
  most \<open>len - 1\<close> characters of it (and a NUL).
\<close>

definition snprintf :: "nat \<Rightarrow> string \<Rightarrow> nat \<times> string" where
  "snprintf len s = (length s, take (len - 1) s)"

section \<open>Reading them back\<close>

definition is_digit :: "char \<Rightarrow> bool" where
  "is_digit c \<longleftrightarrow> digit_val c \<noteq> None"

lemma is_digit_digit [simp]: "d < 10 \<Longrightarrow> is_digit (digit d)"
  by (simp add: is_digit_def)

fun digits_val :: "nat \<Rightarrow> string \<Rightarrow> nat" where
  "digits_val acc [] = acc"
| "digits_val acc (c # cs) = digits_val (acc * 10 + (case digit_val c of None \<Rightarrow> 0 | Some d \<Rightarrow> d)) cs"

definition read_nat :: "string \<Rightarrow> nat \<times> string" where
  "read_nat s = (digits_val 0 (takeWhile is_digit s), dropWhile is_digit s)"

definition read_int :: "string \<Rightarrow> int \<times> string" where
  "read_int s = (case s of
       c # cs \<Rightarrow> if c = CHR ''-'' then (let (n, r) = read_nat cs in (- int n, r))
                else (let (n, r) = read_nat s in (int n, r))
     | [] \<Rightarrow> (0, []))"

lemma digits_val_append: "digits_val acc (s @ t) = digits_val (digits_val acc s) t"
  by (induction s arbitrary: acc) simp_all

lemma show_nat_digits: "\<forall>c \<in> set (show_nat n). is_digit c"
proof (induction n rule: show_nat.induct)
  case (1 n)
  then show ?case by (subst show_nat.simps) auto
qed

lemma digits_val_show_nat: "digits_val 0 (show_nat n) = n"
proof (induction n rule: show_nat.induct)
  case (1 n)
  then show ?case by (subst show_nat.simps) (simp add: digits_val_append)
qed

lemma show_nat_nonempty [simp]: "show_nat n \<noteq> []"
  by (subst show_nat.simps) simp

lemma takeWhile_digits:
  assumes "\<forall>c \<in> set s. is_digit c" and "t = [] \<or> \<not> is_digit (hd t)"
  shows "takeWhile is_digit (s @ t) = s" "dropWhile is_digit (s @ t) = t"
  using assms by (cases t; simp add: takeWhile_append2 dropWhile_append2)+

lemma read_nat_show_nat:
  "t = [] \<or> \<not> is_digit (hd t) \<Longrightarrow> read_nat (show_nat n @ t) = (n, t)"
  by (simp only: read_nat_def takeWhile_digits [OF show_nat_digits] digits_val_show_nat)

lemma minus_not_digit [simp]: "\<not> is_digit CHR ''-''"
  by (simp add: is_digit_def digit_val_def)

lemma read_int_show_int:
  assumes "t = [] \<or> \<not> is_digit (hd t)"
  shows "read_int (show_int i @ t) = (i, t)"
proof (cases "i < 0")
  case True
  then show ?thesis by (simp add: show_int_def read_int_def read_nat_show_nat assms)
next
  case False
  obtain c cs where c: "show_nat (nat i) = c # cs" by (meson neq_Nil_conv show_nat_nonempty)
  then have "is_digit c" using show_nat_digits [of "nat i"] by simp
  then have "c \<noteq> CHR ''-''" by auto
  with c False read_nat_show_nat [OF assms, of "nat i"]
  show ?thesis by (simp add: show_int_def read_int_def)
qed

lemma length_show_padded [simp]: "length (show_padded k n) = k"
  by (induction k arbitrary: n) simp_all

lemma show_padded_digits: "\<forall>c \<in> set (show_padded k n). is_digit c"
  by (induction k arbitrary: n) auto

lemma digits_val_show_padded: "digits_val acc (show_padded k n) = acc * 10 ^ k + n mod 10 ^ k"
proof (induction k arbitrary: n)
  case 0
  show ?case by simp
next
  case (Suc k)
  have "n mod (10 * 10 ^ k) = 10 * (n div 10 mod 10 ^ k) + n mod 10"
    by (rule mod_mult2_eq)
  with Suc show ?case by (simp add: digits_val_append algebra_simps)
qed

lemma length_show_nat: "0 < k \<Longrightarrow> n < 10 ^ k \<Longrightarrow> length (show_nat n) \<le> k"
proof (induction k arbitrary: n)
  case 0
  then show ?case by simp
next
  case (Suc k)
  show ?case
  proof (cases "n < 10")
    case True
    then show ?thesis by (subst show_nat.simps) simp
  next
    case False
    with Suc.prems have "0 < k" by (cases k) auto
    moreover have "n div 10 < 10 ^ k" using Suc.prems by auto
    ultimately have "length (show_nat (n div 10)) \<le> k" by (rule Suc.IH)
    with False show ?thesis by (subst show_nat.simps) simp
  qed
qed

section \<open>Fixed-point numbers\<close>

text \<open>The number a reader of \<open>%.df\<close> output gets, in units of \<open>10 ^ -d\<close>, and the rest of the text.\<close>

definition fixed_units :: "nat \<Rightarrow> rat \<Rightarrow> int" where
  "fixed_units d x = (let n = int (round_half_even (\<bar>x\<bar> * 10 ^ d)) in if x < 0 then - n else n)"

definition read_fixed :: "nat \<Rightarrow> string \<Rightarrow> int \<times> string" where
  "read_fixed d s =
     (let neg = (s \<noteq> [] \<and> hd s = CHR ''-''); s1 = (if neg then tl s else s);
          (n, s2) = read_nat s1; s3 = drop 1 s2;
          m = digits_val n (take d s3)
      in ((if neg then - int m else int m), drop d s3))"

lemma read_fixed_show_fixed: "read_fixed d (show_fixed d x @ t) = (fixed_units d x, t)"
proof -
  define n where "n = round_half_even (\<bar>x\<bar> * 10 ^ d)"
  define body where "body = show_nat (n div 10 ^ d) @ ''.'' @ show_padded d (n mod 10 ^ d)"
  have dot: "\<not> is_digit CHR ''.''" by (simp add: is_digit_def digit_val_def)
  have rn: "read_nat (body @ t) = (n div 10 ^ d, ''.'' @ show_padded d (n mod 10 ^ d) @ t)"
    by (simp add: body_def read_nat_show_nat dot)
  have hd: "body @ t \<noteq> []" "hd (body @ t) \<noteq> CHR ''-''"
    using show_nat_digits [of "n div 10 ^ d"] minus_not_digit
    by (auto simp: body_def hd_append simp del: minus_not_digit) (metis hd_in_set show_nat_nonempty)
  have v: "digits_val (n div 10 ^ d) (show_padded d (n mod 10 ^ d)) = n"
    by (simp add: digits_val_show_padded div_mult_mod_eq)
  have s: "show_fixed d x = (if x < 0 then ''-'' else '''') @ body"
    by (simp add: show_fixed_def n_def body_def Let_def)
  show ?thesis
  proof (cases "x < 0")
    case True
    then show ?thesis
      unfolding s read_fixed_def fixed_units_def n_def [symmetric] Let_def by (simp add: rn v)
  next
    case False
    then show ?thesis
      unfolding s read_fixed_def fixed_units_def n_def [symmetric] Let_def using hd by (simp add: rn v)
  qed
qed

section \<open>Lengths\<close>

lemma round_half_even_le:
  assumes "0 \<le> q" and "q \<le> of_nat n"
  shows "round_half_even q \<le> n"
proof -
  define k where "k = nat \<lfloor>q\<rfloor>"
  have fl: "\<lfloor>q\<rfloor> = int k" using assms(1) by (simp add: k_def)
  have kn: "k \<le> n"
  proof -
    have "\<lfloor>q\<rfloor> \<le> int n" using assms(2) by (simp add: floor_le_iff)
    then show ?thesis using fl by simp
  qed
  show ?thesis
  proof (cases "k = n")
    case True
    then have "q - of_int \<lfloor>q\<rfloor> = 0"
      using assms(2) fl of_int_floor_le [of q] by simp
    then show ?thesis using True by (simp add: round_half_even_def Let_def k_def)
  next
    case False
    with kn have "Suc k \<le> n" by simp
    then show ?thesis by (simp add: round_half_even_def Let_def k_def [symmetric])
  qed
qed

lemma length_show_fixed:
  assumes "0 < k" and "\<bar>x\<bar> * 10 ^ d \<le> of_nat m" and "m < 10 ^ (k + d)"
  shows "length (show_fixed d x) \<le> (if x < 0 then 1 else 0) + k + 1 + d"
proof -
  define n where "n = round_half_even (\<bar>x\<bar> * 10 ^ d)"
  have "n \<le> m" unfolding n_def using assms(2) by (intro round_half_even_le) auto
  then have "n < 10 ^ k * 10 ^ d" using assms(3) by (simp add: power_add)
  then have "n div 10 ^ d < 10 ^ k" by (simp add: div_less_iff_less_mult)
  then have "length (show_nat (n div 10 ^ d)) \<le> k" using assms(1) by (intro length_show_nat)
  then show ?thesis unfolding show_fixed_def Let_def n_def [symmetric] by simp
qed

lemma length_show_int: "0 < k \<Longrightarrow> \<bar>i\<bar> < 10 ^ k \<Longrightarrow> length (show_int i) \<le> Suc k"
proof -
  assume k: "0 < k" "\<bar>i\<bar> < 10 ^ k"
  have "nat \<bar>i\<bar> < 10 ^ k" using k(2) by (simp add: nat_less_iff)
  then have "length (show_nat (nat \<bar>i\<bar>)) \<le> k" using k(1) by (intro length_show_nat)
  then show ?thesis by (auto simp: show_int_def abs_if split: if_splits)
qed

end
