(* ===== verification/Telemetry.thy ===== *)
theory Telemetry
  imports Power_Supply Formatting
begin

text \<open>
  telemetry.c: the battery curve and the JSON payload.  The curve's arithmetic is done in the C
  types (\<open>unsigned int\<close>, so 32-bit words) and shown equal to an interpolation over the natural
  numbers; the payload is shown readable field by field.
\<close>

section \<open>The battery curve\<close>

record battery_level_point =
  lvl_pptt :: u16
  lvl_mV :: u16

definition lipo_curve :: "battery_level_point list" where
  "lipo_curve =
    [\<lparr>lvl_pptt = 10000, lvl_mV = 4200\<rparr>,
     \<lparr>lvl_pptt = 9000, lvl_mV = 4050\<rparr>,
     \<lparr>lvl_pptt = 7500, lvl_mV = 3900\<rparr>,
     \<lparr>lvl_pptt = 5000, lvl_mV = 3750\<rparr>,
     \<lparr>lvl_pptt = 2500, lvl_mV = 3600\<rparr>,
     \<lparr>lvl_pptt = 1000, lvl_mV = 3450\<rparr>,
     \<lparr>lvl_pptt = 0, lvl_mV = 3200\<rparr>]"

text \<open>
  \<open>while (pb->lvl_pptt > 0 && batt_mV < pb->lvl_mV) ++pb\<close>, over the points from \<open>pb\<close> on, with
  \<open>pb - 1\<close> carried along (none at the start of the array).  \<open>None\<close>: the pointer left the array.
\<close>

fun advance :: "u32 \<Rightarrow> battery_level_point option \<Rightarrow> battery_level_point list \<Rightarrow>
    (battery_level_point option \<times> battery_level_point) option" where
  "advance batt pa [] = None"
| "advance batt pa (pb # ps) =
     (if 0 < lvl_pptt pb \<and> batt < ucast (lvl_mV pb) then advance batt (Some pb) ps
      else Some (pa, pb))"

text \<open>The interpolation expression: differences of \<open>uint16_t\<close> are \<open>int\<close>, the rest is unsigned.\<close>

definition interpolate :: "u32 \<Rightarrow> battery_level_point \<Rightarrow> battery_level_point \<Rightarrow> u32" where
  "interpolate batt pa pb =
     ucast (lvl_pptt pb) +
     (ucast (lvl_pptt pa) - ucast (lvl_pptt pb)) * (batt - ucast (lvl_mV pb)) div
       (ucast (lvl_mV pa) - ucast (lvl_mV pb))"

text \<open>\<open>None\<close> would be an access outside the array.\<close>

definition battery_level_pptt :: "u32 \<Rightarrow> u32 option" where
  "battery_level_pptt batt_mV =
     (case lipo_curve of
        [] \<Rightarrow> None
      | p # _ \<Rightarrow>
          if ucast (lvl_mV p) \<le> batt_mV then Some (ucast (lvl_pptt p))
          else (case advance batt_mV None lipo_curve of
              None \<Rightarrow> None
            | Some (pa, pb) \<Rightarrow>
                if batt_mV < ucast (lvl_mV pb) then Some (ucast (lvl_pptt pb))
                else (case pa of None \<Rightarrow> None | Some pa \<Rightarrow> Some (interpolate batt_mV pa pb))))"

text \<open>\<open>battery_level_pptt_curve\<close> below shows that \<open>the\<close> is always applied to a \<open>Some\<close>.\<close>

definition telemetry_battery_percent :: "u16 \<Rightarrow> u8" where
  "telemetry_battery_percent batt_mv = ucast (the (battery_level_pptt (ucast batt_mv)) div 100)"

section \<open>The curve over the naturals\<close>

text \<open>Linear interpolation, rounded down, between the points \<open>(v0, l0)\<close> and \<open>(v1, l1)\<close>.\<close>

definition lerp :: "nat \<Rightarrow> nat \<Rightarrow> nat \<Rightarrow> nat \<Rightarrow> nat \<Rightarrow> nat" where
  "lerp v0 l0 v1 l1 v = l0 + (l1 - l0) * (v - v0) div (v1 - v0)"

definition curve_level :: "nat \<Rightarrow> nat" where
  "curve_level v =
     (if v < 3200 then 0
      else if v < 3450 then lerp 3200 0 3450 1000 v
      else if v < 3600 then lerp 3450 1000 3600 2500 v
      else if v < 3750 then lerp 3600 2500 3750 5000 v
      else if v < 3900 then lerp 3750 5000 3900 7500 v
      else if v < 4050 then lerp 3900 7500 4050 9000 v
      else if v < 4200 then lerp 4050 9000 4200 10000 v
      else 10000)"

lemma lerp_bounds:
  assumes "v0 \<le> v" "v \<le> v1" "v0 < v1" "l0 \<le> l1"
  shows "l0 \<le> lerp v0 l0 v1 l1 v" "lerp v0 l0 v1 l1 v \<le> l1"
proof -
  show "l0 \<le> lerp v0 l0 v1 l1 v" by (simp add: lerp_def)
  have "(l1 - l0) * (v - v0) div (v1 - v0) \<le> (l1 - l0) * (v1 - v0) div (v1 - v0)"
    using assms by (intro div_le_mono mult_le_mono2) simp
  also have "\<dots> = l1 - l0" using assms by simp
  finally show "lerp v0 l0 v1 l1 v \<le> l1" using assms by (simp add: lerp_def)
qed

lemma lerp_mono: "v \<le> v' \<Longrightarrow> lerp v0 l0 v1 l1 v \<le> lerp v0 l0 v1 l1 v'"
  by (simp add: lerp_def div_le_mono diff_le_mono)

text \<open>One segment of the word arithmetic, without overflow.\<close>

lemma interpolate_nat:
  fixes b :: u32 and pa pb :: battery_level_point
  assumes "unat (lvl_mV pb) \<le> unat b" "unat b < unat (lvl_mV pa)"
    "unat (lvl_pptt pb) \<le> unat (lvl_pptt pa)" "unat (lvl_pptt pa) \<le> 10000"
  shows "unat (interpolate b pa pb) =
    lerp (unat (lvl_mV pb)) (unat (lvl_pptt pb)) (unat (lvl_mV pa)) (unat (lvl_pptt pa)) (unat b)"
proof -
  define va vb la lb where d: "va = unat (lvl_mV pa)" "vb = unat (lvl_mV pb)"
    "la = unat (lvl_pptt pa)" "lb = unat (lvl_pptt pb)"
  have u: "unat (ucast (lvl_mV pa) :: u32) = va" "unat (ucast (lvl_mV pb) :: u32) = vb"
    "unat (ucast (lvl_pptt pa) :: u32) = la" "unat (ucast (lvl_pptt pb) :: u32) = lb"
    by (simp_all add: d)
  have va: "va < 65536" unfolding d by (rule unat_u16_less)
  have e1: "unat (ucast (lvl_pptt pa) - ucast (lvl_pptt pb) :: u32) = la - lb"
    using assms by (simp add: unat_sub word_le_nat_alt u d)
  have e2: "unat (b - ucast (lvl_mV pb)) = unat b - vb"
    using assms by (simp add: unat_sub word_le_nat_alt u d)
  have e3: "unat (ucast (lvl_mV pa) - ucast (lvl_mV pb) :: u32) = va - vb"
    using assms by (simp add: unat_sub word_le_nat_alt u d)
  have m: "(la - lb) * (unat b - vb) < 2 ^ 32"
  proof -
    have "(la - lb) * (unat b - vb) \<le> 10000 * 65536"
      using assms va by (intro mult_le_mono) (auto simp: d)
    then show ?thesis by simp
  qed
  define x where "x = (ucast (lvl_pptt pa) - ucast (lvl_pptt pb) :: u32) * (b - ucast (lvl_mV pb))"
  have x: "unat x = (la - lb) * (unat b - vb)"
    using m by (simp add: x_def unat_word_ariths e1 e2)
  define y where "y = x div (ucast (lvl_mV pa) - ucast (lvl_mV pb))"
  have y: "unat y = (la - lb) * (unat b - vb) div (va - vb)"
    by (simp add: y_def unat_div x e3)
  have "lerp vb lb va la (unat b) \<le> la"
    using assms by (intro lerp_bounds) (auto simp: d)
  then have "lb + unat y \<le> 10000" using assms by (simp add: lerp_def y d)
  then have "unat (ucast (lvl_pptt pb) + y) = lb + unat y"
    by (simp add: unat_word_ariths flip: d)
  then show ?thesis by (simp add: interpolate_def x_def [symmetric] y_def [symmetric] y lerp_def d)
qed

text \<open>The code's result is the interpolation's, and it never leaves the array.\<close>

lemma battery_level_pptt_curve:
  "map_option unat (battery_level_pptt b) = Some (curve_level (unat b))"
proof -
  consider "unat b < 3200" | "3200 \<le> unat b" "unat b < 3450" | "3450 \<le> unat b" "unat b < 3600"
    | "3600 \<le> unat b" "unat b < 3750" | "3750 \<le> unat b" "unat b < 3900"
    | "3900 \<le> unat b" "unat b < 4050" | "4050 \<le> unat b" "unat b < 4200" | "4200 \<le> unat b"
    by linarith
  then show ?thesis
    by cases
      (simp_all add: battery_level_pptt_def lipo_curve_def word_less_nat_alt word_le_nat_alt
        curve_level_def interpolate_nat)
qed

lemma curve_level_le: "curve_level v \<le> 10000"
proof -
  have "lerp 3200 0 3450 1000 v \<le> 1000" if "3200 \<le> v" "v < 3450" using that by (intro lerp_bounds) auto
  moreover have "lerp 3450 1000 3600 2500 v \<le> 2500" if "3450 \<le> v" "v < 3600" using that by (intro lerp_bounds) auto
  moreover have "lerp 3600 2500 3750 5000 v \<le> 5000" if "3600 \<le> v" "v < 3750" using that by (intro lerp_bounds) auto
  moreover have "lerp 3750 5000 3900 7500 v \<le> 7500" if "3750 \<le> v" "v < 3900" using that by (intro lerp_bounds) auto
  moreover have "lerp 3900 7500 4050 9000 v \<le> 9000" if "3900 \<le> v" "v < 4050" using that by (intro lerp_bounds) auto
  moreover have "lerp 4050 9000 4200 10000 v \<le> 10000" if "4050 \<le> v" "v < 4200" using that by (intro lerp_bounds) auto
  ultimately show ?thesis unfolding curve_level_def by (auto simp: not_less intro: le_trans)
qed

text \<open>The curve is a sum of ramps, each of which is monotone.\<close>

definition ramp :: "nat \<Rightarrow> nat \<Rightarrow> nat \<Rightarrow> nat \<Rightarrow> nat" where
  "ramp v0 v1 dl v = dl * (min v v1 - v0) div (v1 - v0)"

lemma ramp_mono: "v \<le> v' \<Longrightarrow> ramp v0 v1 dl v \<le> ramp v0 v1 dl v'"
  by (simp add: ramp_def div_le_mono diff_le_mono)

lemma ramp_low: "v \<le> v0 \<Longrightarrow> ramp v0 v1 dl v = 0"
  by (simp add: ramp_def)

lemma ramp_high: "v0 < v1 \<Longrightarrow> v1 \<le> v \<Longrightarrow> ramp v0 v1 dl v = dl"
  by (simp add: ramp_def)

lemma ramp_mid: "v \<le> v1 \<Longrightarrow> ramp v0 v1 dl v = dl * (v - v0) div (v1 - v0)"
  by (simp add: ramp_def)

lemma curve_level_ramps:
  "curve_level v = ramp 3200 3450 1000 v + ramp 3450 3600 1500 v + ramp 3600 3750 2500 v +
     ramp 3750 3900 2500 v + ramp 3900 4050 1500 v + ramp 4050 4200 1000 v"
proof -
  consider "v < 3200" | "3200 \<le> v" "v < 3450" | "3450 \<le> v" "v < 3600"
    | "3600 \<le> v" "v < 3750" | "3750 \<le> v" "v < 3900"
    | "3900 \<le> v" "v < 4050" | "4050 \<le> v" "v < 4200" | "4200 \<le> v"
    by linarith
  then show ?thesis
    by cases (simp_all add: curve_level_def lerp_def ramp_low ramp_high ramp_mid)
qed

lemma curve_level_mono: "v \<le> v' \<Longrightarrow> curve_level v \<le> curve_level v'"
  unfolding curve_level_ramps by (intro add_mono ramp_mono)

text \<open>The percentage, as a number.\<close>

definition battery_percent :: "nat \<Rightarrow> nat" where
  "battery_percent mv = curve_level mv div 100"

lemma telemetry_battery_percent_curve:
  "unat (telemetry_battery_percent mv) = battery_percent (unat mv)"
proof -
  obtain l where l: "battery_level_pptt (ucast mv) = Some l" "unat l = curve_level (unat mv)"
    using battery_level_pptt_curve [of "ucast mv"] by auto
  have "unat (l div 100) \<le> 100"
    using curve_level_le [of "unat mv"] by (simp add: unat_div l)
  then have "unat (ucast (l div 100) :: u8) = unat (l div 100)"
    by (simp add: unsigned_ucast_eq take_bit_nat_eq_self)
  then show ?thesis
    by (simp add: telemetry_battery_percent_def battery_percent_def l unat_div)
qed

lemma battery_percent_le: "battery_percent mv \<le> 100"
  using curve_level_le [of mv] by (simp add: battery_percent_def)

lemma battery_percent_mono: "mv \<le> mv' \<Longrightarrow> battery_percent mv \<le> battery_percent mv'"
  by (simp add: battery_percent_def curve_level_mono div_le_mono)

section \<open>The payload\<close>

record tracker_telemetry =
  tm_longitude :: double
  tm_latitude :: double
  tm_hdop :: float32
  tm_batt_mv :: u16
  tm_charge :: tracker_charge_state
  tm_signal_dbm :: int
  tm_awake_s :: u32
  tm_wake :: tracker_wake_reason

text \<open>\<open>char wdt[16]\<close>: empty on a clean boot, otherwise the phase as \<open>%d\<close> of the enumerator.\<close>

definition wdt_text :: "u32 \<Rightarrow> string" where
  \<open>wdt_text phase =
     (if phase \<noteq> phase_val TRACKER_PHASE_NONE
      then snd (snprintf 16 (''"wdt": '' @ show_int (sint phase) @ '', ''))
      else '''')\<close>

text \<open>The text \<open>snprintf\<close> composes from the format string.\<close>

definition telemetry_json :: "config \<Rightarrow> u32 \<Rightarrow> tracker_telemetry \<Rightarrow> string" where
  \<open>telemetry_json C phase t =
     ''{"coords": ['' @ show_fixed 6 (tm_longitude t) @ '', '' @ show_fixed 6 (tm_latitude t) @
     ''], "hdop": '' @ show_fixed 2 (tm_hdop t) @
     '', "batt": '' @ show_nat (unat (telemetry_battery_percent (tm_batt_mv t))) @
     '', "volt": '' @ show_nat (unat (tm_batt_mv t)) @
     '', "charge": '' @ show_int (charge_val (tm_charge t)) @
     '', "signal": '' @ show_int (tm_signal_dbm t) @
     '', "awake": '' @ show_nat (unat (tm_awake_s t)) @
     '', "wake": "'' @ wake_reason_name (tm_wake t) @
     ''", '' @ wdt_text phase @
     ''"fw": "'' @ TRACKER_BUILD_STAMP C @ ''", "hw": "'' @ TRACKER_HW_REVISION C @ ''"}''\<close>

text \<open>The return value and what the buffer holds.\<close>

definition telemetry_build_json :: "('a watchdog_state_scheme) env \<Rightarrow> tracker_telemetry \<Rightarrow> nat \<Rightarrow>
    ('a watchdog_state_scheme, int \<times> string) state" where
  "telemetry_build_json E t len = do {
     phase \<leftarrow> watchdog_reset_phase;
     let (n, buf) = snprintf len (telemetry_json (cfg E) phase t);
     if n \<ge> len then return (- ENOMEM, buf) else return (int n, buf)
   }"

section \<open>Reading the payload\<close>

text \<open>A reader of the record, as the README describes it: \<open>wdt\<close> is optional and 0 when missing.\<close>

record payload_view =
  pv_lon :: int      \<comment> \<open>millionths of a degree\<close>
  pv_lat :: int
  pv_hdop :: int     \<comment> \<open>hundredths\<close>
  pv_batt :: nat
  pv_volt :: nat
  pv_charge :: int
  pv_signal :: int
  pv_awake :: nat
  pv_wake :: string
  pv_wdt :: int
  pv_fw :: string
  pv_hw :: string

definition expect :: "string \<Rightarrow> string \<Rightarrow> string option" where
  "expect lit s = (if take (length lit) s = lit then Some (drop (length lit) s) else None)"

definition read_text :: "string \<Rightarrow> string \<times> string" where
  "read_text s = (takeWhile (\<lambda>c. c \<noteq> CHR 0x22) s, dropWhile (\<lambda>c. c \<noteq> CHR 0x22) s)"

definition read_wdt :: "string \<Rightarrow> (int \<times> string) option" where
  \<open>read_wdt s = (case expect ''"wdt": '' s of
       None \<Rightarrow> Some (0, s)
     | Some s1 \<Rightarrow> (let (p, s2) = read_int s1 in map_option (Pair p) (expect '', '' s2)))\<close>

definition read_payload :: "string \<Rightarrow> payload_view option" where
  \<open>read_payload s0 = do {
     s \<leftarrow> expect ''{"coords": ['' s0;
     let (lon, s) = read_fixed 6 s;
     s \<leftarrow> expect '', '' s;
     let (lat, s) = read_fixed 6 s;
     s \<leftarrow> expect ''], "hdop": '' s;
     let (hdop, s) = read_fixed 2 s;
     s \<leftarrow> expect '', "batt": '' s;
     let (batt, s) = read_nat s;
     s \<leftarrow> expect '', "volt": '' s;
     let (volt, s) = read_nat s;
     s \<leftarrow> expect '', "charge": '' s;
     let (charge, s) = read_int s;
     s \<leftarrow> expect '', "signal": '' s;
     let (signal, s) = read_int s;
     s \<leftarrow> expect '', "awake": '' s;
     let (awake, s) = read_nat s;
     s \<leftarrow> expect '', "wake": "'' s;
     let (wake, s) = read_text s;
     s \<leftarrow> expect ''", '' s;
     (wdt, s) \<leftarrow> read_wdt s;
     s \<leftarrow> expect ''"fw": "'' s;
     let (fw, s) = read_text s;
     s \<leftarrow> expect ''", "hw": "'' s;
     let (hw, s) = read_text s;
     s \<leftarrow> expect ''"}'' s;
     if s \<noteq> [] then None
     else Some \<lparr>pv_lon = lon, pv_lat = lat, pv_hdop = hdop, pv_batt = batt, pv_volt = volt,
       pv_charge = charge, pv_signal = signal, pv_awake = awake, pv_wake = wake, pv_wdt = wdt,
       pv_fw = fw, pv_hw = hw\<rparr>
   }\<close>

text \<open>What the record says about the telemetry it was built from.\<close>

definition view_of :: "config \<Rightarrow> tracker_phase \<Rightarrow> tracker_telemetry \<Rightarrow> payload_view" where
  "view_of C p t = \<lparr>pv_lon = fixed_units 6 (tm_longitude t), pv_lat = fixed_units 6 (tm_latitude t),
     pv_hdop = fixed_units 2 (tm_hdop t), pv_batt = battery_percent (unat (tm_batt_mv t)),
     pv_volt = unat (tm_batt_mv t), pv_charge = charge_val (tm_charge t),
     pv_signal = tm_signal_dbm t, pv_awake = unat (tm_awake_s t),
     pv_wake = wake_reason_name (tm_wake t), pv_wdt = uint (phase_val p),
     pv_fw = TRACKER_BUILD_STAMP C, pv_hw = TRACKER_HW_REVISION C\<rparr>"

definition quote_free :: "string \<Rightarrow> bool" where
  "quote_free s \<longleftrightarrow> (\<forall>c \<in> set s. c \<noteq> CHR 0x22)"

lemma expect_append [simp]: "expect lit (lit @ t) = Some t"
  by (simp add: expect_def)

lemma read_text_quote:
  "quote_free s \<Longrightarrow> t \<noteq> [] \<Longrightarrow> hd t = CHR 0x22 \<Longrightarrow> read_text (s @ t) = (s, t)"
  by (cases t) (auto simp: read_text_def quote_free_def takeWhile_append2 dropWhile_append2)

lemma quote_free_wake [simp]: "quote_free (wake_reason_name r)"
  by (cases r) (simp_all add: quote_free_def)

lemma wdt_text_phase:
  \<open>wdt_text (phase_val p) =
    (if p = TRACKER_PHASE_NONE then '''' else ''"wdt": '' @ show_int (uint (phase_val p)) @ '', '')\<close>
  by (cases p) (simp_all add: wdt_text_def snprintf_def show_int_def show_nat.simps)

lemma read_wdt_text:
  \<open>read_wdt (wdt_text (phase_val p) @ ''"fw": "'' @ t) = Some (uint (phase_val p), ''"fw": "'' @ t)\<close>
proof (cases "p = TRACKER_PHASE_NONE")
  case True
  then show ?thesis
    using wdt_text_phase [of TRACKER_PHASE_NONE] by (simp add: read_wdt_def expect_def)
next
  case False
  have \<open>read_int (show_int (uint (phase_val p)) @ '', '' @ ''"fw": "'' @ t) =
      (uint (phase_val p), '', '' @ ''"fw": "'' @ t)\<close>
    by (rule read_int_show_int) (simp add: is_digit_def digit_val_def)
  with False show ?thesis
    by (simp add: wdt_text_phase read_wdt_def del: append_Cons)
qed

lemma read_payload_telemetry_json:
  assumes "quote_free (TRACKER_BUILD_STAMP C)" "quote_free (TRACKER_HW_REVISION C)"
  shows "read_payload (telemetry_json C (phase_val p) t) = Some (view_of C p t)"
proof -
  have d: "\<not> is_digit CHR '',''" "\<not> is_digit CHR 0x22" by (simp_all add: is_digit_def digit_val_def)
  have e: "\<And>lit. expect lit lit = Some []" using expect_append [where t="[]"] by simp
  show ?thesis
    unfolding read_payload_def telemetry_json_def view_of_def
    by (simp add: read_fixed_show_fixed read_nat_show_nat read_int_show_int read_text_quote
      read_wdt_text telemetry_battery_percent_curve d e assms
      del: append_Cons append.simps)
qed

section \<open>How long the payload gets\<close>

lemma telemetry_build_json_result:
  "result (telemetry_build_json E t len) w =
     (let s = telemetry_json (cfg E) (phase_at_reset w) t
      in if length s < len then (int (length s), s) else (- ENOMEM, take (len - 1) s))"
  by (simp add: telemetry_build_json_def watchdog_reset_phase_def snprintf_def run_simps Let_def)

lemma telemetry_build_json_exec [run_simps]: "exec (telemetry_build_json E t len) w = w"
  by (simp add: telemetry_build_json_def watchdog_reset_phase_def snprintf_def run_simps Let_def)

lemma length_wdt_text: "length (wdt_text p) \<le> 15"
  by (auto simp: wdt_text_def snprintf_def min_def)

lemma length_wake_reason_name: "length (wake_reason_name r) \<le> 6"
  by (cases r) simp_all

text \<open>The ranges the receivers, the PMIC and the modem report in.\<close>

definition plausible :: "tracker_telemetry \<Rightarrow> bool" where
  "plausible t \<longleftrightarrow> \<bar>tm_longitude t\<bar> \<le> 180 \<and> \<bar>tm_latitude t\<bar> \<le> 90 \<and>
     0 \<le> tm_hdop t \<and> tm_hdop t \<le> 999 \<and> \<bar>tm_signal_dbm t\<bar> < 1000"

lemma telemetry_json_length:
  assumes "plausible t"
  shows "length (telemetry_json C phase t) \<le>
    184 + length (TRACKER_BUILD_STAMP C) + length (TRACKER_HW_REVISION C)"
proof -
  note p = assms [unfolded plausible_def]
  have lon: "length (show_fixed 6 (tm_longitude t)) \<le> 11"
    using p length_show_fixed [of 3 "tm_longitude t" 6 180000000] by (auto split: if_splits)
  have lat: "length (show_fixed 6 (tm_latitude t)) \<le> 10"
    using p length_show_fixed [of 2 "tm_latitude t" 6 90000000] by (auto split: if_splits)
  have hdop: "length (show_fixed 2 (tm_hdop t)) \<le> 6"
    using p length_show_fixed [of 3 "tm_hdop t" 2 99900] by (auto split: if_splits)
  have batt: "length (show_nat (unat (telemetry_battery_percent (tm_batt_mv t)))) \<le> 3"
    using battery_percent_le [of "unat (tm_batt_mv t)"]
    by (intro length_show_nat) (simp_all add: telemetry_battery_percent_curve)
  have volt: "length (show_nat (unat (tm_batt_mv t))) \<le> 5"
    using unat_u16_less [of "tm_batt_mv t"] by (intro length_show_nat) simp_all
  have charge: "length (show_int (charge_val (tm_charge t))) = 1"
    by (cases "tm_charge t") (simp_all add: show_int_def show_nat.simps)
  have signal: "length (show_int (tm_signal_dbm t)) \<le> 4"
    using p length_show_int [of 3 "tm_signal_dbm t"] by simp
  have awake: "length (show_nat (unat (tm_awake_s t))) \<le> 10"
    using unat_u32_less [of "tm_awake_s t"] by (intro length_show_nat) simp_all
  show ?thesis
    using lon lat hdop batt volt charge signal awake length_wdt_text [of phase]
      length_wake_reason_name [of "tm_wake t"]
    by (simp add: telemetry_json_def)
qed


section \<open>The percentage as a function\<close>

text \<open>
  C25.  The battery percentage is the linear interpolation of the discharge curve, rounded down; the
  search never leaves the table, the result never exceeds 100 and never falls as the voltage rises.
\<close>

theorem battery_percent_is_interpolation:
  "battery_level_pptt (ucast mv) \<noteq> None \<and>
   unat (telemetry_battery_percent mv) = curve_level (unat mv) div 100 \<and>
   unat (telemetry_battery_percent mv) \<le> 100 \<and>
   unat (telemetry_battery_percent (min mv mv')) \<le> unat (telemetry_battery_percent (max mv mv'))"
proof (intro conjI)
  show "battery_level_pptt (ucast mv) \<noteq> None"
    using battery_level_pptt_curve [of "ucast mv"] by auto
  show "unat (telemetry_battery_percent mv) = curve_level (unat mv) div 100"
    by (simp add: telemetry_battery_percent_curve battery_percent_def)
  show "unat (telemetry_battery_percent mv) \<le> 100"
    by (simp add: telemetry_battery_percent_curve battery_percent_le)
  have "unat (min mv mv') \<le> unat (max mv mv')"
    by (simp add: min_def max_def word_le_nat_alt)
  then show "unat (telemetry_battery_percent (min mv mv')) \<le> unat (telemetry_battery_percent (max mv mv'))"
    by (simp add: telemetry_battery_percent_curve battery_percent_mono)
qed

end
