(* ===== verification/Motion.thy ===== *)
theory Motion
  imports Telemetry
begin

text \<open>
  motion.c: wake-on-motion.  \<open>armed\<close> says whether the sensor's trigger is set; the uptime of the last
  jolt is kept in two 32-bit atomics.  Without \<open>CONFIG_TRACKER_MOTION_WAKE\<close> the header's inline stubs
  are compiled instead, which is the \<open>else\<close> branch of each operation here.
\<close>

section \<open>State and operations\<close>

record motion_state = power_state +
  usable :: bool
  armed :: bool
  last_event_ms_hi :: u32
  last_event_ms_lo :: u32

text \<open>CTRL2 of the LIS2DH: the high-pass filter on the any-motion generator and its cutoff.\<close>

definition LIS2DH_CTRL2_HPIS2 :: u32 where "LIS2DH_CTRL2_HPIS2 = BIT 1"

definition LIS2DH_CTRL2_VALUE :: "config \<Rightarrow> u32" where
  "LIS2DH_CTRL2_VALUE C =
     (LIS2DH_CTRL2_HPIS2 OR push_bit 4 (word_of_nat (TRACKER_MOTION_HP_CUTOFF C)))"

definition motion_handler :: "('a motion_state_scheme) env \<Rightarrow> ('a motion_state_scheme, unit) state" where
  "motion_handler E = do {
     now \<leftarrow> k_uptime_get E;
     let hi = to_u32 (drop_bit 32 now);
     let lo = to_u32 (now AND 0xffffffff);
     atomic_set E Last_event_ms_hi (uint hi) (last_event_ms_hi_update (\<lambda>_. hi));
     atomic_set E Last_event_ms_lo (uint lo) (last_event_ms_lo_update (\<lambda>_. lo));
     wake_signal E TRACKER_WAKE_MOTION
   }"

definition set_attr :: "('a motion_state_scheme) env \<Rightarrow> sensor_attribute \<Rightarrow> int \<Rightarrow> int \<Rightarrow>
    ('a motion_state_scheme, int) state" where
  "set_attr E attr v1 v2 = api_rc E (Board (Sensor_attr_set attr v1 v2))"

text \<open>The threshold in micro-m/s2: milli-g times 980665 / 100.\<close>

definition threshold_ums2 :: "config \<Rightarrow> int" where
  "threshold_ums2 C = c_div (int (TRACKER_MOTION_THRESHOLD_MG C) * 980665) 100"

text \<open>Without \<open>TRACKER_MOTION_WAKE\<close> the inline functions of motion.h take the place of the module's.\<close>

abbreviation (input) motion_init_stub :: "('w, int) state" where
  "motion_init_stub \<equiv> return 0"

abbreviation (input) motion_set_armed_stub :: "bool \<Rightarrow> ('w, unit) state" where
  "motion_set_armed_stub arm \<equiv> skip"

abbreviation (input) motion_last_event_uptime_stub :: "('w, int) state" where
  "motion_last_event_uptime_stub \<equiv> return 0"

definition motion_init :: "('a motion_state_scheme) env \<Rightarrow> ('a motion_state_scheme, int) state" where
  "motion_init E =
    (if \<not> TRACKER_MOTION_WAKE (cfg E) then motion_init_stub
     else do {
       ready \<leftarrow> api_flag E (Kern (Device_is_ready Dev_accel));
       if \<not> ready then return (- ENODEV)
       else do {
         g \<leftarrow> api E (Board (Sensor_g_to_ms2 2));
         e1 \<leftarrow> set_attr E SENSOR_ATTR_FULL_SCALE (val1 g) (val2 g);
         if e1 \<noteq> 0 then return (- EIO)
         else do {
           e2 \<leftarrow> set_attr E SENSOR_ATTR_SAMPLING_FREQUENCY (int (TRACKER_MOTION_ODR_HZ (cfg E))) 0;
           if e2 \<noteq> 0 then return (- EIO)
           else do {
             e3 \<leftarrow> set_attr E SENSOR_ATTR_CONFIGURATION (uint (LIS2DH_CTRL2_VALUE (cfg E))) 0;
             if e3 \<noteq> 0 then return (- EIO)
             else do {
               let ums2 = threshold_ums2 (cfg E);
               e4 \<leftarrow> set_attr E SENSOR_ATTR_SLOPE_TH (c_div ums2 1000000) (c_rem ums2 1000000);
               if e4 \<noteq> 0 then return (- EIO)
               else do {
                 e5 \<leftarrow> set_attr E SENSOR_ATTR_SLOPE_DUR (int (TRACKER_MOTION_DURATION_SAMPLES (cfg E))) 0;
                 if e5 \<noteq> 0 then return (- EIO)
                 else do {
                   modify (\<lambda>w. w\<lparr>usable := True\<rparr>);
                   return 0
                 }
               }
             }
           }
         }
       }
     })"

definition motion_set_armed ::
  "('a motion_state_scheme) env \<Rightarrow> bool \<Rightarrow> ('a motion_state_scheme, unit) state" where
  "motion_set_armed E arm =
    (if \<not> TRACKER_MOTION_WAKE (cfg E) then motion_set_armed_stub arm
     else do {
       u \<leftarrow> gets usable;
       a \<leftarrow> gets armed;
       if \<not> u \<or> arm = a then skip
       else do {
         err \<leftarrow> api_rc E (Board (Sensor_trigger_set arm));
         if err \<noteq> 0 then skip
         else modify (\<lambda>w. w\<lparr>armed := arm\<rparr>)
       }
     })"

definition motion_last_event_uptime ::
  "('a motion_state_scheme) env \<Rightarrow> ('a motion_state_scheme, int) state" where
  "motion_last_event_uptime E =
    (if \<not> TRACKER_MOTION_WAKE (cfg E) then motion_last_event_uptime_stub
     else do {
       lo \<leftarrow> atomic_get E Last_event_ms_lo last_event_ms_lo;
       hi \<leftarrow> atomic_get E Last_event_ms_hi last_event_ms_hi;
       return (push_bit 32 (uint hi) OR uint lo)
     })"

section \<open>The time of the last jolt\<close>

text \<open>What the two halves stand for.\<close>

definition event_time :: "u32 \<Rightarrow> u32 \<Rightarrow> int" where
  "event_time hi lo = uint hi * 2 ^ 32 + uint lo"

lemma join_halves: "push_bit 32 (uint (hi :: u32)) OR uint (lo :: u32) = event_time hi lo"
proof -
  have "push_bit 32 (uint hi) AND uint lo = 0"
  proof (rule bit_eqI)
    fix n
    show "bit (push_bit 32 (uint hi) AND uint lo) n \<longleftrightarrow> bit 0 n"
      using bit_imp_le_length [of lo n] by (auto simp: bit_simps)
  qed
  then have "push_bit 32 (uint hi) OR uint lo = push_bit 32 (uint hi) + uint lo"
    by (simp add: disjunctive_add_eq_or)
  then show ?thesis by (simp add: event_time_def push_bit_eq_mult)
qed

lemma split_halves:
  assumes "0 \<le> t" "t < 2 ^ 64"
  shows "event_time (to_u32 (drop_bit 32 t)) (to_u32 (t AND 0xffffffff)) = t"
proof -
  have "t AND 0xffffffff = t mod 2 ^ 32"
    using take_bit_eq_mask [of 32 t] by (simp add: mask_eq_exp_minus_1 take_bit_eq_mod)
  moreover have "t div 2 ^ 32 < 2 ^ 32"
    using assms int_div_less_iff [of "2 ^ 32" t "2 ^ 32"] by simp
  ultimately show ?thesis
    using assms by (simp add: event_time_def drop_bit_eq_div uint_to_u32 div_mult_mod_eq)
qed

section \<open>Arming\<close>

text \<open>The trigger's state as the sensor knows it: the last successful \<open>sensor_trigger_set\<close>.\<close>

fun trigger_set :: "event list \<Rightarrow> bool" where
  "trigger_set [] = False"
| "trigger_set (e # h) =
     (if rc (ev_resp e) = 0 \<and> ev_call e = Board (Sensor_trigger_set True) then True
      else if rc (ev_resp e) = 0 \<and> ev_call e = Board (Sensor_trigger_set False) then False
      else trigger_set h)"

definition armed_current :: "'a motion_state_scheme \<Rightarrow> bool" where
  "armed_current w \<longleftrightarrow> armed w = trigger_set (hist w)"

text \<open>
  The interface main.c relies on: handlers neither arm nor disarm, and never mark the sensor usable.
\<close>

locale motion_runtime = power_runtime E for E :: "('a motion_state_scheme) env" +
  assumes intr_motion: "armed (intr E c w) = armed w" "usable (intr E c w) = usable w"
    and intr_trigger: "trigger_set (hist (intr E c w)) = trigger_set (hist w)"
begin

lemmas [simp] = intr_motion intr_trigger

lemma api_motion [simp]:
  "armed (exec (api E c) w) = armed w"
  "usable (exec (api E c) w) = usable w"
  by (simp_all add: api_simps)

lemma motion_set_armed_armed_current: "keeps armed_current (motion_set_armed E arm)"
proof -
  have "armed_current w \<Longrightarrow> armed_current (exec (motion_set_armed E arm) w)" for w
    by (cases arm) (auto simp: motion_set_armed_def armed_current_def run_simps hist_api)
  then show ?thesis by (simp add: keeps_def)
qed

text \<open>Only a change touches the sensor.\<close>

lemma motion_set_armed_idle:
  "armed w = arm \<Longrightarrow> exec (motion_set_armed E arm) w = w"
  by (simp add: motion_set_armed_def run_simps)

lemma motion_set_armed_issues [issues_rules]:
  "A (Board (Sensor_trigger_set arm)) \<Longrightarrow> issues A (motion_set_armed E arm)"
  unfolding motion_set_armed_def by (intro issues_rules) auto

lemma motion_last_event_uptime_issues [issues_rules]:
  "(\<And>v. A (Kern (Atomic_get v))) \<Longrightarrow> issues A (motion_last_event_uptime E)"
  unfolding motion_last_event_uptime_def atomic_get_def by (intro issues_rules) auto

lemma motion_init_issues [issues_rules]:
  "(\<And>d. A (Kern (Device_is_ready d))) \<Longrightarrow> (\<And>g. A (Board (Sensor_g_to_ms2 g))) \<Longrightarrow>
   (\<And>a x y. A (Board (Sensor_attr_set a x y))) \<Longrightarrow> issues A (motion_init E)"
  unfolding motion_init_def set_attr_def by (intro issues_rules) auto

text \<open>Initialisation succeeds exactly when every attribute was accepted, and leaves it disarmed.\<close>

lemma motion_init_usable:
  assumes "TRACKER_MOTION_WAKE (cfg E)" "\<not> usable w"
  shows "result (motion_init E) w = 0 \<longleftrightarrow> usable (exec (motion_init E) w)"
    and "armed (exec (motion_init E) w) = armed w"
  using assms by (auto simp: motion_init_def set_attr_def run_simps Let_def ENODEV_def EIO_def)

end

context power_runtime begin

lemma k_uptime_get_issues [issues_rules]:
  "in_isr E \<or> A (Kern K_uptime_get) \<Longrightarrow> issues A (k_uptime_get E)"
  unfolding k_uptime_get_def by (intro issues_rules)

end

interpretation isr_motion: motion_runtime "isr_env E" for E
  by unfold_locales simp_all

lemma motion_handler_issues: "issues A (motion_handler (isr_env E))"
  unfolding motion_handler_def atomic_set_def
  by (intro issues_rules) simp_all

end
