(* ===== verification/Status_Led.thy ===== *)
theory Status_Led
  imports Motion
begin

text \<open>
  status_led.c: the RGB LED.  The colour is \<open>current_status\<close>, its modulation \<open>current_pattern\<close>,
  \<open>blinking\<close> says whether the blink work is wanted and \<open>lit\<close> which phase it is in.  What the two
  channels are told is read off the history.  Without \<open>CONFIG_TRACKER_STATUS_LED\<close> the header's inline
  stubs are compiled, the \<open>else\<close> branches here.
\<close>

section \<open>State and operations\<close>

datatype tracker_status =
    TRACKER_STATUS_OFF | TRACKER_STATUS_NO_LTE | TRACKER_STATUS_LTE_NO_FIX | TRACKER_STATUS_LTE_FIX

datatype tracker_led_pattern = TRACKER_LED_SOLID | TRACKER_LED_CHARGING | TRACKER_LED_BATTERY

record led_state = motion_state +
  available :: bool
  current_status :: tracker_status
  current_pattern :: tracker_led_pattern
  blinking :: bool
  lit :: bool

definition LED_RED :: "config \<Rightarrow> nat" where "LED_RED C = TRACKER_STATUS_LED_RED_INDEX C"
definition LED_GREEN :: "config \<Rightarrow> nat" where "LED_GREEN C = TRACKER_STATUS_LED_GREEN_INDEX C"
definition LED_BLUE :: "config \<Rightarrow> nat" where "LED_BLUE C = TRACKER_STATUS_LED_BLUE_INDEX C"

definition phase_delay :: "config \<Rightarrow> tracker_led_pattern \<Rightarrow> bool \<Rightarrow> k_timeout" where
  "phase_delay C pattern now_lit =
     (case pattern of
        TRACKER_LED_CHARGING \<Rightarrow> K_MSEC (TRACKER_STATUS_LED_BLINK_MS C)
      | TRACKER_LED_BATTERY \<Rightarrow>
          (if now_lit then K_MSEC (TRACKER_STATUS_LED_FLASH_ON_MS C)
           else K_MSEC (TRACKER_STATUS_LED_FLASH_OFF_MS C))
      | TRACKER_LED_SOLID \<Rightarrow> K_FOREVER)"

definition set_channel :: "('a led_state_scheme) env \<Rightarrow> nat \<Rightarrow> bool \<Rightarrow> ('a led_state_scheme, unit) state" where
  "set_channel E channel on =
     (if on then api_do E (Board (Led_on channel)) else api_do E (Board (Led_off channel)))"

definition red_status :: "tracker_status \<Rightarrow> bool" where
  "red_status s \<longleftrightarrow> s = TRACKER_STATUS_NO_LTE \<or> s = TRACKER_STATUS_LTE_NO_FIX"

definition green_status :: "tracker_status \<Rightarrow> bool" where
  "green_status s \<longleftrightarrow> s = TRACKER_STATUS_LTE_FIX \<or> s = TRACKER_STATUS_LTE_NO_FIX"

definition apply_led :: "('a led_state_scheme) env \<Rightarrow> bool \<Rightarrow> ('a led_state_scheme, unit) state" where
  "apply_led E on = do {
     modify (\<lambda>w. w\<lparr>lit := on\<rparr>);
     red \<leftarrow> gets (\<lambda>w. on \<and> red_status (current_status w));
     green \<leftarrow> gets (\<lambda>w. on \<and> green_status (current_status w));
     set_channel E (LED_RED (cfg E)) red;
     set_channel E (LED_GREEN (cfg E)) green
   }"

definition reschedule_blink :: "('a led_state_scheme) env \<Rightarrow> bool \<Rightarrow> ('a led_state_scheme, unit) state" where
  "reschedule_blink E now_lit = do {
     p \<leftarrow> gets current_pattern;
     api_do E (Kern (K_work_reschedule (phase_delay (cfg E) p now_lit)))
   }"

definition blink_work_handler :: "('a led_state_scheme) env \<Rightarrow> ('a led_state_scheme, unit) state" where
  "blink_work_handler E = do {
     l \<leftarrow> gets lit;
     apply_led E (\<not> l);
     l' \<leftarrow> gets lit;
     reschedule_blink E l'
   }"

definition stop_blink :: "('a led_state_scheme) env \<Rightarrow> ('a led_state_scheme, unit) state" where
  "stop_blink E = do {
     modify (\<lambda>w. w\<lparr>blinking := False\<rparr>);
     api_do E (Kern K_work_cancel_delayable_sync)
   }"

text \<open>Without \<open>TRACKER_STATUS_LED\<close> the inline functions of status_led.h take the place of the module's.\<close>

abbreviation (input) status_led_init_stub :: "('w, int) state" where
  "status_led_init_stub \<equiv> return 0"

abbreviation (input) status_led_set_stub :: "tracker_status \<Rightarrow> ('w, unit) state" where
  "status_led_set_stub status \<equiv> skip"

abbreviation (input) status_led_pattern_stub :: "tracker_led_pattern \<Rightarrow> ('w, unit) state" where
  "status_led_pattern_stub pattern \<equiv> skip"

abbreviation (input) status_led_sleep_stub :: "('w, unit) state" where
  "status_led_sleep_stub \<equiv> skip"

definition status_led_set ::
  "('a led_state_scheme) env \<Rightarrow> tracker_status \<Rightarrow> ('a led_state_scheme, unit) state" where
  "status_led_set E status =
    (if \<not> TRACKER_STATUS_LED (cfg E) then status_led_set_stub status
     else do {
       av \<leftarrow> gets available;
       if \<not> av then skip
       else do {
         modify (\<lambda>w. w\<lparr>current_status := status\<rparr>);
         when_do (status = TRACKER_STATUS_OFF) (stop_blink E);
         apply_led E True;
         b \<leftarrow> gets blinking;
         when_do b (reschedule_blink E True)
       }
     })"

definition status_led_init :: "('a led_state_scheme) env \<Rightarrow> ('a led_state_scheme, int) state" where
  "status_led_init E =
    (if \<not> TRACKER_STATUS_LED (cfg E) then status_led_init_stub
     else do {
       ready \<leftarrow> api_flag E (Kern (Device_is_ready Dev_leds));
       if \<not> ready then return (- ENODEV)
       else do {
         modify (\<lambda>w. w\<lparr>available := True\<rparr>);
         set_channel E (LED_BLUE (cfg E)) False;
         status_led_set E TRACKER_STATUS_OFF;
         return 0
       }
     })"

definition status_led_pattern ::
  "('a led_state_scheme) env \<Rightarrow> tracker_led_pattern \<Rightarrow> ('a led_state_scheme, unit) state" where
  "status_led_pattern E pattern =
    (if \<not> TRACKER_STATUS_LED (cfg E) then status_led_pattern_stub pattern
     else do {
       av \<leftarrow> gets available;
       if \<not> av then skip
       else do {
         let want_blink = (pattern \<noteq> TRACKER_LED_SOLID);
         cp \<leftarrow> gets current_pattern;
         b \<leftarrow> gets blinking;
         if pattern = cp \<and> want_blink = b then skip
         else do {
           modify (\<lambda>w. w\<lparr>current_pattern := pattern\<rparr>);
           if pattern = TRACKER_LED_SOLID then do {
             stop_blink E;
             apply_led E True
           } else do {
             modify (\<lambda>w. w\<lparr>blinking := True\<rparr>);
             apply_led E True;
             reschedule_blink E True
           }
         }
       }
     })"

definition status_led_sleep :: "('a led_state_scheme) env \<Rightarrow> ('a led_state_scheme, unit) state" where
  "status_led_sleep E =
    (if \<not> TRACKER_STATUS_LED (cfg E) then status_led_sleep_stub
     else when_do (\<not> TRACKER_STATUS_LED_ON_BATTERY (cfg E)) (status_led_set E TRACKER_STATUS_OFF))"

section \<open>What the LED shows\<close>

text \<open>
  The channel's last command, and whether the blink work was last scheduled to run or not
  (a delay of \<open>K_FOREVER\<close> never elapses).
\<close>

fun channel_on :: "nat \<Rightarrow> event list \<Rightarrow> bool" where
  "channel_on ch [] = False"
| "channel_on ch (e # h) =
     (if ev_call e = Board (Led_on ch) then True
      else if ev_call e = Board (Led_off ch) then False
      else channel_on ch h)"

fun work_pending :: "event list \<Rightarrow> bool" where
  "work_pending [] = False"
| "work_pending (e # h) =
     (case ev_call e of
        Kern (K_work_reschedule (K_MSEC _)) \<Rightarrow> True
      | Kern (K_work_reschedule K_FOREVER) \<Rightarrow> False
      | Kern K_work_cancel_delayable_sync \<Rightarrow> False
      | _ \<Rightarrow> work_pending h)"

text \<open>The two colour channels agree with the status and the phase.\<close>

definition shows_status :: "config \<Rightarrow> 'a led_state_scheme \<Rightarrow> bool" where
  "shows_status C w \<longleftrightarrow>
     channel_on (LED_RED C) (hist w) = (lit w \<and> red_status (current_status w)) \<and>
     channel_on (LED_GREEN C) (hist w) = (lit w \<and> green_status (current_status w))"

text \<open>The blink work is queued exactly while blinking is wanted, which a solid light never does.\<close>

definition blink_queued :: "'a led_state_scheme \<Rightarrow> bool" where
  "blink_queued w \<longleftrightarrow> work_pending (hist w) = blinking w \<and>
     (blinking w \<longrightarrow> current_pattern w \<noteq> TRACKER_LED_SOLID)"

definition led_consistent :: "config \<Rightarrow> 'a led_state_scheme \<Rightarrow> bool" where
  "led_consistent C w \<longleftrightarrow> shows_status C w \<and> blink_queued w"

lemmas led_defs = led_consistent_def shows_status_def blink_queued_def

definition distinct_channels :: "config \<Rightarrow> bool" where
  "distinct_channels C \<longleftrightarrow> LED_RED C \<noteq> LED_GREEN C \<and> LED_RED C \<noteq> LED_BLUE C \<and> LED_GREEN C \<noteq> LED_BLUE C"

text \<open>The calls of the LED's operations.\<close>

definition led_call :: "call \<Rightarrow> bool" where
  "led_call c \<longleftrightarrow> (\<exists>ch. c = Board (Led_on ch) \<or> c = Board (Led_off ch)) \<or>
     (\<exists>d. c = Kern (K_work_reschedule d)) \<or> c = Kern K_work_cancel_delayable_sync"

text \<open>
  The interface: handlers may toggle the blink phase, but leave the status, the pattern and the
  decision to blink to the main thread.
\<close>

locale led_runtime = motion_runtime E for E :: "('a led_state_scheme) env" +
  assumes intr_led: "available (intr E c w) = available w"
      "current_status (intr E c w) = current_status w"
      "current_pattern (intr E c w) = current_pattern w"
      "blinking (intr E c w) = blinking w"
begin

lemma api_led [simp]:
  "available (exec (api E c) w) = available w"
  "current_status (exec (api E c) w) = current_status w"
  "current_pattern (exec (api E c) w) = current_pattern w"
  "blinking (exec (api E c) w) = blinking w"
  by (simp_all add: api_simps intr_led)

lemma set_channel_issues [issues_rules]:
  "in_isr E \<or> A (Board (Led_on ch)) \<and> A (Board (Led_off ch)) \<Longrightarrow> issues A (set_channel E ch on)"
  unfolding set_channel_def by (intro issues_rules) auto

lemma apply_led_issues [issues_rules]:
  "in_isr E \<or> (\<forall>ch. A (Board (Led_on ch)) \<and> A (Board (Led_off ch))) \<Longrightarrow> issues A (apply_led E on)"
  unfolding apply_led_def by (intro issues_rules) auto

lemma reschedule_blink_issues [issues_rules]:
  "in_isr E \<or> (\<forall>d. A (Kern (K_work_reschedule d))) \<Longrightarrow> issues A (reschedule_blink E l)"
  unfolding reschedule_blink_def by (intro issues_rules) auto

lemma stop_blink_issues [issues_rules]:
  "in_isr E \<or> A (Kern K_work_cancel_delayable_sync) \<Longrightarrow> issues A (stop_blink E)"
  unfolding stop_blink_def by (intro issues_rules) auto

lemma status_led_set_issues [issues_rules]:
  "(\<And>c. led_call c \<Longrightarrow> A c) \<Longrightarrow> issues A (status_led_set E s)"
  unfolding status_led_set_def by (intro issues_rules) (auto simp: led_call_def)

lemma status_led_init_issues [issues_rules]:
  "(\<And>c. led_call c \<Longrightarrow> A c) \<Longrightarrow> (\<And>d. A (Kern (Device_is_ready d))) \<Longrightarrow> issues A (status_led_init E)"
  unfolding status_led_init_def by (intro issues_rules) (auto simp: led_call_def)

lemma status_led_pattern_issues [issues_rules]:
  "(\<And>c. led_call c \<Longrightarrow> A c) \<Longrightarrow> issues A (status_led_pattern E p)"
  unfolding status_led_pattern_def Let_def by (intro issues_rules) (auto simp: led_call_def)

lemma status_led_sleep_issues [issues_rules]:
  "(\<And>c. led_call c \<Longrightarrow> A c) \<Longrightarrow> issues A (status_led_sleep E)"
  unfolding status_led_sleep_def by (intro issues_rules) auto

end

interpretation isr_led: led_runtime "isr_env E" for E
  by unfold_locales simp_all

lemma blink_work_handler_issues: "issues A (blink_work_handler (isr_env E))"
  unfolding blink_work_handler_def by (intro issues_rules) simp_all

section \<open>Undisturbed, every operation keeps the LED consistent\<close>

text \<open>\<open>quiet E\<close>: no handler runs.  The handlers' own environment is quiet.\<close>

definition quiet :: "'w env \<Rightarrow> bool" where
  "quiet E \<longleftrightarrow> (\<forall>c w. intr E c w = w)"

lemma quiet_isr [simp]: "quiet (isr_env E)"
  by (simp add: quiet_def)

lemma exec_api_quiet:
  "quiet E \<Longrightarrow> exec (api E c) w = w\<lparr>hist := Ev (in_isr E) c (reply E (hist w) c) # hist w\<rparr>"
  by (simp add: api_simps quiet_def)

lemma exec_set_channel:
  "quiet E \<Longrightarrow> \<exists>r. exec (set_channel E ch on) w =
     w\<lparr>hist := Ev (in_isr E) (Board (if on then Led_on ch else Led_off ch)) r # hist w\<rparr>"
  by (auto simp: set_channel_def run_simps exec_api_quiet)

lemma exec_apply_led:
  assumes "quiet E"
  shows "\<exists>r g. exec (apply_led E on) w = w\<lparr>lit := on, hist :=
     Ev (in_isr E) (Board (if on \<and> green_status (current_status w) then Led_on (LED_GREEN (cfg E))
       else Led_off (LED_GREEN (cfg E)))) g #
     Ev (in_isr E) (Board (if on \<and> red_status (current_status w) then Led_on (LED_RED (cfg E))
       else Led_off (LED_RED (cfg E)))) r # hist w\<rparr>"
proof -
  let ?w = "w\<lparr>lit := on\<rparr>"
  obtain r where r: "exec (set_channel E (LED_RED (cfg E)) (on \<and> red_status (current_status w))) ?w =
     ?w\<lparr>hist := Ev (in_isr E) (Board (if on \<and> red_status (current_status w)
       then Led_on (LED_RED (cfg E)) else Led_off (LED_RED (cfg E)))) r # hist ?w\<rparr>"
    using exec_set_channel [OF assms] by blast
  let ?v = "?w\<lparr>hist := Ev (in_isr E) (Board (if on \<and> red_status (current_status w)
       then Led_on (LED_RED (cfg E)) else Led_off (LED_RED (cfg E)))) r # hist ?w\<rparr>"
  obtain g where "exec (set_channel E (LED_GREEN (cfg E)) (on \<and> green_status (current_status w))) ?v =
     ?v\<lparr>hist := Ev (in_isr E) (Board (if on \<and> green_status (current_status w)
       then Led_on (LED_GREEN (cfg E)) else Led_off (LED_GREEN (cfg E)))) g # hist ?v\<rparr>"
    using exec_set_channel [OF assms] by blast
  with r show ?thesis by (simp add: apply_led_def run_simps) blast
qed

lemma apply_led_shows:
  assumes "quiet E" "distinct_channels (cfg E)"
  shows "shows_status (cfg E) (exec (apply_led E on) w)"
    and "lit (exec (apply_led E on) w) = on"
    and "work_pending (hist (exec (apply_led E on) w)) = work_pending (hist w)"
    and "blinking (exec (apply_led E on) w) = blinking w"
    and "current_pattern (exec (apply_led E on) w) = current_pattern w"
    and "current_status (exec (apply_led E on) w) = current_status w"
  using exec_apply_led [OF assms(1), of on w] assms(2)
  by (auto simp: shows_status_def distinct_channels_def split: if_splits)

text \<open>A call that commands no channel and no work leaves what the LED shows as it is.\<close>

lemma shows_status_other:
  "\<forall>ch. ev_call e \<noteq> Board (Led_on ch) \<and> ev_call e \<noteq> Board (Led_off ch) \<Longrightarrow>
   shows_status C (w\<lparr>hist := e # hist w\<rparr>) = shows_status C w"
  by (simp add: shows_status_def)

lemma exec_reschedule_blink:
  assumes "quiet E" "current_pattern w \<noteq> TRACKER_LED_SOLID"
  shows "shows_status C (exec (reschedule_blink E l) w) = shows_status C w"
    and "work_pending (hist (exec (reschedule_blink E l) w))"
    and "blinking (exec (reschedule_blink E l) w) = blinking w"
    and "current_pattern (exec (reschedule_blink E l) w) = current_pattern w"
    and "current_status (exec (reschedule_blink E l) w) = current_status w"
    and "lit (exec (reschedule_blink E l) w) = lit w"
  using assms
  by (auto simp: reschedule_blink_def run_simps exec_api_quiet shows_status_other phase_delay_def
      split: tracker_led_pattern.splits)

lemma exec_stop_blink:
  assumes "quiet E"
  shows "shows_status C (exec (stop_blink E) w) = shows_status C w"
    and "\<not> work_pending (hist (exec (stop_blink E) w))"
    and "\<not> blinking (exec (stop_blink E) w)"
    and "current_pattern (exec (stop_blink E) w) = current_pattern w"
    and "current_status (exec (stop_blink E) w) = current_status w"
  using assms by (auto simp: stop_blink_def run_simps exec_api_quiet shows_status_other)
    (simp_all add: shows_status_def)

lemmas led_steps = apply_led_shows exec_reschedule_blink exec_stop_blink

lemma status_led_set_available:
  assumes "quiet E" "distinct_channels (cfg E)" "TRACKER_STATUS_LED (cfg E)" "available w" "blink_queued w"
  shows "led_consistent (cfg E) (exec (status_led_set E s) w)"
    and "current_status (exec (status_led_set E s) w) = s"
    and "lit (exec (status_led_set E s) w)"
    and "blinking (exec (status_led_set E s) w) = (blinking w \<and> s \<noteq> TRACKER_STATUS_OFF)"
  using assms led_steps [OF assms(1)]
  by (auto simp: status_led_set_def run_simps led_consistent_def blink_queued_def Let_def)

lemma status_led_set_consistent:
  "quiet E \<Longrightarrow> distinct_channels (cfg E) \<Longrightarrow> led_consistent (cfg E) w \<Longrightarrow>
   led_consistent (cfg E) (exec (status_led_set E s) w)"
  using status_led_set_available(1) [of E w s]
  by (cases "TRACKER_STATUS_LED (cfg E) \<and> available w")
     (auto simp: led_consistent_def, auto simp: status_led_set_def run_simps)

lemma status_led_pattern_available:
  assumes "quiet E" "distinct_channels (cfg E)" "TRACKER_STATUS_LED (cfg E)" "available w"
    "led_consistent (cfg E) w"
  shows "led_consistent (cfg E) (exec (status_led_pattern E p) w)"
    and "current_pattern (exec (status_led_pattern E p) w) = p"
    and "blinking (exec (status_led_pattern E p) w) = (p \<noteq> TRACKER_LED_SOLID)"
    and "current_status (exec (status_led_pattern E p) w) = current_status w"
  using assms led_steps [OF assms(1)]
  by (auto simp: status_led_pattern_def run_simps led_consistent_def blink_queued_def Let_def)

lemma status_led_pattern_consistent:
  "quiet E \<Longrightarrow> distinct_channels (cfg E) \<Longrightarrow> led_consistent (cfg E) w \<Longrightarrow>
   led_consistent (cfg E) (exec (status_led_pattern E p) w)"
  using status_led_pattern_available(1) [of E w p]
  by (cases "TRACKER_STATUS_LED (cfg E) \<and> available w")
     (auto, auto simp: status_led_pattern_def run_simps)

lemma status_led_sleep_consistent:
  "quiet E \<Longrightarrow> distinct_channels (cfg E) \<Longrightarrow> led_consistent (cfg E) w \<Longrightarrow>
   led_consistent (cfg E) (exec (status_led_sleep E) w)"
  by (simp add: status_led_sleep_def run_simps status_led_set_consistent)

text \<open>The blink work runs while it is wanted; it toggles the phase and queues itself again.\<close>

lemma blink_work_handler_consistent:
  assumes "distinct_channels (cfg E)" "blink_queued w" "blinking w"
  shows "led_consistent (cfg E) (exec (blink_work_handler (isr_env E)) w)"
    and "lit (exec (blink_work_handler (isr_env E)) w) = (\<not> lit w)"
  using assms led_steps [OF quiet_isr [of E]]
  by (auto simp: blink_work_handler_def run_simps led_consistent_def blink_queued_def)

end
