(* ===== verification/Fix.thy ===== *)
theory Fix
  imports Status_Led
begin

text \<open>fix.h: a position fix, whichever receiver produced it.\<close>

datatype tracker_fix_source = TRACKER_FIX_SOURCE_MODEM | TRACKER_FIX_SOURCE_EXTERNAL

record tracker_fix =
  latitude :: double
  longitude :: double
  altitude :: float32
  accuracy :: float32
  speed :: float32
  heading :: float32
  hdop :: float32
  satellites :: u16
  source :: tracker_fix_source

definition tracker_fix_source_name :: "tracker_fix_source \<Rightarrow> string" where
  "tracker_fix_source_name s =
     (if s = TRACKER_FIX_SOURCE_EXTERNAL then ''external'' else ''modem'')"

lemma tracker_fix_source_name_inj:
  "tracker_fix_source_name a = tracker_fix_source_name b \<longleftrightarrow> a = b"
  by (cases a; cases b) (simp_all add: tracker_fix_source_name_def)

section \<open>What a receiver promises\<close>

text \<open>
  The contract of gnss_modem.h and gnss_ext.h for waiting: a fix names its receiver, and it was
  signalled by a handler while the wait was going on.
\<close>

locale receiver =
  fixes E :: "('a platform_scheme) env"
    and wait_fix :: "nat \<Rightarrow> ('a platform_scheme, int + tracker_fix) state"
    and src :: tracker_fix_source
    and fix_event :: "event \<Rightarrow> bool"
  assumes wait_source: "sem_sound (reply E) \<Longrightarrow> result (wait_fix t) w = Inr f \<Longrightarrow> source f = src"
    and wait_timeout: "result (wait_fix t) w = Inl err \<Longrightarrow> err = - EAGAIN"
    and wait_fresh: "sem_sound (reply E) \<Longrightarrow> result (wait_fix t) w = Inr f \<Longrightarrow>
      \<exists>es. hist (exec (wait_fix t) w) = es @ hist w \<and> (\<exists>e \<in> set es. ev_isr e \<and> fix_event e)"
begin

text \<open>Two waits, whatever happens in between, never return on the same report.\<close>

lemma wait_again_fresh:
  assumes "sem_sound (reply E)" "result (wait_fix t) w = Inr f"
    "hist v = es @ hist (exec (wait_fix t) w)" "result (wait_fix t') v = Inr f'"
  shows "length (filter fix_event (hist (exec (wait_fix t') v))) \<ge>
     length (filter fix_event (hist w)) + 2"
proof -
  obtain es1 e1 where 1: "hist (exec (wait_fix t) w) = es1 @ hist w" "e1 \<in> set es1" "fix_event e1"
    using wait_fresh [OF assms(1,2)] by blast
  obtain es2 e2 where 2: "hist (exec (wait_fix t') v) = es2 @ hist v" "e2 \<in> set es2" "fix_event e2"
    using wait_fresh [OF assms(1,4)] by blast
  have "1 \<le> length (filter fix_event es1)" "1 \<le> length (filter fix_event es2)"
    using 1 2 by (auto simp: filter_empty_conv Suc_le_eq)
  with 1(1) 2(1) assms(3) show ?thesis by (simp only: filter_append length_append)
qed

end

end
