(* ===== verification/Gnss_Modem.thy ===== *)
theory Gnss_Modem
  imports Fix
begin

text \<open>
  gnss_modem.c: the onboard receiver.  Its event handler keeps the last PVT frame and the last
  assistance request; \<open>gnss_modem_wait_fix\<close> waits for the handler's semaphore and converts the frame.
\<close>

section \<open>State and operations\<close>

datatype gnss_event =
    NRF_MODEM_GNSS_EVT_PVT | NRF_MODEM_GNSS_EVT_AGNSS_REQ
  | NRF_MODEM_GNSS_EVT_BLOCKED | NRF_MODEM_GNSS_EVT_UNBLOCKED | NRF_MODEM_GNSS_EVT_OTHER int

record gnss_modem_state = led_state +
  last_pvt :: pvt_frame
  agnss_req :: agnss_frame
  agnss_req_valid :: bool

text \<open>\<open>pvt.flags & NRF_MODEM_GNSS_PVT_FLAG_FIX_VALID\<close>\<close>

definition fix_valid :: "sdk_consts \<Rightarrow> pvt_frame \<Rightarrow> bool" where
  "fix_valid S p \<longleftrightarrow> pvt_flags p AND NRF_MODEM_GNSS_PVT_FLAG_FIX_VALID S \<noteq> 0"

definition gnss_event_handler ::
  "('a gnss_modem_state_scheme) env \<Rightarrow> gnss_event \<Rightarrow> ('a gnss_modem_state_scheme, unit) state" where
  "gnss_event_handler E event = (case event of
     NRF_MODEM_GNSS_EVT_PVT \<Rightarrow> do {
       r \<leftarrow> api E (Modem (Gnss_read NRF_MODEM_GNSS_DATA_PVT));
       if rc r \<noteq> 0 then skip
       else do {
         locked E Data_lock_modem (modify (\<lambda>w. w\<lparr>last_pvt := pvt r\<rparr>));
         when_do (fix_valid (sdk E) (pvt r)) (api_do E (Kern (K_sem_give Fix_sem_modem)))
       }
     }
   | NRF_MODEM_GNSS_EVT_AGNSS_REQ \<Rightarrow> do {
       r \<leftarrow> api E (Modem (Gnss_read NRF_MODEM_GNSS_DATA_AGNSS_REQ));
       if rc r \<noteq> 0 then skip
       else do {
         locked E Data_lock_modem (modify (\<lambda>w. w\<lparr>agnss_req := frame r, agnss_req_valid := True\<rparr>));
         api_do E (Kern (K_sem_give Agnss_req_sem))
       }
     }
   | NRF_MODEM_GNSS_EVT_BLOCKED \<Rightarrow> skip
   | NRF_MODEM_GNSS_EVT_UNBLOCKED \<Rightarrow> skip
   | NRF_MODEM_GNSS_EVT_OTHER _ \<Rightarrow> skip)"

definition gnss_modem_init :: "('a gnss_modem_state_scheme) env \<Rightarrow> ('a gnss_modem_state_scheme, int) state" where
  "gnss_modem_init E = do {
     err \<leftarrow> api_rc E (Modem Gnss_event_handler_set);
     if err \<noteq> 0 then return err else return 0
   }"

definition gnss_modem_start :: "('a gnss_modem_state_scheme) env \<Rightarrow> ('a gnss_modem_state_scheme, int) state" where
  "gnss_modem_start E = do {
     api_do E (Modem Gnss_use_case_set_multiple_hot_start);
     api_do E (Modem (Gnss_fix_retry_set 0));
     api_do E (Modem (Gnss_fix_interval_set 1));
     when_do (NRF_CLOUD_AGNSS_FILTERED (cfg E))
       (api_do E (Modem (Gnss_elevation_threshold_set (NRF_CLOUD_AGNSS_ELEVATION_MASK (cfg E)))));
     api_do E (Kern (K_sem_reset Fix_sem_modem));
     api_do E (Kern (K_sem_reset Agnss_req_sem));
     err \<leftarrow> api_rc E (Modem Gnss_start);
     if err \<noteq> 0 then return err else return 0
   }"

definition gnss_modem_stop :: "('a gnss_modem_state_scheme) env \<Rightarrow> ('a gnss_modem_state_scheme, unit) state" where
  "gnss_modem_stop E = api_do E (Modem Gnss_stop)"

text \<open>The loop over \<open>sv[0..NRF_MODEM_GNSS_MAX_SATELLITES - 1]\<close>, counting in a \<open>uint16_t\<close>.\<close>

definition satellites_in_fix :: "sdk_consts \<Rightarrow> pvt_frame \<Rightarrow> u16" where
  "satellites_in_fix S p =
     fold (\<lambda>flags used. if flags AND NRF_MODEM_GNSS_SV_FLAG_USED_IN_FIX S \<noteq> 0 then used + 1 else used)
       (take (NRF_MODEM_GNSS_MAX_SATELLITES S) (pvt_sv_flags p)) 0"

definition modem_fix :: "sdk_consts \<Rightarrow> pvt_frame \<Rightarrow> tracker_fix" where
  "modem_fix S p = \<lparr>latitude = pvt_latitude p, longitude = pvt_longitude p,
     altitude = pvt_altitude p, accuracy = pvt_accuracy p, speed = pvt_speed p,
     heading = pvt_heading p, hdop = pvt_hdop p, satellites = satellites_in_fix S p,
     source = TRACKER_FIX_SOURCE_MODEM\<rparr>"

text \<open>\<open>Inl err\<close>: the error return, \<open>out\<close> untouched; \<open>Inr fix\<close>: a return of 0 with \<open>*out = fix\<close>.\<close>

definition gnss_modem_wait_fix ::
  "('a gnss_modem_state_scheme) env \<Rightarrow> nat \<Rightarrow> ('a gnss_modem_state_scheme, int + tracker_fix) state" where
  "gnss_modem_wait_fix E timeout_s = do {
     api_do E (Kern (K_sem_reset Fix_sem_modem));
     err \<leftarrow> api_rc E (Kern (K_sem_take Fix_sem_modem (timeout_s * 1000)));
     if err \<noteq> 0 then return (Inl (- EAGAIN))
     else do {
       p \<leftarrow> locked E Data_lock_modem (gets last_pvt);
       return (Inr (modem_fix (sdk E) p))
     }
   }"

definition gnss_modem_agnss_request_get ::
  "('a gnss_modem_state_scheme) env \<Rightarrow> ('a gnss_modem_state_scheme, agnss_frame option) state" where
  "gnss_modem_agnss_request_get E =
     locked E Data_lock_modem (gets (\<lambda>w. if agnss_req_valid w then Some (agnss_req w) else None))"

definition gnss_modem_agnss_request_wait ::
  "('a gnss_modem_state_scheme) env \<Rightarrow> nat \<Rightarrow> ('a gnss_modem_state_scheme, int) state" where
  "gnss_modem_agnss_request_wait E timeout_s = do {
     err \<leftarrow> api_rc E (Kern (K_sem_take Agnss_req_sem (timeout_s * 1000)));
     return (if err = 0 then 0 else - EAGAIN)
   }"

section \<open>Counting satellites\<close>

lemma fold_count:
  "unat (used :: u16) + length (filter P xs) < 2 ^ 16 \<Longrightarrow>
   unat (fold (\<lambda>x used. if P x then used + 1 else used) xs used) = unat used + length (filter P xs)"
proof (induction xs arbitrary: used)
  case (Cons x xs)
  show ?case
  proof (cases "P x")
    case True
    have "unat (used + 1) = unat used + 1"
      using Cons.prems True by (simp add: unat_word_ariths)
    with Cons.IH [of "used + 1"] Cons.prems True show ?thesis by simp
  next
    case False
    with Cons show ?thesis by simp
  qed
qed simp

lemma satellites_in_fix_count:
  assumes "NRF_MODEM_GNSS_MAX_SATELLITES S < 2 ^ 16"
  shows "unat (satellites_in_fix S p) =
    length (filter (\<lambda>f. f AND NRF_MODEM_GNSS_SV_FLAG_USED_IN_FIX S \<noteq> 0)
      (take (NRF_MODEM_GNSS_MAX_SATELLITES S) (pvt_sv_flags p)))"
proof -
  let ?P = "\<lambda>f. f AND NRF_MODEM_GNSS_SV_FLAG_USED_IN_FIX S \<noteq> 0"
  let ?xs = "take (NRF_MODEM_GNSS_MAX_SATELLITES S) (pvt_sv_flags p)"
  have "length (filter ?P ?xs) \<le> length ?xs" by (rule length_filter_le)
  also have "\<dots> \<le> NRF_MODEM_GNSS_MAX_SATELLITES S" by simp
  finally have "length (filter ?P ?xs) \<le> NRF_MODEM_GNSS_MAX_SATELLITES S" .
  with assms fold_count [of 0 ?P ?xs] show ?thesis by (simp add: satellites_in_fix_def)
qed

section \<open>Where a fix comes from\<close>

text \<open>
  The newest frame the modem delivered; a delivery of a valid one; and that each give of the fix
  semaphore follows such a delivery.
\<close>

fun pvt_read :: "event list \<Rightarrow> pvt_frame option" where
  "pvt_read [] = None"
| "pvt_read (e # h) =
     (if ev_call e = Modem (Gnss_read NRF_MODEM_GNSS_DATA_PVT) \<and> rc (ev_resp e) = 0
      then Some (pvt (ev_resp e)) else pvt_read h)"

definition delivers_fix :: "sdk_consts \<Rightarrow> event \<Rightarrow> bool" where
  "delivers_fix S e \<longleftrightarrow> ev_call e = Modem (Gnss_read NRF_MODEM_GNSS_DATA_PVT) \<and>
     rc (ev_resp e) = 0 \<and> fix_valid S (pvt (ev_resp e))"

fun gives_justified :: "sdk_consts \<Rightarrow> event list \<Rightarrow> bool" where
  "gives_justified S [] \<longleftrightarrow> True"
| "gives_justified S (e # h) \<longleftrightarrow> gives_justified S h \<and>
     (ev_call e = Kern (K_sem_give Fix_sem_modem) \<longrightarrow> (\<exists>x \<in> set h. delivers_fix S x))"

lemma pvt_read_append:
  "pvt_read (es @ h) = (case pvt_read es of None \<Rightarrow> pvt_read h | Some p \<Rightarrow> Some p)"
  by (induction es) simp_all

lemma pvt_read_delivered: "x \<in> set es \<Longrightarrow> delivers_fix S x \<Longrightarrow> \<exists>p. pvt_read es = Some p"
  by (induction es) (auto simp: delivers_fix_def)

lemma gives_justified_append:
  "gives_justified S es \<Longrightarrow> gives_justified S h \<Longrightarrow> gives_justified S (es @ h)"
  by (induction es) auto

lemma gives_justifiedD:
  "gives_justified S es \<Longrightarrow> x \<in> set es \<Longrightarrow> ev_call x = Kern (K_sem_give Fix_sem_modem) \<Longrightarrow>
   \<exists>y \<in> set es. delivers_fix S y"
  by (induction es) auto

text \<open>How the handlers and the code around them move the receiver's state along.\<close>

definition pvt_step :: "sdk_consts \<Rightarrow> 'a gnss_modem_state_scheme \<Rightarrow> 'a gnss_modem_state_scheme \<Rightarrow> bool" where
  "pvt_step S w w' \<longleftrightarrow> (\<exists>es. hist w' = es @ hist w \<and> gives_justified S es \<and>
     last_pvt w' = (case pvt_read es of None \<Rightarrow> last_pvt w | Some p \<Rightarrow> p))"

lemma reflp_pvt_step [simp]: "reflp (pvt_step S)"
  by (rule reflpI) (simp add: pvt_step_def)

lemma pvt_step_trans: "pvt_step S u v \<Longrightarrow> pvt_step S v w \<Longrightarrow> pvt_step S u w"
proof -
  assume "pvt_step S u v" "pvt_step S v w"
  then obtain es fs where
    es: "hist v = es @ hist u" "gives_justified S es"
      "last_pvt v = (case pvt_read es of None \<Rightarrow> last_pvt u | Some p \<Rightarrow> p)" and
    fs: "hist w = fs @ hist v" "gives_justified S fs"
      "last_pvt w = (case pvt_read fs of None \<Rightarrow> last_pvt v | Some p \<Rightarrow> p)"
    unfolding pvt_step_def by blast
  have "hist w = (fs @ es) @ hist u" using es fs by simp
  moreover have "gives_justified S (fs @ es)" using es fs by (simp add: gives_justified_append)
  moreover have "last_pvt w = (case pvt_read (fs @ es) of None \<Rightarrow> last_pvt u | Some p \<Rightarrow> p)"
    using es fs by (simp add: pvt_read_append split: option.splits)
  ultimately show ?thesis unfolding pvt_step_def by blast
qed

lemma transp_pvt_step [simp]: "transp (pvt_step S)"
  by (rule transpI) (rule pvt_step_trans)

lemma pvt_step_event:
  assumes "hist w' = e # hist w" "last_pvt w' = last_pvt w"
    "ev_call e \<noteq> Kern (K_sem_give Fix_sem_modem)" "ev_call e \<noteq> Modem (Gnss_read NRF_MODEM_GNSS_DATA_PVT)"
  shows "pvt_step S w w'"
  using assms unfolding pvt_step_def by (intro exI [of _ "[e]"]) simp

section \<open>The interface\<close>

locale gnss_modem_runtime = led_runtime E for E :: "('a gnss_modem_state_scheme) env" +
  assumes intr_pvt: "pvt_step (sdk E) w (intr E c w)"
    and intr_agnss_req: "agnss_req_valid w \<Longrightarrow> agnss_req_valid (intr E c w)"
begin

lemma pvt_step_api:
  assumes "c \<noteq> Kern (K_sem_give Fix_sem_modem)" "c \<noteq> Modem (Gnss_read NRF_MODEM_GNSS_DATA_PVT)"
  shows "pvt_step (sdk E) w (exec (api E c) w)"
proof (rule pvt_step_trans [OF intr_pvt])
  show "pvt_step (sdk E) (intr E c w) (exec (api E c) w)"
    using assms by (intro pvt_step_event [where e = "Ev (in_isr E) c (reply E (hist (intr E c w)) c)"])
       (simp_all add: api_simps)
qed

lemma advances_api_pvt [advances_rules]:
  assumes "c \<noteq> Kern (K_sem_give Fix_sem_modem)" "c \<noteq> Modem (Gnss_read NRF_MODEM_GNSS_DATA_PVT)"
  shows "advances (pvt_step (sdk E)) (api_rc E c)" "advances (pvt_step (sdk E)) (api_do E c)"
  using pvt_step_api [OF assms] by (simp_all add: advances_def run_simps)

lemma locked_issues [issues_rules]:
  "in_isr E \<or> A (Kern (K_spin_lock l)) \<and> A (Kern (K_spin_unlock l)) \<Longrightarrow> issues A m \<Longrightarrow>
   issues A (locked E l m)"
  unfolding locked_def by (intro issues_rules) auto

text \<open>
  A fix from the modem: during the wait a handler was delivered a frame marked valid, and the fix is
  the newest frame delivered before the copy was made.
\<close>

lemma gnss_modem_wait_fix_fresh:
  assumes sem: "sem_sound (reply E)" and res: "result (gnss_modem_wait_fix E t) w = Inr f"
  shows "\<exists>later es p. hist (exec (gnss_modem_wait_fix E t) w) = later @ es @ hist w \<and>
     (\<exists>e \<in> set es. ev_isr e \<and> delivers_fix (sdk E) e) \<and>
     pvt_read es = Some p \<and> f = modem_fix (sdk E) p"
proof -
  define w1 where "w1 = exec (api E (Kern (K_sem_reset Fix_sem_modem))) w"
  define take where "take = Kern (K_sem_take Fix_sem_modem (t * 1000))"
  define w2 where "w2 = exec (api E take) w1"
  define w3 where "w3 = exec (api E (Kern (K_spin_lock Data_lock_modem))) w2"
  define w4 where "w4 = exec (api E (Kern (K_spin_unlock Data_lock_modem))) w3"
  have ok: "rc (result (api E take) w1) = 0" and f: "f = modem_fix (sdk E) (last_pvt w3)"
    and end_state: "exec (gnss_modem_wait_fix E t) w = w4"
    using res by (auto simp: gnss_modem_wait_fix_def locked_def run_simps w1_def w2_def w3_def w4_def
        take_def split: if_splits)
  obtain es1 where es1: "hist (intr E take w1) = es1 @ hist w1" "\<forall>e \<in> set es1. ev_isr e"
    "\<exists>x \<in> set es1. ev_call x = Kern (K_sem_give Fix_sem_modem)"
    using sem_wait_given [OF sem] ok unfolding w1_def take_def by blast
  obtain es1' where "hist (intr E take w1) = es1' @ hist w1" "gives_justified (sdk E) es1'"
    using intr_pvt unfolding pvt_step_def by blast
  with es1 obtain y where y: "y \<in> set es1" "delivers_fix (sdk E) y"
    using gives_justifiedD by fastforce
  have s1: "pvt_step (sdk E) w w1" unfolding w1_def by (rule pvt_step_api) simp_all
  have s2: "pvt_step (sdk E) w1 w2" unfolding w2_def take_def by (rule pvt_step_api) simp_all
  have s3: "pvt_step (sdk E) w2 w3" unfolding w3_def by (rule pvt_step_api) simp_all
  have s4: "pvt_step (sdk E) w3 w4" unfolding w4_def by (rule pvt_step_api) simp_all
  obtain es0 es3 es4 where hs: "hist w1 = es0 @ hist w" "hist w3 = es3 @ hist w2" "hist w4 = es4 @ hist w3"
    using s1 s3 s4 unfolding pvt_step_def by blast
  have "hist w2 = Ev (in_isr E) take (result (api E take) w1) # es1 @ hist w1"
    by (simp add: w2_def hist_api es1(1))
  with hs have h3: "hist w3 = (es3 @ Ev (in_isr E) take (result (api E take) w1) # es1 @ es0) @ hist w"
    by simp
  obtain es where es: "hist w3 = es @ hist w"
    "last_pvt w3 = (case pvt_read es of None \<Rightarrow> last_pvt w | Some p \<Rightarrow> p)"
    using pvt_step_trans [OF pvt_step_trans [OF s1 s2] s3] unfolding pvt_step_def by blast
  with h3 have "set es1 \<subseteq> set es" by auto
  with y have "y \<in> set es" by blast
  moreover from this y obtain p where p: "pvt_read es = Some p"
    using pvt_read_delivered by blast
  ultimately show ?thesis using es f p y es1(2) hs(3) end_state by fastforce
qed

text \<open>Starting and stopping the receiver, and asking what it wants, leave its data to the handler.\<close>

lemma gnss_modem_issues [issues_rules]:
  assumes "\<And>m. A (Modem m)" "\<And>s t. s \<noteq> Wake_sem \<Longrightarrow> A (Kern (K_sem_take s t))" "\<And>s. A (Kern (K_sem_reset s))"
    "\<And>l. A (Kern (K_spin_lock l))" "\<And>l. A (Kern (K_spin_unlock l))"
  shows "issues A (gnss_modem_init E)" "issues A (gnss_modem_start E)" "issues A (gnss_modem_stop E)"
    "issues A (gnss_modem_wait_fix E t)" "issues A (gnss_modem_agnss_request_get E)"
    "issues A (gnss_modem_agnss_request_wait E t)"
  unfolding gnss_modem_init_def gnss_modem_start_def gnss_modem_stop_def gnss_modem_wait_fix_def
    gnss_modem_agnss_request_get_def gnss_modem_agnss_request_wait_def
  by (intro issues_rules; simp add: assms)+

lemma gnss_modem_start_result:
  "result (gnss_modem_start E) w = 0 \<longleftrightarrow>
   (\<exists>r h. hist (exec (gnss_modem_start E) w) = Ev (in_isr E) (Modem Gnss_start) r # h \<and> rc r = 0)"
  by (auto simp: gnss_modem_start_def run_simps hist_api)

end

interpretation isr_gnss_modem: gnss_modem_runtime "isr_env E" for E
  by unfold_locales (simp_all add: reflpD [OF reflp_pvt_step])

text \<open>What the modem's handler does is such a step: it gives only for a valid frame it stored.\<close>

lemma gnss_event_handler_step: "pvt_step (sdk E) w (exec (gnss_event_handler (isr_env E) ev) w)"
proof (cases ev)
  case NRF_MODEM_GNSS_EVT_PVT
  let ?r = "reply E (hist w) (Modem (Gnss_read NRF_MODEM_GNSS_DATA_PVT))"
  let ?w' = "exec (gnss_event_handler (isr_env E) ev) w"
  define es where "es = take (length (hist ?w') - length (hist w)) (hist ?w')"
  show ?thesis
    unfolding pvt_step_def
    by (rule exI [of _ es])
       (auto simp: es_def NRF_MODEM_GNSS_EVT_PVT gnss_event_handler_def locked_def run_simps api_simps
          delivers_fix_def)
next
  case NRF_MODEM_GNSS_EVT_AGNSS_REQ
  let ?w' = "exec (gnss_event_handler (isr_env E) ev) w"
  define es where "es = take (length (hist ?w') - length (hist w)) (hist ?w')"
  show ?thesis
    unfolding pvt_step_def
    by (rule exI [of _ es])
       (auto simp: es_def NRF_MODEM_GNSS_EVT_AGNSS_REQ gnss_event_handler_def locked_def run_simps api_simps)
qed (simp_all add: gnss_event_handler_def run_simps reflpD [OF reflp_pvt_step])

lemma gnss_event_handler_issues: "issues A (gnss_event_handler (isr_env E) ev)"
  unfolding gnss_event_handler_def locked_def
  by (cases ev; simp; (intro issues_rules)?; simp)

end
