(* ===== verification/Gnss_Ext.thy ===== *)
theory Gnss_Ext
  imports Gnss_Modem
begin

text \<open>
  gnss_ext.c: the external NMEA module.  \<open>last_fix\<close> is the snapshot the driver's callback leaves,
  \<open>powered\<close> follows the transistor on the power pin.  Arithmetic on \<open>double\<close> and \<open>float\<close> rounds after
  every operation, with the roundings of \<open>sdk_consts\<close>.
\<close>

section \<open>State and operations\<close>

text \<open>Zephyr's \<open>struct gnss_data\<close>, the members the callback reads.\<close>

datatype gnss_fix_status = GNSS_FIX_STATUS_NO_FIX | GNSS_FIX_STATUS_GNSS_FIX
  | GNSS_FIX_STATUS_DGNSS_FIX | GNSS_FIX_STATUS_ESTIMATED_FIX

record gnss_data =
  nav_latitude :: int      \<comment> \<open>nanodegrees\<close>
  nav_longitude :: int
  nav_altitude :: int      \<comment> \<open>millimetres\<close>
  nav_speed :: int         \<comment> \<open>millimetres per second\<close>
  nav_bearing :: int       \<comment> \<open>millidegrees\<close>
  info_hdop :: int         \<comment> \<open>thousandths\<close>
  info_satellites_cnt :: u16
  info_fix_status :: gnss_fix_status

record gnss_ext_state = gnss_modem_state +
  last_fix :: tracker_fix
  powered :: bool

definition ext_fix :: "config \<Rightarrow> sdk_consts \<Rightarrow> gnss_data \<Rightarrow> tracker_fix" where
  "ext_fix C S d =
    (let h = rnd32 S (rnd32 S (of_int (info_hdop d)) / 1000)
     in \<lparr>latitude = rnd64 S (rnd64 S (of_int (nav_latitude d)) / 1000000000),
         longitude = rnd64 S (rnd64 S (of_int (nav_longitude d)) / 1000000000),
         altitude = rnd32 S (rnd32 S (of_int (nav_altitude d)) / 1000),
         accuracy = rnd32 S (h * rnd32 S (of_nat (TRACKER_GNSS_EXT_UERE_METERS C))),
         speed = rnd32 S (rnd32 S (of_int (nav_speed d)) / 1000),
         heading = rnd32 S (rnd32 S (of_int (nav_bearing d)) / 1000),
         hdop = h,
         satellites = info_satellites_cnt d,
         source = TRACKER_FIX_SOURCE_EXTERNAL\<rparr>)"

definition gnss_data_handler ::
  "('a gnss_ext_state_scheme) env \<Rightarrow> gnss_data \<Rightarrow> ('a gnss_ext_state_scheme, unit) state" where
  "gnss_data_handler E d =
    (if info_fix_status d = GNSS_FIX_STATUS_NO_FIX then skip
     else do {
       let fx = ext_fix (cfg E) (sdk E) d;
       locked E Data_lock_ext (modify (\<lambda>w. w\<lparr>last_fix := fx\<rparr>));
       api_do E (Kern (K_sem_give Fix_sem_ext))
     })"

definition power_set :: "('a gnss_ext_state_scheme) env \<Rightarrow> bool \<Rightarrow> ('a gnss_ext_state_scheme, unit) state" where
  "power_set E on = do {
     err \<leftarrow> api_rc E (Board (Gpio_pin_set (TRACKER_GNSS_EXT_POWER_PIN (cfg E)) on));
     if err \<noteq> 0 then skip else modify (\<lambda>w. w\<lparr>powered := on\<rparr>)
   }"

definition gnss_ext_init :: "('a gnss_ext_state_scheme) env \<Rightarrow> ('a gnss_ext_state_scheme, int) state" where
  "gnss_ext_init E = do {
     port \<leftarrow> api_flag E (Kern (Device_is_ready Dev_power_port));
     if \<not> port then return (- ENODEV)
     else do {
       u \<leftarrow> api_flag E (Kern (Device_is_ready Dev_uart));
       g \<leftarrow> (if u then api_flag E (Kern (Device_is_ready Dev_gnss)) else return False);
       if \<not> u \<or> \<not> g then return (- ENODEV)
       else do {
         err \<leftarrow> api_rc E (Board (Gpio_pin_configure (TRACKER_GNSS_EXT_POWER_PIN (cfg E))));
         if err \<noteq> 0 then return err
         else do {
           api_do E (Board (Pm_device_action_run Dev_uart PM_DEVICE_ACTION_SUSPEND));
           return 0
         }
       }
     }
   }"

text \<open>\<open>gnss_ext_start\<close> once the module is powered: open the UART, attach the driver.\<close>

definition gnss_ext_open :: "('a gnss_ext_state_scheme) env \<Rightarrow> ('a gnss_ext_state_scheme, int) state" where
  "gnss_ext_open E = do {
     err \<leftarrow> api_rc E (Board (Pm_device_action_run Dev_uart PM_DEVICE_ACTION_RESUME));
     if err \<noteq> 0 \<and> err \<noteq> - EALREADY then do {
       power_set E False;
       return err
     }
     else do {
       err2 \<leftarrow> api_rc E (Board (Pm_device_action_run Dev_gnss PM_DEVICE_ACTION_RESUME));
       if err2 \<noteq> 0 \<and> err2 \<noteq> - EALREADY then do {
         api_do E (Board (Pm_device_action_run Dev_uart PM_DEVICE_ACTION_SUSPEND));
         power_set E False;
         return err2
       }
       else do {
         api_do E (Kern (K_sem_reset Fix_sem_ext));
         return 0
       }
     }
   }"

definition gnss_ext_start :: "('a gnss_ext_state_scheme) env \<Rightarrow> ('a gnss_ext_state_scheme, int) state" where
  "gnss_ext_start E = do {
     p \<leftarrow> gets powered;
     if \<not> p then do {
       power_set E True;
       p' \<leftarrow> gets powered;
       if \<not> p' then return (- EIO)
       else do {
         api_do E (Kern (K_sleep (TRACKER_GNSS_EXT_WARMUP_MS (cfg E))));
         gnss_ext_open E
       }
     }
     else gnss_ext_open E
   }"

definition gnss_ext_stop :: "('a gnss_ext_state_scheme) env \<Rightarrow> bool \<Rightarrow> ('a gnss_ext_state_scheme, unit) state" where
  "gnss_ext_stop E power_off = do {
     api_do E (Board (Pm_device_action_run Dev_uart PM_DEVICE_ACTION_SUSPEND));
     when_do power_off (power_set E False)
   }"

definition gnss_ext_wait_fix ::
  "('a gnss_ext_state_scheme) env \<Rightarrow> nat \<Rightarrow> ('a gnss_ext_state_scheme, int + tracker_fix) state" where
  "gnss_ext_wait_fix E timeout_s = do {
     api_do E (Kern (K_sem_reset Fix_sem_ext));
     err \<leftarrow> api_rc E (Kern (K_sem_take Fix_sem_ext (timeout_s * 1000)));
     if err \<noteq> 0 then return (Inl (- EAGAIN))
     else do {
       fx \<leftarrow> locked E Data_lock_ext (gets last_fix);
       return (Inr fx)
     }
   }"

section \<open>Where a fix comes from\<close>

text \<open>The callback stores a fix and gives the semaphore together, and only for a report with a fix.\<close>

definition gives_ext :: "event \<Rightarrow> bool" where
  "gives_ext e \<longleftrightarrow> ev_call e = Kern (K_sem_give Fix_sem_ext)"

definition reported_fix :: "config \<Rightarrow> sdk_consts \<Rightarrow> tracker_fix \<Rightarrow> bool" where
  "reported_fix C S f \<longleftrightarrow> (\<exists>d. info_fix_status d \<noteq> GNSS_FIX_STATUS_NO_FIX \<and> f = ext_fix C S d)"

lemma reported_fix_source: "reported_fix C S f \<Longrightarrow> source f = TRACKER_FIX_SOURCE_EXTERNAL"
  by (auto simp: reported_fix_def ext_fix_def Let_def)

definition ext_step :: "config \<Rightarrow> sdk_consts \<Rightarrow> 'a gnss_ext_state_scheme \<Rightarrow> 'a gnss_ext_state_scheme \<Rightarrow> bool" where
  "ext_step C S w w' \<longleftrightarrow> (\<exists>es. hist w' = es @ hist w \<and>
     (if \<exists>e \<in> set es. gives_ext e then reported_fix C S (last_fix w') else last_fix w' = last_fix w))"

lemma reflp_ext_step [simp]: "reflp (ext_step C S)"
  by (rule reflpI) (simp add: ext_step_def)

lemma ext_step_trans: "ext_step C S u v \<Longrightarrow> ext_step C S v w \<Longrightarrow> ext_step C S u w"
proof -
  assume "ext_step C S u v" "ext_step C S v w"
  then obtain es fs where
    es: "hist v = es @ hist u"
      "if \<exists>e \<in> set es. gives_ext e then reported_fix C S (last_fix v) else last_fix v = last_fix u" and
    fs: "hist w = fs @ hist v"
      "if \<exists>e \<in> set fs. gives_ext e then reported_fix C S (last_fix w) else last_fix w = last_fix v"
    unfolding ext_step_def by blast
  show ?thesis
    unfolding ext_step_def using es fs
    by (intro exI [of _ "fs @ es"]) (auto split: if_splits)
qed

lemma transp_ext_step [simp]: "transp (ext_step C S)"
  by (rule transpI) (rule ext_step_trans)

lemma ext_step_event:
  assumes "hist w' = e # hist w" "last_fix w' = last_fix w" "\<not> gives_ext e"
  shows "ext_step C S w w'"
  using assms unfolding ext_step_def by (intro exI [of _ "[e]"]) simp

section \<open>Power and the UART\<close>

text \<open>
  Read off the history: the pin's level (its last successful write), whether the UART drives its
  lines (its last action that took effect), and whether it ever did so while the module was off.
\<close>

fun pin_high :: "event list \<Rightarrow> bool" where
  "pin_high [] = False"
| "pin_high (e # h) =
     (case ev_call e of
        Board (Gpio_pin_set p on) \<Rightarrow> (if rc (ev_resp e) = 0 then on else pin_high h)
      | Board (Gpio_pin_configure p) \<Rightarrow> (if rc (ev_resp e) = 0 then False else pin_high h)
      | _ \<Rightarrow> pin_high h)"

definition pm_done :: "int \<Rightarrow> bool" where
  "pm_done err \<longleftrightarrow> err = 0 \<or> err = - EALREADY"

fun uart_active :: "event list \<Rightarrow> bool" where
  "uart_active [] = False"
| "uart_active (e # h) =
     (case ev_call e of
        Board (Pm_device_action_run Dev_uart a) \<Rightarrow>
          (if pm_done (rc (ev_resp e)) then a = PM_DEVICE_ACTION_RESUME
           else uart_active h)
      | _ \<Rightarrow> uart_active h)"

fun never_back_fed :: "event list \<Rightarrow> bool" where
  "never_back_fed [] = True"
| "never_back_fed (e # h) \<longleftrightarrow> never_back_fed h \<and> (uart_active (e # h) \<longrightarrow> pin_high (e # h))"

definition ext_power_ok :: "'a gnss_ext_state_scheme \<Rightarrow> bool" where
  "ext_power_ok w \<longleftrightarrow> never_back_fed (hist w) \<and> powered w = pin_high (hist w) \<and>
     (uart_active (hist w) \<longrightarrow> pin_high (hist w))"

text \<open>
  The calls that move either of them; and what Zephyr documents of the UART's power management, that
  suspending works, and resuming what is active says so.
\<close>

definition ext_power_call :: "call \<Rightarrow> bool" where
  "ext_power_call c \<longleftrightarrow> (\<exists>p on. c = Board (Gpio_pin_set p on)) \<or> (\<exists>p. c = Board (Gpio_pin_configure p)) \<or>
     (\<exists>a. c = Board (Pm_device_action_run Dev_uart a))"

definition uart_pm_sound :: "(event list \<Rightarrow> call \<Rightarrow> resp) \<Rightarrow> bool" where
  "uart_pm_sound R \<longleftrightarrow> (\<forall>h.
     pm_done (rc (R h (Board (Pm_device_action_run Dev_uart PM_DEVICE_ACTION_SUSPEND)))) \<and>
     (uart_active h \<longrightarrow>
       pm_done (rc (R h (Board (Pm_device_action_run Dev_uart PM_DEVICE_ACTION_RESUME))))))"

lemma ext_power_other:
  assumes "\<not> ext_power_call (ev_call e)"
  shows "pin_high (e # h) = pin_high h" "uart_active (e # h) = uart_active h"
  using assms by (auto simp: ext_power_call_def split: call.splits board_call.splits device.splits)

lemma ext_power_others:
  assumes "\<forall>e \<in> set es. \<not> ext_power_call (ev_call e)"
  shows "pin_high (es @ h) = pin_high h" "uart_active (es @ h) = uart_active h"
    "never_back_fed h \<Longrightarrow> (uart_active h \<longrightarrow> pin_high h) \<Longrightarrow> never_back_fed (es @ h)"
  using assms by (induction es) (simp_all add: ext_power_other del: pin_high.simps(2) uart_active.simps(2))

section \<open>The interface\<close>

locale gnss_ext_runtime = gnss_modem_runtime E for E :: "('a gnss_ext_state_scheme) env" +
  assumes intr_ext: "ext_step (cfg E) (sdk E) w (intr E c w)"
    and intr_powered: "powered (intr E c w) = powered w"
    and intr_ext_power: "\<exists>es. hist (intr E c w) = es @ hist w \<and> (\<forall>e \<in> set es. \<not> ext_power_call (ev_call e))"
begin

lemma ext_step_api:
  assumes "c \<noteq> Kern (K_sem_give Fix_sem_ext)"
  shows "ext_step (cfg E) (sdk E) w (exec (api E c) w)"
proof (rule ext_step_trans [OF intr_ext])
  show "ext_step (cfg E) (sdk E) (intr E c w) (exec (api E c) w)"
    using assms by (intro ext_step_event [where e = "Ev (in_isr E) c (reply E (hist (intr E c w)) c)"])
      (simp_all add: api_simps gives_ext_def)
qed

text \<open>A fix from the module was reported during the wait, by a report that had one.\<close>

lemma gnss_ext_wait_fix_fresh:
  assumes sem: "sem_sound (reply E)" and res: "result (gnss_ext_wait_fix E t) w = Inr f"
  shows "reported_fix (cfg E) (sdk E) f"
    and "\<exists>es. hist (exec (gnss_ext_wait_fix E t) w) = es @ hist w \<and> (\<exists>e \<in> set es. ev_isr e \<and> gives_ext e)"
proof -
  define w1 where "w1 = exec (api E (Kern (K_sem_reset Fix_sem_ext))) w"
  define take where "take = Kern (K_sem_take Fix_sem_ext (t * 1000))"
  define w2 where "w2 = exec (api E take) w1"
  define w3 where "w3 = exec (api E (Kern (K_spin_lock Data_lock_ext))) w2"
  define w4 where "w4 = exec (api E (Kern (K_spin_unlock Data_lock_ext))) w3"
  have ok: "rc (result (api E take) w1) = 0" and f: "f = last_fix w3"
    and end_state: "exec (gnss_ext_wait_fix E t) w = w4"
    using res by (auto simp: gnss_ext_wait_fix_def locked_def run_simps w1_def w2_def w3_def w4_def
        take_def split: if_splits)
  obtain es1 where es1: "hist (intr E take w1) = es1 @ hist w1" "\<forall>e \<in> set es1. ev_isr e"
    "\<exists>x \<in> set es1. ev_call x = Kern (K_sem_give Fix_sem_ext)"
    using sem_wait_given [OF sem] ok unfolding w1_def take_def by blast
  have s1: "ext_step (cfg E) (sdk E) w w1" unfolding w1_def by (rule ext_step_api) simp
  have s2: "ext_step (cfg E) (sdk E) w1 w2" unfolding w2_def take_def by (rule ext_step_api) simp
  have s3: "ext_step (cfg E) (sdk E) w2 w3" unfolding w3_def by (rule ext_step_api) simp
  have s4: "ext_step (cfg E) (sdk E) w3 w4" unfolding w4_def by (rule ext_step_api) simp
  obtain es0 es3 es4 where hs: "hist w1 = es0 @ hist w" "hist w3 = es3 @ hist w2" "hist w4 = es4 @ hist w3"
    using s1 s3 s4 unfolding ext_step_def by blast
  have "hist w2 = Ev (in_isr E) take (result (api E take) w1) # es1 @ hist w1"
    by (simp add: w2_def hist_api es1(1))
  with hs have h3: "hist w3 = (es3 @ Ev (in_isr E) take (result (api E take) w1) # es1 @ es0) @ hist w"
    by simp
  obtain es where es: "hist w3 = es @ hist w"
    "if \<exists>e \<in> set es. gives_ext e then reported_fix (cfg E) (sdk E) (last_fix w3) else last_fix w3 = last_fix w"
    using ext_step_trans [OF ext_step_trans [OF s1 s2] s3] unfolding ext_step_def by blast
  with h3 have "set es1 \<subseteq> set es" by auto
  with es1 have give: "\<exists>e \<in> set es. ev_isr e \<and> gives_ext e" by (auto simp: gives_ext_def)
  with es f show "reported_fix (cfg E) (sdk E) f" by (auto split: if_splits)
  show "\<exists>es. hist (exec (gnss_ext_wait_fix E t) w) = es @ hist w \<and> (\<exists>e \<in> set es. ev_isr e \<and> gives_ext e)"
    using hs(3) es(1) give end_state by (intro exI [of _ "es4 @ es"]) auto
qed

lemma api_powered [simp]: "powered (exec (api E c) w) = powered w"
  by (simp add: api_simps intr_powered)

lemma intr_pin [simp]:
  "pin_high (hist (intr E c w)) = pin_high (hist w)"
  "uart_active (hist (intr E c w)) = uart_active (hist w)"
  using intr_ext_power [of c w] by (auto simp: ext_power_others)

lemma ext_power_ok_intr: "ext_power_ok w \<Longrightarrow> ext_power_ok (intr E c w)"
  using intr_ext_power [of c w] by (auto simp: ext_power_ok_def intr_powered ext_power_others)

lemma ext_power_ok_api [hoare_rules]: "\<not> ext_power_call c \<Longrightarrow> keeps ext_power_ok (api E c)"
  using ext_power_ok_intr
  by (auto simp: keeps_def ext_power_ok_def hist_api ext_power_other intr_powered
      simp del: pin_high.simps(2) uart_active.simps(2))

lemma power_set_ok:
  assumes "ext_power_ok w" "on \<or> \<not> uart_active (hist w)"
  shows "ext_power_ok (exec (power_set E on) w)"
    and "uart_active (hist (exec (power_set E on) w)) = uart_active (hist w)"
  using assms ext_power_ok_intr [OF assms(1), unfolded ext_power_ok_def]
  by (auto simp: power_set_def run_simps ext_power_ok_def hist_api)

lemma uart_suspend_ok:
  assumes "ext_power_ok w" "uart_pm_sound (reply E)"
  defines "c \<equiv> Board (Pm_device_action_run Dev_uart PM_DEVICE_ACTION_SUSPEND)"
  shows "ext_power_ok (exec (api E c) w)" and "\<not> uart_active (hist (exec (api E c) w))"
  using assms(2) ext_power_ok_intr [OF assms(1), unfolded ext_power_ok_def]
  by (auto simp: ext_power_ok_def hist_api c_def uart_pm_sound_def result_api intr_powered)

lemma uart_resume_ok:
  assumes "ext_power_ok w" "uart_pm_sound (reply E)" "powered w"
  defines "c \<equiv> Board (Pm_device_action_run Dev_uart PM_DEVICE_ACTION_RESUME)"
  shows "ext_power_ok (exec (api E c) w)"
    and "\<not> pm_done (rc (result (api E c) w)) \<Longrightarrow> \<not> uart_active (hist (exec (api E c) w))"
    and "pm_done (rc (result (api E c) w)) \<Longrightarrow> uart_active (hist (exec (api E c) w))"
  using assms(2,3) ext_power_ok_intr [OF assms(1), unfolded ext_power_ok_def]
  by (auto simp: ext_power_ok_def hist_api c_def uart_pm_sound_def result_api intr_powered)

lemma ext_power_ok_other:
  "ext_power_ok w \<Longrightarrow> \<not> ext_power_call c \<Longrightarrow> ext_power_ok (exec (api E c) w)"
  "\<not> ext_power_call c \<Longrightarrow> uart_active (hist (exec (api E c) w)) = uart_active (hist w)"
  by (simp_all add: keepsD [OF ext_power_ok_api] hist_api ext_power_other del: uart_active.simps(2))

lemma not_ext_power_call [simp]:
  "\<not> ext_power_call (Kern k)" "\<not> ext_power_call (Modem m)"
  "\<not> ext_power_call (Board (Pm_device_action_run Dev_gnss a))"
  by (simp_all add: ext_power_call_def)

lemma gnss_ext_open_ok:
  assumes "ext_power_ok w" "uart_pm_sound (reply E)" "powered w"
  shows "ext_power_ok (exec (gnss_ext_open E) w)"
    and "uart_active (hist (exec (gnss_ext_open E) w)) \<longleftrightarrow> result (gnss_ext_open E) w = 0"
proof -
  note up = assms(1,2) uart_resume_ok [OF assms] ext_power_ok_other power_set_ok uart_suspend_ok
  show "ext_power_ok (exec (gnss_ext_open E) w)"
    using up by (simp add: gnss_ext_open_def run_simps pm_done_def)
  show "uart_active (hist (exec (gnss_ext_open E) w)) \<longleftrightarrow> result (gnss_ext_open E) w = 0"
    using up by (simp add: gnss_ext_open_def run_simps pm_done_def)
qed

text \<open>
  The module is never driven while it is off, and starting succeeds exactly if it leaves the module
  powered with its UART open.
\<close>

lemma gnss_ext_start_ok:
  assumes "ext_power_ok w" "uart_pm_sound (reply E)"
  shows "ext_power_ok (exec (gnss_ext_start E) w)"
    and "uart_active (hist (exec (gnss_ext_start E) w)) \<longleftrightarrow> result (gnss_ext_start E) w = 0"
proof -
  define w1 where "w1 = exec (power_set E True) w"
  define w2 where "w2 = exec (api E (Kern (K_sleep (TRACKER_GNSS_EXT_WARMUP_MS (cfg E))))) w1"
  have 1: "ext_power_ok w1" "uart_active (hist w1) = uart_active (hist w)"
    using power_set_ok [OF assms(1)] by (simp_all add: w1_def)
  have 2: "ext_power_ok w2" "powered w2 = powered w1"
    using 1 by (simp_all add: w2_def ext_power_ok_other)
  have off: "\<not> powered w \<Longrightarrow> \<not> uart_active (hist w)"
    using assms(1) by (auto simp: ext_power_ok_def)
  have run: "exec (gnss_ext_start E) w = (if powered w then exec (gnss_ext_open E) w
       else if powered w1 then exec (gnss_ext_open E) w2 else w1)"
    "result (gnss_ext_start E) w = (if powered w then result (gnss_ext_open E) w
       else if powered w1 then result (gnss_ext_open E) w2 else - EIO)"
    by (simp_all add: gnss_ext_start_def run_simps w1_def w2_def)
  show "ext_power_ok (exec (gnss_ext_start E) w)"
    and "uart_active (hist (exec (gnss_ext_start E) w)) \<longleftrightarrow> result (gnss_ext_start E) w = 0"
    unfolding run using assms 1 2 off gnss_ext_open_ok [OF assms] gnss_ext_open_ok [OF 2(1) assms(2)]
    by (auto simp: EIO_def)
qed

lemma gnss_ext_stop_ok:
  assumes "ext_power_ok w" "uart_pm_sound (reply E)"
  shows "ext_power_ok (exec (gnss_ext_stop E off) w)"
    and "\<not> uart_active (hist (exec (gnss_ext_stop E off) w))"
  using assms power_set_ok uart_suspend_ok by (simp_all add: gnss_ext_stop_def run_simps)

lemma gnss_ext_wait_fix_ok: "keeps ext_power_ok (gnss_ext_wait_fix E t)"
  unfolding gnss_ext_wait_fix_def locked_def
  by (intro hoare_rules keeps_api_variants) simp_all

lemma gnss_ext_issues [issues_rules]:
  assumes "\<And>b. A (Board b)" "\<And>s t. s \<noteq> Wake_sem \<Longrightarrow> A (Kern (K_sem_take s t))" "\<And>s. A (Kern (K_sem_reset s))"
    "\<And>l. A (Kern (K_spin_lock l))" "\<And>l. A (Kern (K_spin_unlock l))"
    "\<And>t. A (Kern (K_sleep t))" "\<And>d. A (Kern (Device_is_ready d))"
  shows "issues A (gnss_ext_init E)" "issues A (gnss_ext_start E)" "issues A (gnss_ext_stop E off)"
    "issues A (gnss_ext_wait_fix E t)"
  unfolding gnss_ext_init_def gnss_ext_start_def gnss_ext_open_def gnss_ext_stop_def
    gnss_ext_wait_fix_def power_set_def
  by (intro issues_rules; simp add: assms)+

end

sublocale gnss_ext_runtime \<subseteq> modem_rx: receiver E "gnss_modem_wait_fix E" TRACKER_FIX_SOURCE_MODEM
  "delivers_fix (sdk E)"
proof unfold_locales
  fix t w f
  assume "sem_sound (reply E)" "result (gnss_modem_wait_fix E t) w = Inr f"
  then obtain later es where "hist (exec (gnss_modem_wait_fix E t) w) = later @ es @ hist w"
    "\<exists>e \<in> set es. ev_isr e \<and> delivers_fix (sdk E) e"
    using gnss_modem_wait_fix_fresh by blast
  then show "\<exists>es. hist (exec (gnss_modem_wait_fix E t) w) = es @ hist w \<and>
      (\<exists>e \<in> set es. ev_isr e \<and> delivers_fix (sdk E) e)"
    by (intro exI [of _ "later @ es"]) auto
qed (auto simp: gnss_modem_wait_fix_def run_simps modem_fix_def split: if_splits)

sublocale gnss_ext_runtime \<subseteq> ext_rx: receiver E "gnss_ext_wait_fix E" TRACKER_FIX_SOURCE_EXTERNAL
  gives_ext
proof unfold_locales
  fix t w f
  assume "sem_sound (reply E)" "result (gnss_ext_wait_fix E t) w = Inr f"
  then show "source f = TRACKER_FIX_SOURCE_EXTERNAL"
    by (rule reported_fix_source [OF gnss_ext_wait_fix_fresh(1)])
next
  fix t w f
  assume "sem_sound (reply E)" "result (gnss_ext_wait_fix E t) w = Inr f"
  then show "\<exists>es. hist (exec (gnss_ext_wait_fix E t) w) = es @ hist w \<and>
      (\<exists>e \<in> set es. ev_isr e \<and> gives_ext e)"
    by (rule gnss_ext_wait_fix_fresh(2))
qed (auto simp: gnss_ext_wait_fix_def run_simps split: if_splits)

interpretation isr_gnss_ext: gnss_ext_runtime "isr_env E" for E
  by unfold_locales (simp_all add: reflpD [OF reflp_ext_step])

lemma gnss_data_handler_step:
  "ext_step (cfg E) (sdk E) w (exec (gnss_data_handler (isr_env E) d) w)"
proof (cases "info_fix_status d = GNSS_FIX_STATUS_NO_FIX")
  case True
  then show ?thesis by (simp add: gnss_data_handler_def run_simps reflpD [OF reflp_ext_step])
next
  case False
  let ?w' = "exec (gnss_data_handler (isr_env E) d) w"
  define es where "es = take (length (hist ?w') - length (hist w)) (hist ?w')"
  show ?thesis
    unfolding ext_step_def using False
    by (intro exI [of _ es])
       (auto simp: es_def gnss_data_handler_def Let_def locked_def run_simps api_simps
          gives_ext_def reported_fix_def)
qed

lemma gnss_data_handler_issues: "issues A (gnss_data_handler (isr_env E) d)"
  unfolding gnss_data_handler_def Let_def locked_def by (intro issues_rules) simp_all

end
