(* ===== verification/Gnss.thy ===== *)
theory Gnss
  imports Gnss_Ext
begin

text \<open>
  gnss.c: which receiver has the cycle.  \<open>active\<close> forwards each call; \<open>external_usable\<close> is latched by
  \<open>gnss_init\<close>.  The code between \<open>#if defined(CONFIG_TRACKER_GNSS_EXTERNAL)\<close> and \<open>#endif\<close> is under the
  configuration flag here.
\<close>

section \<open>State and operations\<close>

record gnss_state = gnss_ext_state +
  active :: tracker_fix_source
  external_usable :: bool

definition gnss_init :: "('a gnss_state_scheme) env \<Rightarrow> ('a gnss_state_scheme, int) state" where
  "gnss_init E = do {
     modem_err \<leftarrow> gnss_modem_init E;
     when_do (TRACKER_GNSS_EXTERNAL (cfg E)) (do {
       ext_err \<leftarrow> gnss_ext_init E;
       when_do (ext_err = 0) (modify (\<lambda>w. w\<lparr>external_usable := True\<rparr>))
     });
     eu \<leftarrow> gets external_usable;
     if \<not> eu \<and> modem_err \<noteq> 0 then return modem_err
     else do {
       modify (\<lambda>w. w\<lparr>active := (if eu then TRACKER_FIX_SOURCE_EXTERNAL else TRACKER_FIX_SOURCE_MODEM)\<rparr>);
       return 0
     }
   }"

definition gnss_start_modem :: "('a gnss_state_scheme) env \<Rightarrow> ('a gnss_state_scheme, int) state" where
  "gnss_start_modem E = do {
     modify (\<lambda>w. w\<lparr>active := TRACKER_FIX_SOURCE_MODEM\<rparr>);
     gnss_modem_start E
   }"

definition gnss_start :: "('a gnss_state_scheme) env \<Rightarrow> ('a gnss_state_scheme, int) state" where
  "gnss_start E = do {
     eu \<leftarrow> gets external_usable;
     if TRACKER_GNSS_EXTERNAL (cfg E) \<and> eu then do {
       modify (\<lambda>w. w\<lparr>active := TRACKER_FIX_SOURCE_EXTERNAL\<rparr>);
       err \<leftarrow> gnss_ext_start E;
       if err = 0 then return 0 else gnss_start_modem E
     }
     else gnss_start_modem E
   }"

definition gnss_stop :: "('a gnss_state_scheme) env \<Rightarrow> ('a gnss_state_scheme, unit) state" where
  "gnss_stop E = do {
     a \<leftarrow> gets active;
     if TRACKER_GNSS_EXTERNAL (cfg E) \<and> a = TRACKER_FIX_SOURCE_EXTERNAL
     then gnss_ext_stop E (TRACKER_GNSS_EXT_POWER_CYCLE (cfg E))
     else gnss_modem_stop E
   }"

definition gnss_wait_fix ::
  "('a gnss_state_scheme) env \<Rightarrow> nat \<Rightarrow> ('a gnss_state_scheme, int + tracker_fix) state" where
  "gnss_wait_fix E timeout_s = do {
     a \<leftarrow> gets active;
     if TRACKER_GNSS_EXTERNAL (cfg E) \<and> a = TRACKER_FIX_SOURCE_EXTERNAL
     then gnss_ext_wait_fix E timeout_s
     else gnss_modem_wait_fix E timeout_s
   }"

definition gnss_active_source :: "('a gnss_state_scheme, tracker_fix_source) state" where
  "gnss_active_source = gets active"

definition gnss_fix_timeout_seconds :: "('a gnss_state_scheme) env \<Rightarrow> ('a gnss_state_scheme, nat) state" where
  "gnss_fix_timeout_seconds E = do {
     a \<leftarrow> gets active;
     return (if TRACKER_GNSS_EXTERNAL (cfg E) \<and> a = TRACKER_FIX_SOURCE_EXTERNAL
             then TRACKER_GNSS_EXT_FIX_TIMEOUT_SECONDS (cfg E)
             else TRACKER_GNSS_FIX_TIMEOUT_SECONDS (cfg E))
   }"

definition gnss_fallback_available :: "('a gnss_state_scheme) env \<Rightarrow> ('a gnss_state_scheme, bool) state" where
  "gnss_fallback_available E = do {
     a \<leftarrow> gets active;
     return (TRACKER_GNSS_EXTERNAL (cfg E) \<and> a = TRACKER_FIX_SOURCE_EXTERNAL \<and>
             TRACKER_GNSS_EXT_MODEM_FALLBACK (cfg E))
   }"

definition gnss_fallback :: "('a gnss_state_scheme) env \<Rightarrow> ('a gnss_state_scheme, int) state" where
  "gnss_fallback E = do {
     ok \<leftarrow> gnss_fallback_available E;
     if \<not> ok then return (- ENOTSUP)
     else do {
       when_do (TRACKER_GNSS_EXTERNAL (cfg E)) (gnss_ext_stop E True);
       modify (\<lambda>w. w\<lparr>active := TRACKER_FIX_SOURCE_MODEM\<rparr>);
       err \<leftarrow> gnss_modem_start E;
       if err \<noteq> 0 then return err else return 0
     }
   }"

definition gnss_agnss_request_get ::
  "('a gnss_state_scheme) env \<Rightarrow> ('a gnss_state_scheme, agnss_frame option) state" where
  "gnss_agnss_request_get E = do {
     a \<leftarrow> gets active;
     if a \<noteq> TRACKER_FIX_SOURCE_MODEM then return None
     else gnss_modem_agnss_request_get E
   }"

definition gnss_agnss_request_wait ::
  "('a gnss_state_scheme) env \<Rightarrow> nat \<Rightarrow> ('a gnss_state_scheme, int) state" where
  "gnss_agnss_request_wait E timeout_s = do {
     a \<leftarrow> gets active;
     if a \<noteq> TRACKER_FIX_SOURCE_MODEM then return (- EAGAIN)
     else gnss_modem_agnss_request_wait E timeout_s
   }"

section \<open>Which receiver runs\<close>

text \<open>
  The modem's receiver runs from a successful start to a successful stop; the module counts as
  running while its UART is open.  \<open>idle\<close>: neither runs.  \<open>rx_ok\<close>: at most the active one does.
\<close>

fun modem_running :: "event list \<Rightarrow> bool" where
  "modem_running [] = False"
| "modem_running (e # h) =
     (if rc (ev_resp e) = 0 \<and> ev_call e = Modem Gnss_start then True
      else if rc (ev_resp e) = 0 \<and> ev_call e = Modem Gnss_stop then False
      else modem_running h)"

text \<open>Documented of the modem: stopping a receiver that runs succeeds.\<close>

definition gnss_stop_sound :: "(event list \<Rightarrow> call \<Rightarrow> resp) \<Rightarrow> bool" where
  "gnss_stop_sound R \<longleftrightarrow> (\<forall>h. modem_running h \<longrightarrow> rc (R h (Modem Gnss_stop)) = 0)"

definition idle :: "'a gnss_state_scheme \<Rightarrow> bool" where
  "idle w \<longleftrightarrow> ext_power_ok w \<and> \<not> uart_active (hist w) \<and> \<not> modem_running (hist w)"

definition rx_ok :: "'a gnss_state_scheme \<Rightarrow> bool" where
  "rx_ok w \<longleftrightarrow> ext_power_ok w \<and>
     (uart_active (hist w) \<longrightarrow> active w = TRACKER_FIX_SOURCE_EXTERNAL) \<and>
     (modem_running (hist w) \<longrightarrow> active w = TRACKER_FIX_SOURCE_MODEM)"

definition running :: "'a gnss_state_scheme \<Rightarrow> bool" where
  "running w \<longleftrightarrow> (if active w = TRACKER_FIX_SOURCE_EXTERNAL then uart_active (hist w)
     else modem_running (hist w))"

text \<open>The external module can only be active where it is compiled in and came up.\<close>

definition arbiter_ok :: "config \<Rightarrow> 'a gnss_state_scheme \<Rightarrow> bool" where
  "arbiter_ok C w \<longleftrightarrow> (active w = TRACKER_FIX_SOURCE_EXTERNAL \<longrightarrow>
     TRACKER_GNSS_EXTERNAL C \<and> external_usable w)"

text \<open>Calls that start, stop or power a receiver, and a stretch of the program without any.\<close>

definition rx_call :: "call \<Rightarrow> bool" where
  "rx_call c \<longleftrightarrow> ext_power_call c \<or> c = Modem Gnss_start \<or> c = Modem Gnss_stop"

definition rx_same :: "'a gnss_state_scheme \<Rightarrow> 'a gnss_state_scheme \<Rightarrow> bool" where
  "rx_same w w' \<longleftrightarrow> active w' = active w \<and> external_usable w' = external_usable w \<and>
     powered w' = powered w \<and>
     (\<exists>es. hist w' = es @ hist w \<and> (\<forall>e \<in> set es. \<not> rx_call (ev_call e)))"

lemma rx_same_refl: "rx_same w w"
  by (simp add: rx_same_def)

lemma rx_same_trans: "rx_same u v \<Longrightarrow> rx_same v w \<Longrightarrow> rx_same u w"
proof -
  assume uv: "rx_same u v" and vw: "rx_same v w"
  obtain es where es: "hist v = es @ hist u" "\<forall>e \<in> set es. \<not> rx_call (ev_call e)"
    using uv unfolding rx_same_def by blast
  obtain fs where fs: "hist w = fs @ hist v" "\<forall>e \<in> set fs. \<not> rx_call (ev_call e)"
    using vw unfolding rx_same_def by blast
  have "hist w = (fs @ es) @ hist u" "\<forall>e \<in> set (fs @ es). \<not> rx_call (ev_call e)"
    using es fs by auto
  with uv vw show ?thesis unfolding rx_same_def by metis
qed

lemma reflp_rx_same [simp]: "reflp rx_same" and transp_rx_same [simp]: "transp rx_same"
  by (auto intro!: reflpI transpI rx_same_refl elim: rx_same_trans)

lemma rx_same_fields:
  "active w' = active w \<Longrightarrow> external_usable w' = external_usable w \<Longrightarrow> powered w' = powered w \<Longrightarrow>
   hist w' = hist w \<Longrightarrow> rx_same w w'"
  by (simp add: rx_same_def)

lemma modem_running_others:
  "\<forall>e \<in> set es. \<not> rx_call (ev_call e) \<Longrightarrow> modem_running (es @ h) = modem_running h"
  by (induction es) (auto simp: rx_call_def)

lemma rx_same_keeps:
  assumes "rx_same w w'"
  shows "uart_active (hist w') = uart_active (hist w)" "modem_running (hist w') = modem_running (hist w)"
    "ext_power_ok w \<Longrightarrow> ext_power_ok w'" "idle w \<Longrightarrow> idle w'" "rx_ok w \<Longrightarrow> rx_ok w'"
    "running w' = running w" "arbiter_ok C w' = arbiter_ok C w"
proof -
  obtain es where es: "hist w' = es @ hist w" "\<forall>e \<in> set es. \<not> rx_call (ev_call e)"
    and same: "active w' = active w" "external_usable w' = external_usable w" "powered w' = powered w"
    using assms unfolding rx_same_def by blast
  have others: "\<forall>e \<in> set es. \<not> ext_power_call (ev_call e)" using es(2) by (simp add: rx_call_def)
  note facts = ext_power_others [OF others] modem_running_others [OF es(2)]
  show uart: "uart_active (hist w') = uart_active (hist w)"
    and modem: "modem_running (hist w') = modem_running (hist w)"
    by (simp_all add: es(1) facts)
  show power: "ext_power_ok w \<Longrightarrow> ext_power_ok w'"
    by (auto simp: ext_power_ok_def es(1) facts same)
  show "idle w \<Longrightarrow> idle w'" "rx_ok w \<Longrightarrow> rx_ok w'" "running w' = running w"
    "arbiter_ok C w' = arbiter_ok C w"
    using uart modem power same by (auto simp: idle_def rx_ok_def running_def arbiter_ok_def)
qed

lemma advances_rx:
  assumes "advances rx_same m"
  shows "uart_active (hist (exec m w)) = uart_active (hist w)"
    "modem_running (hist (exec m w)) = modem_running (hist w)"
    "active (exec m w) = active w" "external_usable (exec m w) = external_usable w"
    "idle w \<Longrightarrow> idle (exec m w)" "rx_ok w \<Longrightarrow> rx_ok (exec m w)" "running (exec m w) = running w"
    "arbiter_ok C (exec m w) = arbiter_ok C w"
  using rx_same_keeps [OF advancesD [OF assms, of w]] advancesD [OF assms, of w]
  by (simp_all add: rx_same_def)

section \<open>The interface\<close>

text \<open>Only the main thread changes who is active.\<close>

locale gnss_runtime = gnss_ext_runtime E for E :: "('a gnss_state_scheme) env" +
  assumes intr_gnss: "active (intr E c w) = active w" "external_usable (intr E c w) = external_usable w"
    and intr_rx: "\<exists>es. hist (intr E c w) = es @ hist w \<and> (\<forall>e \<in> set es. \<not> rx_call (ev_call e))"
begin

lemma api_gnss [simp]:
  "active (exec (api E c) w) = active w" "external_usable (exec (api E c) w) = external_usable w"
  by (simp_all add: api_simps intr_gnss)

lemma rx_same_intr: "rx_same w (intr E c w)"
  using intr_rx by (simp add: rx_same_def intr_gnss intr_powered)

lemma rx_same_api:
  assumes "\<not> rx_call c"
  shows "rx_same w (exec (api E c) w)"
proof (rule rx_same_trans [OF rx_same_intr])
  show "rx_same (intr E c w) (exec (api E c) w)"
    using assms unfolding rx_same_def
    by (simp add: intr_gnss intr_powered hist_api)
qed

lemma advances_api_rx [advances_rules]:
  assumes "\<not> rx_call c"
  shows "advances rx_same (api E c)" "advances rx_same (api_rc E c)" "advances rx_same (api_flag E c)"
    "advances rx_same (api_do E c)"
  using rx_same_api [OF assms] by (simp_all add: advances_def run_simps)

lemma modem_running_intr [simp]: "modem_running (hist (intr E c w)) = modem_running (hist w)"
  using rx_same_keeps(2) [OF rx_same_intr] .

lemma receivers_keep_active [simp]:
  "active (exec (gnss_ext_start E) w) = active w"
  "active (exec (gnss_ext_stop E off) w) = active w"
  "active (exec (gnss_modem_start E) w) = active w"
  "active (exec (gnss_modem_stop E) w) = active w"
  "external_usable (exec (gnss_ext_start E) w) = external_usable w"
  "external_usable (exec (gnss_ext_stop E off) w) = external_usable w"
  "external_usable (exec (gnss_modem_start E) w) = external_usable w"
  "external_usable (exec (gnss_modem_stop E) w) = external_usable w"
  by (simp_all add: gnss_ext_start_def gnss_ext_open_def gnss_ext_stop_def gnss_modem_start_def
      gnss_modem_stop_def power_set_def run_simps)

text \<open>Once the cycle has fallen back, there is nothing left to fall back to.\<close>

lemma gnss_fallback_once:
  "active (exec (gnss_fallback E) w) = TRACKER_FIX_SOURCE_MODEM \<or> result (gnss_fallback E) w = - ENOTSUP"
  "result (gnss_fallback E) w = 0 \<Longrightarrow> \<not> result (gnss_fallback_available E) (exec (gnss_fallback E) w)"
  by (auto simp: gnss_fallback_def gnss_fallback_available_def run_simps ENOTSUP_def split: if_splits)

lemma modem_running_api [simp]:
  "modem_running (hist (exec (api E c) w)) =
     (if rc (result (api E c) w) = 0 \<and> c = Modem Gnss_start then True
      else if rc (result (api E c) w) = 0 \<and> c = Modem Gnss_stop then False
      else modem_running (hist w))"
  by (auto simp: hist_api)

lemma modem_running_ext [simp]:
  "modem_running (hist (exec (gnss_ext_start E) w)) = modem_running (hist w)"
  "modem_running (hist (exec (gnss_ext_stop E off) w)) = modem_running (hist w)"
  by (simp_all add: gnss_ext_start_def gnss_ext_open_def gnss_ext_stop_def power_set_def run_simps)

lemma modem_ext_power:
  assumes "ext_power_ok w"
  shows "ext_power_ok (exec (gnss_modem_start E) w)" "ext_power_ok (exec (gnss_modem_stop E) w)"
  using assms by (simp_all add: gnss_modem_start_def gnss_modem_stop_def run_simps ext_power_ok_other)

lemma modem_uart [simp]:
  "uart_active (hist (exec (gnss_modem_start E) w)) = uart_active (hist w)"
  "uart_active (hist (exec (gnss_modem_stop E) w)) = uart_active (hist w)"
  by (simp_all add: gnss_modem_start_def gnss_modem_stop_def run_simps ext_power_ok_other)

lemma modem_start_running:
  "modem_running (hist (exec (gnss_modem_start E) w)) \<longleftrightarrow>
     result (gnss_modem_start E) w = 0 \<or> modem_running (hist w)"
  by (simp add: gnss_modem_start_def run_simps)

lemma modem_stop_running:
  "gnss_stop_sound (reply E) \<Longrightarrow> \<not> modem_running (hist (exec (gnss_modem_stop E) w))"
  using modem_running_intr [of "Modem Gnss_stop" w]
  by (auto simp: gnss_modem_stop_def run_simps gnss_stop_sound_def result_api)

lemma modem_ops_rx_ok:
  assumes "rx_ok w" "active w = TRACKER_FIX_SOURCE_MODEM"
  shows "rx_ok (exec (gnss_modem_start E) w)" "rx_ok (exec (gnss_modem_stop E) w)"
  using assms modem_ext_power [of w] by (simp_all add: rx_ok_def)

lemma gnss_start_modem_ok:
  assumes "idle w"
  shows "rx_ok (exec (gnss_start_modem E) w)"
    and "result (gnss_start_modem E) w = 0 \<longleftrightarrow> running (exec (gnss_start_modem E) w)"
    and "result (gnss_start_modem E) w \<noteq> 0 \<Longrightarrow> idle (exec (gnss_start_modem E) w)"
    and "active (exec (gnss_start_modem E) w) = TRACKER_FIX_SOURCE_MODEM"
proof -
  let ?w = "w\<lparr>active := TRACKER_FIX_SOURCE_MODEM\<rparr>"
  have "ext_power_ok ?w" using assms by (simp add: idle_def ext_power_ok_def)
  note facts = modem_ext_power(1) [OF this] modem_start_running [of ?w]
  show "rx_ok (exec (gnss_start_modem E) w)"
    and "result (gnss_start_modem E) w = 0 \<longleftrightarrow> running (exec (gnss_start_modem E) w)"
    and "result (gnss_start_modem E) w \<noteq> 0 \<Longrightarrow> idle (exec (gnss_start_modem E) w)"
    and "active (exec (gnss_start_modem E) w) = TRACKER_FIX_SOURCE_MODEM"
    using assms facts by (simp_all add: gnss_start_modem_def run_simps rx_ok_def running_def idle_def)
qed

text \<open>
  Starting from rest: success means the active receiver runs, failure that none does; and whatever
  the outcome, a receiver that runs is the active one.
\<close>

lemma gnss_start_ok:
  assumes "idle w" "uart_pm_sound (reply E)"
  shows "rx_ok (exec (gnss_start E) w)"
    and "result (gnss_start E) w = 0 \<longleftrightarrow> running (exec (gnss_start E) w)"
    and "result (gnss_start E) w \<noteq> 0 \<Longrightarrow> idle (exec (gnss_start E) w)"
    and "arbiter_ok (cfg E) (exec (gnss_start E) w)"
proof -
  let ?w = "w\<lparr>active := TRACKER_FIX_SOURCE_EXTERNAL\<rparr>"
  let ?v = "exec (gnss_ext_start E) ?w"
  have start: "ext_power_ok ?w" using assms(1) by (simp add: idle_def ext_power_ok_def)
  note ext = gnss_ext_start_ok [OF start assms(2)]
  have rest: "result (gnss_ext_start E) ?w \<noteq> 0 \<Longrightarrow> idle ?v"
    using ext assms(1) by (simp add: idle_def)
  show "rx_ok (exec (gnss_start E) w)"
    and "result (gnss_start E) w = 0 \<longleftrightarrow> running (exec (gnss_start E) w)"
    and "result (gnss_start E) w \<noteq> 0 \<Longrightarrow> idle (exec (gnss_start E) w)"
    and "arbiter_ok (cfg E) (exec (gnss_start E) w)"
    using assms(1) ext rest gnss_start_modem_ok [OF assms(1)] gnss_start_modem_ok [OF rest]
    by (auto simp: gnss_start_def run_simps rx_ok_def running_def idle_def arbiter_ok_def)
qed

lemma gnss_stop_ok:
  assumes "rx_ok w" "arbiter_ok (cfg E) w" "uart_pm_sound (reply E)" "gnss_stop_sound (reply E)"
  shows "idle (exec (gnss_stop E) w)"
  using assms gnss_ext_stop_ok [of w] modem_ext_power [of w] modem_stop_running [of w]
  by (cases "active w") (auto simp: gnss_stop_def run_simps rx_ok_def idle_def arbiter_ok_def)

lemma gnss_fallback_ok:
  assumes "rx_ok w" "arbiter_ok (cfg E) w" "uart_pm_sound (reply E)"
  shows "rx_ok (exec (gnss_fallback E) w)" "arbiter_ok (cfg E) (exec (gnss_fallback E) w)"
    and "result (gnss_fallback E) w = 0 \<Longrightarrow> running (exec (gnss_fallback E) w)"
proof -
  let ?v = "exec (gnss_ext_stop E True) w"
  have "active w = TRACKER_FIX_SOURCE_EXTERNAL \<Longrightarrow> idle ?v"
    using assms gnss_ext_stop_ok [of w] by (auto simp: rx_ok_def idle_def)
  note fall = gnss_start_modem_ok [OF this, unfolded gnss_start_modem_def, simplified run_simps]
  have run: "exec (gnss_fallback E) w =
      (if result (gnss_fallback_available E) w then
         exec (gnss_modem_start E) (?v\<lparr>active := TRACKER_FIX_SOURCE_MODEM\<rparr>) else w)"
    "result (gnss_fallback E) w =
      (if result (gnss_fallback_available E) w then
         result (gnss_modem_start E) (?v\<lparr>active := TRACKER_FIX_SOURCE_MODEM\<rparr>) else - ENOTSUP)"
    by (auto simp: gnss_fallback_def gnss_fallback_available_def run_simps)
  show "rx_ok (exec (gnss_fallback E) w)" "arbiter_ok (cfg E) (exec (gnss_fallback E) w)"
    and "result (gnss_fallback E) w = 0 \<Longrightarrow> running (exec (gnss_fallback E) w)"
    unfolding run using assms(1,2) fall
    by (auto simp: gnss_fallback_available_def run_simps arbiter_ok_def ENOTSUP_def)
qed

text \<open>A fix names the receiver that has the cycle.\<close>

lemma gnss_wait_fix_source:
  assumes "sem_sound (reply E)" "arbiter_ok (cfg E) w" "result (gnss_wait_fix E t) w = Inr f"
  shows "source f = active w"
  using assms modem_rx.wait_source [OF assms(1)] ext_rx.wait_source [OF assms(1)]
  by (cases "active w") (auto simp: gnss_wait_fix_def run_simps arbiter_ok_def)

lemma gnss_wait_fix_fresh:
  assumes "sem_sound (reply E)" "result (gnss_wait_fix E t) w = Inr f"
  shows "\<exists>es. hist (exec (gnss_wait_fix E t) w) = es @ hist w \<and>
    (\<exists>e \<in> set es. ev_isr e \<and> (delivers_fix (sdk E) e \<or> gives_ext e))"
  using assms modem_rx.wait_fresh [OF assms(1), of t w f] ext_rx.wait_fresh [OF assms(1), of t w f]
  by (auto simp: gnss_wait_fix_def run_simps split: if_splits; blast)

text \<open>The parts of a cycle that leave both receivers alone.\<close>

lemma not_rx_call [simp]:
  "\<not> rx_call (Kern k)"
  "rx_call (Modem m) \<longleftrightarrow> m = Gnss_start \<or> m = Gnss_stop"
  "\<not> rx_call (Cloud cl)" "\<not> rx_call (Net n)"
  "\<not> rx_call (Board Sensor_sample_fetch)" "\<not> rx_call (Board (Sensor_channel_get ch))"
  "\<not> rx_call (Board (Sensor_trigger_set b))" "\<not> rx_call (Board (Led_on l))" "\<not> rx_call (Board (Led_off l))"
  by (auto simp: rx_call_def ext_power_call_def)

lemma gnss_waits_rx [advances_rules]:
  "advances rx_same (gnss_wait_fix E t)" "advances rx_same (gnss_agnss_request_get E)"
  "advances rx_same (gnss_agnss_request_wait E t)" "advances rx_same gnss_active_source"
  "advances rx_same (gnss_fix_timeout_seconds E)" "advances rx_same (gnss_fallback_available E)"
  "advances rx_same (gnss_modem_agnss_request_get E)"
  unfolding gnss_wait_fix_def gnss_ext_wait_fix_def gnss_modem_wait_fix_def locked_def
    gnss_agnss_request_get_def gnss_modem_agnss_request_get_def gnss_active_source_def
    gnss_agnss_request_wait_def gnss_modem_agnss_request_wait_def gnss_fix_timeout_seconds_def
    gnss_fallback_available_def
  by (intro advances_rules; simp)+

lemma gnss_issues [issues_rules]:
  assumes "\<And>b. A (Board b)" "\<And>m. A (Modem m)" "\<And>s t. s \<noteq> Wake_sem \<Longrightarrow> A (Kern (K_sem_take s t))"
    "\<And>s. A (Kern (K_sem_reset s))" "\<And>l. A (Kern (K_spin_lock l))" "\<And>l. A (Kern (K_spin_unlock l))"
    "\<And>t. A (Kern (K_sleep t))" "\<And>d. A (Kern (Device_is_ready d))"
  shows "issues A (gnss_init E)" "issues A (gnss_start E)" "issues A (gnss_stop E)"
    "issues A (gnss_wait_fix E t)" "issues A (gnss_fallback E)" "issues A (gnss_agnss_request_wait E t)"
    "issues A (gnss_agnss_request_get E)"
    "issues A gnss_active_source" "issues A (gnss_fix_timeout_seconds E)" "issues A (gnss_fallback_available E)"
  unfolding gnss_init_def gnss_start_def gnss_start_modem_def gnss_stop_def gnss_wait_fix_def
    gnss_fallback_def gnss_fallback_available_def gnss_agnss_request_wait_def
    gnss_agnss_request_get_def gnss_active_source_def gnss_fix_timeout_seconds_def
  by (intro issues_rules; simp add: assms)+

end

interpretation isr_gnss: gnss_runtime "isr_env E" for E
  by unfold_locales simp_all

end
