(* ===== verification/Cloud_Nrf.thy ===== *)
theory Cloud_Nrf
  imports Gnss
begin

text \<open>
  cloud_nrf.c: the nRF Cloud transport.  Three statics: the link's state, whether the credentials
  were found at boot, and whether the modem had network time.  Functions are named after the file,
  because cloud_hologram.c defines the same ones; \<open>Cloud\<close> chooses.
\<close>

section \<open>State and operations\<close>

datatype link_status = LINK_DISCONNECTED | LINK_CONNECTED | LINK_PAUSED

record cloud_state = gnss_state +
  link_state :: link_status
  creds_ok :: bool
  modem_time_ready :: bool

definition ENVELOPE_MAX :: nat where "ENVELOPE_MAX = 384"
definition MODEM_TIME_POLL_S :: nat where "MODEM_TIME_POLL_S = 3"

text \<open>Positive results are CoAP codes.\<close>

definition normalize :: "int \<Rightarrow> int" where
  "normalize err = (if err > 0 then - EIO else err)"

text \<open>The \<open>for\<close> loop of \<open>modem_time_wait\<close>, from \<open>waited\<close> on.\<close>

function modem_time_loop :: "('a cloud_state_scheme) env \<Rightarrow> nat \<Rightarrow> ('a cloud_state_scheme, unit) state" where
  "modem_time_loop E waited =
    (if waited < TRACKER_MODEM_TIME_WAIT_SECONDS (cfg E) then do {
       err \<leftarrow> api_rc E (Modem (Nrf_modem_at_cmd ''AT%CCLK?''));
       if err = 0 then modify (\<lambda>w. w\<lparr>modem_time_ready := True\<rparr>)
       else do {
         api_do E (Kern (K_sleep (MODEM_TIME_POLL_S * 1000)));
         watchdog_feed E;
         modem_time_loop E (waited + MODEM_TIME_POLL_S)
       }
     }
     else skip)"
  by pat_completeness auto
termination
  by (relation "measure (\<lambda>(E, waited). TRACKER_MODEM_TIME_WAIT_SECONDS (cfg E) - waited)")
     (simp_all add: MODEM_TIME_POLL_S_def)

declare modem_time_loop.simps [simp del]

definition modem_time_wait :: "('a cloud_state_scheme) env \<Rightarrow> ('a cloud_state_scheme, unit) state" where
  "modem_time_wait E = do {
     ready \<leftarrow> gets modem_time_ready;
     if ready then skip else modem_time_loop E 0
   }"

definition credentials_ok :: "('a cloud_state_scheme) env \<Rightarrow> ('a cloud_state_scheme, bool) state" where
  "credentials_ok E = do {
     r \<leftarrow> api E (Cloud Credentials_check);
     if rc r \<noteq> 0 then return False
     else return (cs_ca (creds r) \<and> cs_ca_aws (creds r) \<and> cs_prv_key (creds r))
   }"

definition cloud_nrf_init :: "('a cloud_state_scheme) env \<Rightarrow> ('a cloud_state_scheme, int) state" where
  "cloud_nrf_init E =
    (if TRACKER_SKIP_LTE (cfg E) then return 0
     else do {
       api_do E (Cloud Client_id_get);
       ok \<leftarrow> credentials_ok E;
       modify (\<lambda>w. w\<lparr>creds_ok := ok\<rparr>);
       if TRACKER_OFFLINE_DEBUG (cfg E) then return 0
       else if \<not> ok then return (- EACCES)
       else do {
         err \<leftarrow> api_rc E (Cloud Coap_init);
         if err \<noteq> 0 then return err else return 0
       }
     })"

text \<open>\<open>cloud_resume\<close> from \<open>modem_time_wait()\<close> on: the full handshake.\<close>

definition cloud_nrf_connect :: "('a cloud_state_scheme) env \<Rightarrow> ('a cloud_state_scheme, int) state" where
  "cloud_nrf_connect E = do {
     modem_time_wait E;
     err \<leftarrow> api_rc E (Cloud Coap_connect);
     if err \<noteq> 0 then do {
       api_do E (Cloud Coap_disconnect);
       modify (\<lambda>w. w\<lparr>link_state := LINK_DISCONNECTED\<rparr>);
       return err
     }
     else do {
       modify (\<lambda>w. w\<lparr>link_state := LINK_CONNECTED\<rparr>);
       return 0
     }
   }"

definition cloud_nrf_resume :: "('a cloud_state_scheme) env \<Rightarrow> ('a cloud_state_scheme, int) state" where
  "cloud_nrf_resume E =
    (if TRACKER_SKIP_LTE (cfg E) then return (- ENOTCONN)
     else if TRACKER_OFFLINE_DEBUG (cfg E) then do {
       modify (\<lambda>w. w\<lparr>link_state := LINK_CONNECTED\<rparr>);
       return 0
     }
     else do {
       ok \<leftarrow> gets creds_ok;
       link \<leftarrow> gets link_state;
       if \<not> ok then return (- EACCES)
       else if link = LINK_CONNECTED then return 0
       else if link = LINK_PAUSED then do {
         err \<leftarrow> api_rc E (Cloud Coap_resume);
         if err = 0 then do {
           modify (\<lambda>w. w\<lparr>link_state := LINK_CONNECTED\<rparr>);
           return 0
         }
         else do {
           modify (\<lambda>w. w\<lparr>link_state := LINK_DISCONNECTED\<rparr>);
           cloud_nrf_connect E
         }
       }
       else cloud_nrf_connect E
     })"

definition cloud_nrf_pause :: "('a cloud_state_scheme) env \<Rightarrow> ('a cloud_state_scheme, unit) state" where
  "cloud_nrf_pause E = do {
     link \<leftarrow> gets link_state;
     if link \<noteq> LINK_CONNECTED \<or> TRACKER_OFFLINE_DEBUG (cfg E) then skip
     else do {
       supported \<leftarrow> api_flag E (Cloud Coap_keepopen_is_supported);
       if \<not> supported then skip
       else do {
         err \<leftarrow> api_rc E (Cloud Coap_pause);
         if err \<noteq> 0 then skip
         else modify (\<lambda>w. w\<lparr>link_state := LINK_PAUSED\<rparr>)
       }
     }
   }"

definition cloud_nrf_is_ready :: "('a cloud_state_scheme, bool) state" where
  "cloud_nrf_is_ready = gets (\<lambda>w. link_state w = LINK_CONNECTED)"

text \<open>The two format strings; \<open>None\<close> is the one without a timestamp.\<close>

definition device_message :: "config \<Rightarrow> sdk_consts \<Rightarrow> int option \<Rightarrow> string \<Rightarrow> string" where
  \<open>device_message C S ts inner =
     ''{"'' @ NRF_CLOUD_JSON_APPID_KEY S @ ''":"'' @ TRACKER_NRF_CLOUD_APP_ID C @ ''","'' @
     NRF_CLOUD_JSON_MSG_TYPE_KEY S @ ''":"'' @ NRF_CLOUD_JSON_MSG_TYPE_VAL_DATA S @ ''",'' @
     (case ts of None \<Rightarrow> '''' | Some t \<Rightarrow> ''"'' @ NRF_CLOUD_MSG_TIMESTAMP_KEY S @ ''":'' @ show_int t @ '','') @
     ''"'' @ NRF_CLOUD_JSON_DATA_KEY S @ ''":'' @ inner @ ''}''\<close>

definition cloud_nrf_send_telemetry ::
  "('a cloud_state_scheme) env \<Rightarrow> string \<Rightarrow> ('a cloud_state_scheme, int) state" where
  "cloud_nrf_send_telemetry E inner_json = do {
     now \<leftarrow> api E (Cloud Date_time_now);
     let ts = (if rc now = 0 then Some (i64 now) else None);
     let (len, envelope) = snprintf ENVELOPE_MAX (device_message (cfg E) (sdk E) ts inner_json);
     if len \<ge> ENVELOPE_MAX then return (- ENOMEM)
     else if TRACKER_OFFLINE_DEBUG (cfg E) then return 0
     else do {
       err \<leftarrow> api_rc E (Cloud (Coap_json_message_send envelope));
       return (normalize err)
     }
   }"

definition cloud_nrf_send_location ::
  "('a cloud_state_scheme) env \<Rightarrow> tracker_fix \<Rightarrow> ('a cloud_state_scheme, int) state" where
  "cloud_nrf_send_location E fx =
    (if \<not> TRACKER_NRF_CLOUD_PORTAL_LOCATION (cfg E) then return 0
     else if TRACKER_OFFLINE_DEBUG (cfg E) then return 0
     else do {
       now \<leftarrow> api E (Cloud Date_time_now);
       let gnss = \<lparr>gd_ts_ms = (if rc now = 0 then i64 now else NRF_CLOUD_NO_TIMESTAMP (sdk E)),
         gd_lat = latitude fx, gd_lon = longitude fx, gd_accuracy = accuracy fx,
         gd_alt = altitude fx, gd_speed = speed fx, gd_heading = heading fx\<rparr>;
       err \<leftarrow> api_rc E (Cloud (Coap_location_send gnss));
       return (normalize err)
     })"

definition cloud_nrf_supports_agnss :: bool where
  "cloud_nrf_supports_agnss = True"

lemma normalize_le: "normalize err \<le> 0" "normalize err = 0 \<longleftrightarrow> err = 0"
  by (simp_all add: normalize_def EIO_def)

section \<open>The session\<close>

text \<open>The state of the session as the library was last left: what the history says \<open>link_state\<close> is.\<close>

fun session :: "event list \<Rightarrow> link_status" where
  "session [] = LINK_DISCONNECTED"
| "session (e # h) = (case ev_call e of
     Cloud Coap_connect \<Rightarrow> (if rc (ev_resp e) = 0 then LINK_CONNECTED else session h)
   | Cloud Coap_resume \<Rightarrow> (if rc (ev_resp e) = 0 then LINK_CONNECTED else LINK_DISCONNECTED)
   | Cloud Coap_pause \<Rightarrow> (if rc (ev_resp e) = 0 then LINK_PAUSED else session h)
   | Cloud Coap_disconnect \<Rightarrow> LINK_DISCONNECTED
   | _ \<Rightarrow> session h)"

definition session_call :: "call \<Rightarrow> bool" where
  "session_call c \<longleftrightarrow> c = Cloud Coap_connect \<or> c = Cloud Coap_resume \<or> c = Cloud Coap_pause \<or>
     c = Cloud Coap_disconnect"

lemma session_other: "\<not> session_call (ev_call e) \<Longrightarrow> session (e # h) = session h"
  by (auto simp: session_call_def split: call.splits cloud_call.splits)

lemma session_others: "\<forall>e \<in> set es. \<not> session_call (ev_call e) \<Longrightarrow> session (es @ h) = session h"
  by (induction es) (simp_all add: session_other del: session.simps(2))

definition link_current :: "'a cloud_state_scheme \<Rightarrow> bool" where
  "link_current w \<longleftrightarrow> link_state w = session (hist w)"

text \<open>
  The protocol the library documents: connect when there is no session, pause a connected one,
  resume a paused one.
\<close>

fun session_protocol :: "event list \<Rightarrow> bool" where
  "session_protocol [] \<longleftrightarrow> True"
| "session_protocol (e # h) \<longleftrightarrow> session_protocol h \<and> (case ev_call e of
     Cloud Coap_connect \<Rightarrow> session h = LINK_DISCONNECTED
   | Cloud Coap_pause \<Rightarrow> session h = LINK_CONNECTED
   | Cloud Coap_resume \<Rightarrow> session h = LINK_PAUSED
   | _ \<Rightarrow> True)"

lemma session_protocol_others:
  "\<forall>e \<in> set es. \<not> session_call (ev_call e) \<Longrightarrow> session_protocol (es @ h) = session_protocol h"
  by (induction es) (auto simp: session_call_def split: call.splits cloud_call.splits)

text \<open>Connected means usable: brought up with credentials (or pretended, in an offline build).\<close>

definition link_ok :: "config \<Rightarrow> 'a cloud_state_scheme \<Rightarrow> bool" where
  "link_ok C w \<longleftrightarrow> (link_state w = LINK_CONNECTED \<longrightarrow>
     \<not> TRACKER_SKIP_LTE C \<and> (TRACKER_OFFLINE_DEBUG C \<or> creds_ok w))"

section \<open>The interface\<close>

locale cloud_runtime = gnss_runtime E for E :: "('a cloud_state_scheme) env" +
  assumes intr_cloud: "link_state (intr E c w) = link_state w" "creds_ok (intr E c w) = creds_ok w"
      "modem_time_ready (intr E c w) = modem_time_ready w"
    and intr_no_session: "\<exists>es. hist (intr E c w) = es @ hist w \<and> (\<forall>e \<in> set es. \<not> session_call (ev_call e))"
begin

lemma intr_session: "session (hist (intr E c w)) = session (hist w)"
  and intr_protocol: "session_protocol (hist (intr E c w)) = session_protocol (hist w)"
  using intr_no_session [of c w] session_others session_protocol_others by metis+

lemma api_cloud [simp]:
  "link_state (exec (api E c) w) = link_state w" "creds_ok (exec (api E c) w) = creds_ok w"
  "modem_time_ready (exec (api E c) w) = modem_time_ready w"
  by (simp_all add: api_simps intr_cloud)

lemma session_api: "\<not> session_call c \<Longrightarrow> session (hist (exec (api E c) w)) = session (hist w)"
  by (simp add: hist_api session_other intr_session del: session.simps(2))

lemma session_after:
  "session (hist (exec (api E c) w)) = (case c of
     Cloud Coap_connect \<Rightarrow> (if rc (result (api E c) w) = 0 then LINK_CONNECTED else session (hist w))
   | Cloud Coap_resume \<Rightarrow> (if rc (result (api E c) w) = 0 then LINK_CONNECTED else LINK_DISCONNECTED)
   | Cloud Coap_pause \<Rightarrow> (if rc (result (api E c) w) = 0 then LINK_PAUSED else session (hist w))
   | Cloud Coap_disconnect \<Rightarrow> LINK_DISCONNECTED
   | _ \<Rightarrow> session (hist w))"
  and protocol_after: "session_protocol (hist (exec (api E c) w)) \<longleftrightarrow> session_protocol (hist w) \<and> (case c of
     Cloud Coap_connect \<Rightarrow> session (hist w) = LINK_DISCONNECTED
   | Cloud Coap_pause \<Rightarrow> session (hist w) = LINK_CONNECTED
   | Cloud Coap_resume \<Rightarrow> session (hist w) = LINK_PAUSED
   | _ \<Rightarrow> True)"
  by (simp_all add: hist_api intr_session intr_protocol split: call.split cloud_call.split)

lemma watchdog_feed_cloud [simp]:
  "link_state (exec (watchdog_feed E) w) = link_state w"
  "creds_ok (exec (watchdog_feed E) w) = creds_ok w"
  "session (hist (exec (watchdog_feed E) w)) = session (hist w)"
  "slept (hist (exec (watchdog_feed E) w)) = slept (hist w)"
  "session_protocol (hist (exec (watchdog_feed E) w)) = session_protocol (hist w)"
  by (simp_all add: watchdog_feed_def run_simps session_api session_call_def slept_api protocol_after)

text \<open>Waiting for the modem's time is bounded by its Kconfig option, rounded up to whole polls.\<close>

lemma modem_time_loop_slept:
  "slept (hist (exec (modem_time_loop E waited) w)) \<le> slept (hist w) +
     1000 * (TRACKER_MODEM_TIME_WAIT_SECONDS (cfg E) + 2 - waited)"
proof (induction "TRACKER_MODEM_TIME_WAIT_SECONDS (cfg E) - waited" arbitrary: waited w
    rule: less_induct)
  case less
  show ?case
  proof (cases "waited < TRACKER_MODEM_TIME_WAIT_SECONDS (cfg E)")
    case True
    let ?w1 = "exec (api E (Modem (Nrf_modem_at_cmd ''AT%CCLK?''))) w"
    let ?w3 = "exec (watchdog_feed E) (exec (api E (Kern (K_sleep (MODEM_TIME_POLL_S * 1000)))) ?w1)"
    have "slept (hist ?w3) \<le> slept (hist w) + 3000"
      by (simp add: slept_api MODEM_TIME_POLL_S_def)
    moreover have "slept (hist (exec (modem_time_loop E (waited + MODEM_TIME_POLL_S)) ?w3)) \<le>
        slept (hist ?w3) + 1000 * (TRACKER_MODEM_TIME_WAIT_SECONDS (cfg E) + 2 - (waited + MODEM_TIME_POLL_S))"
      using True by (intro less) (simp add: MODEM_TIME_POLL_S_def)
    ultimately have "slept (hist (exec (modem_time_loop E (waited + MODEM_TIME_POLL_S)) ?w3)) \<le>
        slept (hist w) + 3000 + 1000 * (TRACKER_MODEM_TIME_WAIT_SECONDS (cfg E) + 2 - (waited + 3))"
      by (simp add: MODEM_TIME_POLL_S_def)
    also have "\<dots> \<le> slept (hist w) + 1000 * (TRACKER_MODEM_TIME_WAIT_SECONDS (cfg E) + 2 - waited)"
      using True by (auto dest: less_imp_Suc_add)
    finally show ?thesis
      using True by (simp add: modem_time_loop.simps [of E waited] run_simps slept_api)
  next
    case False
    then show ?thesis by (simp add: modem_time_loop.simps run_simps)
  qed
qed

lemma modem_time_loop_cloud [simp]:
  "link_state (exec (modem_time_loop E waited) w) = link_state w"
  "creds_ok (exec (modem_time_loop E waited) w) = creds_ok w"
  "session (hist (exec (modem_time_loop E waited) w)) = session (hist w)"
  "session_protocol (hist (exec (modem_time_loop E waited) w)) = session_protocol (hist w)"
proof (induction "TRACKER_MODEM_TIME_WAIT_SECONDS (cfg E) - waited" arbitrary: waited w
    rule: less_induct)
  case less
  {
    case 1
    show ?case by (subst modem_time_loop.simps) (simp add: run_simps less MODEM_TIME_POLL_S_def)
  next
    case 2
    show ?case by (subst modem_time_loop.simps) (simp add: run_simps less MODEM_TIME_POLL_S_def)
  next
    case 3
    show ?case by (subst modem_time_loop.simps)
      (simp add: run_simps less MODEM_TIME_POLL_S_def session_api session_call_def)
  next
    case 4
    show ?case by (subst modem_time_loop.simps) (simp add: run_simps less MODEM_TIME_POLL_S_def protocol_after)
  }
qed

lemma cloud_nrf_connect_result:
  "result (cloud_nrf_connect E) w = 0 \<longleftrightarrow> link_state (exec (cloud_nrf_connect E) w) = LINK_CONNECTED"
  "creds_ok (exec (cloud_nrf_connect E) w) = creds_ok w"
  by (auto simp: cloud_nrf_connect_def modem_time_wait_def run_simps)

lemma cloud_nrf_connect_session:
  "link_current (exec (cloud_nrf_connect E) w)"
  by (auto simp: cloud_nrf_connect_def link_current_def run_simps hist_api)

lemma cloud_nrf_resume_result:
  assumes "link_ok (cfg E) w"
  shows "result (cloud_nrf_resume E) w = 0 \<longleftrightarrow> link_state (exec (cloud_nrf_resume E) w) = LINK_CONNECTED"
    and "link_ok (cfg E) (exec (cloud_nrf_resume E) w)"
  using assms
  by (auto simp: cloud_nrf_resume_def run_simps link_ok_def cloud_nrf_connect_result EACCES_def ENOTCONN_def
      split: if_splits)

lemma cloud_nrf_resume_session:
  "\<not> TRACKER_OFFLINE_DEBUG (cfg E) \<Longrightarrow> link_current w \<Longrightarrow> link_current (exec (cloud_nrf_resume E) w)"
  by (auto simp: cloud_nrf_resume_def run_simps cloud_nrf_connect_session)
    (simp_all add: link_current_def hist_api)

lemma cloud_nrf_pause_session:
  "link_current w \<Longrightarrow> link_current (exec (cloud_nrf_pause E) w)"
  using session_api [of "Cloud Coap_keepopen_is_supported"]
  by (auto simp: cloud_nrf_pause_def run_simps link_current_def hist_api [of _ "Cloud Coap_pause"]
      intr_session session_call_def)

lemma cloud_nrf_pause_link:
  "link_state (exec (cloud_nrf_pause E) w) = link_state w \<or>
   link_state w = LINK_CONNECTED \<and> link_state (exec (cloud_nrf_pause E) w) = LINK_PAUSED"
  "link_ok (cfg E) w \<Longrightarrow> link_ok (cfg E) (exec (cloud_nrf_pause E) w)"
  by (auto simp: cloud_nrf_pause_def run_simps link_ok_def)

lemma cloud_nrf_send_link [simp]:
  "link_state (exec (cloud_nrf_send_telemetry E s) w) = link_state w"
  "creds_ok (exec (cloud_nrf_send_telemetry E s) w) = creds_ok w"
  "link_state (exec (cloud_nrf_send_location E fx) w) = link_state w"
  "creds_ok (exec (cloud_nrf_send_location E fx) w) = creds_ok w"
  by (simp_all add: cloud_nrf_send_telemetry_def cloud_nrf_send_location_def Let_def run_simps
      split: prod.split)

text \<open>A send succeeds only if the library accepted the complete message; no error is positive.\<close>

lemma cloud_nrf_send_result:
  "result (cloud_nrf_send_telemetry E s) w \<le> 0"
  by (auto simp: cloud_nrf_send_telemetry_def Let_def run_simps normalize_le ENOMEM_def split: prod.split)

lemma watchdog_feed_rx [advances_rules]: "advances rx_same (watchdog_feed E)"
  unfolding watchdog_feed_def by (intro advances_rules; simp)

lemma modem_time_loop_advances:
  assumes "\<And>c. \<not> rx_call c \<Longrightarrow> advances R (api E c)"
    and "reflp R" "transp R" "\<And>w. R w (w\<lparr>modem_time_ready := True\<rparr>)"
  shows "advances R (modem_time_loop E waited)"
proof -
  have api: "advances R (api_rc E c)" "advances R (api_do E c)" if "\<not> rx_call c" for c
    using assms(1) [OF that] assms(2,3) by (simp_all add: advances_def run_simps)
  show ?thesis
  proof (induction "TRACKER_MODEM_TIME_WAIT_SECONDS (cfg E) - waited" arbitrary: waited rule: less_induct)
    case less
    show ?case
      by (subst modem_time_loop.simps, unfold watchdog_feed_def)
         (intro advances_rules less api; simp add: assms MODEM_TIME_POLL_S_def)
  qed
qed

lemma modem_time_loop_rx [advances_rules]: "advances rx_same (modem_time_loop E waited)"
  by (rule modem_time_loop_advances) (simp_all add: advances_api_rx rx_same_fields)

lemma cloud_nrf_rx [advances_rules]:
  "advances rx_same (cloud_nrf_init E)" "advances rx_same (cloud_nrf_resume E)"
  "advances rx_same (cloud_nrf_pause E)" "advances rx_same (cloud_nrf_send_telemetry E s)"
  "advances rx_same (cloud_nrf_send_location E fx)" "advances rx_same cloud_nrf_is_ready"
  unfolding cloud_nrf_init_def credentials_ok_def cloud_nrf_resume_def cloud_nrf_connect_def
    modem_time_wait_def cloud_nrf_pause_def cloud_nrf_send_telemetry_def cloud_nrf_send_location_def
    cloud_nrf_is_ready_def Let_def
  by (intro advances_rules; simp add: rx_same_fields)+

end

interpretation isr_cloud: cloud_runtime "isr_env E" for E
  by unfold_locales simp_all

section \<open>The device message fits\<close>

lemma device_message_length:
  assumes "\<bar>t\<bar> < 10 ^ 19" "ts = None \<or> ts = Some t"
  shows "length (device_message C S ts inner) \<le> 41 + length inner + length (TRACKER_NRF_CLOUD_APP_ID C) +
     length (NRF_CLOUD_JSON_APPID_KEY S) + length (NRF_CLOUD_JSON_MSG_TYPE_KEY S) +
     length (NRF_CLOUD_JSON_MSG_TYPE_VAL_DATA S) + length (NRF_CLOUD_MSG_TIMESTAMP_KEY S) +
     length (NRF_CLOUD_JSON_DATA_KEY S)"
  using assms length_show_int [of 19 t] by (auto simp: device_message_def)

end
