(* ===== verification/Hologram.thy ===== *)
theory Hologram
  imports Cloud_Nrf
begin

text \<open>
  hologram.c and cloud_hologram.c: one TCP connection per message.  cJSON builds the envelope, so
  its printed text is an answer of the environment.  \<open>errno\<close> after a failed socket call is the
  answer's \<open>i64\<close>.
\<close>

section \<open>Operations\<close>

definition HOLOGRAM_ENVELOPE_MAX :: nat where "HOLOGRAM_ENVELOPE_MAX = 512"
definition REPLY_MAX :: nat where "REPLY_MAX = 32"
definition REPLY_TIMEOUT_SECONDS :: nat where "REPLY_TIMEOUT_SECONDS = 15"

text \<open>\<open>strcat(buf, "\n\n")\<close>\<close>

definition newlines :: string where
  "newlines = [CHR 0x0A, CHR 0x0A]"

text \<open>
  \<open>topics == NULL || AddString(...) == NULL || AddString(...) == NULL\<close>: each call is made only if
  those before it succeeded.
\<close>

definition add_strings :: "('a platform_scheme) env \<Rightarrow> bool \<Rightarrow> string \<Rightarrow> ('a platform_scheme, bool) state" where
  "add_strings E topics inner_json =
    (if \<not> topics then return False
     else do {
       k \<leftarrow> api_flag E (Net (CJSON_AddStringToObject ''k'' (HOLOGRAM_DEVICE_KEY (cfg E))));
       if \<not> k then return False
       else api_flag E (Net (CJSON_AddStringToObject ''d'' inner_json))
     })"

text \<open>\<open>Inl err\<close>, or the buffer's contents.\<close>

definition build_envelope ::
  "('a platform_scheme) env \<Rightarrow> string \<Rightarrow> nat \<Rightarrow> ('a platform_scheme, int + string) state" where
  "build_envelope E inner_json len = do {
     root \<leftarrow> api_flag E (Net CJSON_CreateObject);
     if \<not> root then return (Inl (- ENOMEM))
     else do {
       topics \<leftarrow> api_flag E (Net CJSON_CreateArray);
       ok \<leftarrow> add_strings E topics inner_json;
       if \<not> ok then do {
         when_do topics (api_do E (Net (CJSON_Delete Cjson_topics)));
         api_do E (Net (CJSON_Delete Cjson_root));
         return (Inl (- ENOMEM))
       }
       else do {
         api_do E (Net (CJSON_CreateString (HOLOGRAM_TOPIC (cfg E))));
         api_do E (Net CJSON_AddItemToArray);
         api_do E (Net (CJSON_AddItemToObject ''t''));
         r \<leftarrow> api E (Net (CJSON_PrintPreallocated (len - 3)));
         let ret = (if flag r then Inr (text_out r @ newlines) else Inl (- ENOMEM));
         api_do E (Net (CJSON_Delete Cjson_root));
         return ret
       }
     }
   }"

text \<open>\<open>strstr(reply, needle) != NULL\<close> on the bytes before the first NUL.\<close>

fun occurs :: "string \<Rightarrow> string \<Rightarrow> bool" where
  "occurs needle [] = (needle = [])"
| "occurs needle (c # s) = (take (length needle) (c # s) = needle \<or> occurs needle s)"

definition reply_text :: "int \<Rightarrow> string \<Rightarrow> string" where
  "reply_text rx received = takeWhile (\<lambda>c. c \<noteq> CHR 0x00) (take (nat rx) received)"

text \<open>From the connected socket to the verdict: \<open>err\<close> at the label \<open>cleanup\<close>.\<close>

definition exchange :: "('a platform_scheme) env \<Rightarrow> int \<Rightarrow> string \<Rightarrow> ('a platform_scheme, int) state" where
  "exchange E fd envelope = do {
     when_do (LTE_LC_RAI_MODULE (cfg E)) (api_do E (Net (Setsockopt fd SO_RAI_ONE_RESP)));
     api_do E (Net (Setsockopt fd (SO_RCVTIMEO_SECONDS REPLY_TIMEOUT_SECONDS)));
     sent \<leftarrow> api E (Net (Send fd envelope));
     if rc sent < 0 then return (- i64 sent)
     else do {
       r \<leftarrow> api E (Net (Recv fd (REPLY_MAX - 1)));
       if rc r > 0 \<and> occurs ''[0,0]'' (reply_text (rc r) (text_out r)) then return 0
       else return (- EIO)
     }
   }"

definition socket_send_envelope ::
  "('a platform_scheme) env \<Rightarrow> string \<Rightarrow> ('a platform_scheme, int) state" where
  "socket_send_envelope E envelope = do {
     g \<leftarrow> api E (Net (Getaddrinfo (HOLOGRAM_HOST (cfg E))));
     if rc g \<noteq> 0 \<or> \<not> flag g then return (- EIO)
     else do {
       s \<leftarrow> api E (Net Socket);
       let fd = rc s;
       err \<leftarrow> (if fd < 0 then return (- i64 s)
               else do {
                 c \<leftarrow> api E (Net (Connect fd (HOLOGRAM_PORT (cfg E))));
                 if rc c \<noteq> 0 then return (- i64 c) else exchange E fd envelope
               });
       when_do (fd \<ge> 0) (api_do E (Net (Close fd)));
       api_do E (Net Freeaddrinfo);
       return err
     }
   }"

definition hologram_send :: "('a platform_scheme) env \<Rightarrow> string \<Rightarrow> ('a platform_scheme, int) state" where
  "hologram_send E inner_json = do {
     b \<leftarrow> build_envelope E inner_json HOLOGRAM_ENVELOPE_MAX;
     (case b of
        Inl err \<Rightarrow> return err
      | Inr envelope \<Rightarrow>
          if TRACKER_OFFLINE_DEBUG (cfg E) then return 0
          else if HOLOGRAM_DEVICE_KEY (cfg E) = ''CHANGEME'' then return (- EACCES)
          else socket_send_envelope E envelope)
   }"

section \<open>cloud_hologram.c\<close>

definition cloud_hologram_init :: "('w, int) state" where "cloud_hologram_init = return 0"
definition cloud_hologram_resume :: "('w, int) state" where "cloud_hologram_resume = return 0"
definition cloud_hologram_pause :: "('w, unit) state" where "cloud_hologram_pause = skip"
definition cloud_hologram_is_ready :: "('w, bool) state" where "cloud_hologram_is_ready = return True"

definition cloud_hologram_send_telemetry ::
  "('a platform_scheme) env \<Rightarrow> string \<Rightarrow> ('a platform_scheme, int) state" where
  "cloud_hologram_send_telemetry E inner_json = hologram_send E inner_json"

definition cloud_hologram_send_location :: "tracker_fix \<Rightarrow> ('w, int) state" where
  "cloud_hologram_send_location fx = return 0"

definition cloud_hologram_supports_agnss :: bool where
  "cloud_hologram_supports_agnss = False"

section \<open>Every descriptor and every list is released\<close>

text \<open>
  Descriptors the main thread has open, address lists and cJSON trees it holds: acquired by the
  calls that return them, released by the ones that free them.
\<close>

fun open_fds :: "event list \<Rightarrow> int list" where
  "open_fds [] = []"
| "open_fds (e # h) = (case ev_call e of
     Net Socket \<Rightarrow> (if rc (ev_resp e) \<ge> 0 then rc (ev_resp e) # open_fds h else open_fds h)
   | Net (Close fd) \<Rightarrow> remove1 fd (open_fds h)
   | _ \<Rightarrow> open_fds h)"

fun held_addrinfo :: "event list \<Rightarrow> int" where
  "held_addrinfo [] = 0"
| "held_addrinfo (e # h) = (case ev_call e of
     Net (Getaddrinfo _) \<Rightarrow> (if rc (ev_resp e) = 0 \<and> flag (ev_resp e) then held_addrinfo h + 1 else held_addrinfo h)
   | Net Freeaddrinfo \<Rightarrow> held_addrinfo h - 1
   | _ \<Rightarrow> held_addrinfo h)"

fun held_json :: "event list \<Rightarrow> int" where
  "held_json [] = 0"
| "held_json (e # h) = (case ev_call e of
     Net CJSON_CreateObject \<Rightarrow> (if flag (ev_resp e) then held_json h + 1 else held_json h)
   | Net CJSON_CreateArray \<Rightarrow> (if flag (ev_resp e) then held_json h + 1 else held_json h)
   | Net (CJSON_AddItemToObject _) \<Rightarrow> (if flag (ev_resp e) then held_json h - 1 else held_json h)
   | Net (CJSON_Delete _) \<Rightarrow> held_json h - 1
   | _ \<Rightarrow> held_json h)"

text \<open>The history in terms of the resources, for an environment whose handlers use none.\<close>

definition net_quiet :: "('a platform_scheme) env \<Rightarrow> bool" where
  "net_quiet E \<longleftrightarrow> (\<forall>c w. open_fds (hist (intr E c w)) = open_fds (hist w) \<and>
     held_addrinfo (hist (intr E c w)) = held_addrinfo (hist w) \<and>
     held_json (hist (intr E c w)) = held_json (hist w))"

lemma net_quiet_api:
  assumes "net_quiet E"
  shows "open_fds (hist (exec (api E c) w)) = (case c of
      Net Socket \<Rightarrow> (if rc (result (api E c) w) \<ge> 0 then rc (result (api E c) w) # open_fds (hist w) else open_fds (hist w))
    | Net (Close fd) \<Rightarrow> remove1 fd (open_fds (hist w))
    | _ \<Rightarrow> open_fds (hist w))"
    and "held_addrinfo (hist (exec (api E c) w)) = (case c of
      Net (Getaddrinfo _) \<Rightarrow> (if rc (result (api E c) w) = 0 \<and> flag (result (api E c) w) then held_addrinfo (hist w) + 1 else held_addrinfo (hist w))
    | Net Freeaddrinfo \<Rightarrow> held_addrinfo (hist w) - 1
    | _ \<Rightarrow> held_addrinfo (hist w))"
    and "held_json (hist (exec (api E c) w)) = (case c of
      Net CJSON_CreateObject \<Rightarrow> (if flag (result (api E c) w) then held_json (hist w) + 1 else held_json (hist w))
    | Net CJSON_CreateArray \<Rightarrow> (if flag (result (api E c) w) then held_json (hist w) + 1 else held_json (hist w))
    | Net (CJSON_AddItemToObject _) \<Rightarrow> (if flag (result (api E c) w) then held_json (hist w) - 1 else held_json (hist w))
    | Net (CJSON_Delete _) \<Rightarrow> held_json (hist w) - 1
    | _ \<Rightarrow> held_json (hist w))"
  using assms by (simp_all add: net_quiet_def hist_api split: call.splits net_call.splits)

lemma exchange_resources:
  assumes "net_quiet E"
  shows "open_fds (hist (exec (exchange E fd s) w)) = open_fds (hist w)"
    and "held_addrinfo (hist (exec (exchange E fd s) w)) = held_addrinfo (hist w)"
  using assms by (simp_all add: exchange_def run_simps net_quiet_api)

lemma socket_send_envelope_releases:
  assumes "net_quiet E"
  shows "open_fds (hist (exec (socket_send_envelope E s) w)) = open_fds (hist w)"
    and "held_addrinfo (hist (exec (socket_send_envelope E s) w)) = held_addrinfo (hist w)"
  using assms
  by (simp_all add: socket_send_envelope_def Let_def run_simps net_quiet_api exchange_resources)

text \<open>
  The envelope's tree is released on every path, provided that attaching the topics works; the one
  path that leaks is the one where it does not.
\<close>

definition attach_works :: "('a platform_scheme) env \<Rightarrow> bool" where
  "attach_works E \<longleftrightarrow> (\<forall>w k. flag (result (api E (Net (CJSON_AddItemToObject k))) w))"

lemma build_envelope_releases:
  assumes "net_quiet E" "attach_works E"
  shows "held_json (hist (exec (build_envelope E s n) w)) = held_json (hist w)"
  using assms
  by (simp add: build_envelope_def add_strings_def Let_def run_simps net_quiet_api attach_works_def)

section \<open>Success means acknowledged\<close>

text \<open>The server's acknowledgement as \<open>recv\<close> returned it.\<close>

definition acked :: "event \<Rightarrow> bool" where
  "acked e \<longleftrightarrow> (\<exists>fd. ev_call e = Net (Recv fd (REPLY_MAX - 1))) \<and> rc (ev_resp e) > 0 \<and>
     occurs ''[0,0]'' (reply_text (rc (ev_resp e)) (text_out (ev_resp e)))"

definition acked_between :: "'a platform_scheme \<Rightarrow> 'a platform_scheme \<Rightarrow> bool" where
  "acked_between w w' \<longleftrightarrow> (\<exists>es. hist w' = es @ hist w \<and> (\<exists>e \<in> set es. acked e))"

text \<open>A failing socket call leaves its reason in \<open>errno\<close>, which is positive.\<close>

definition errno_sound :: "(event list \<Rightarrow> call \<Rightarrow> resp) \<Rightarrow> bool" where
  "errno_sound R \<longleftrightarrow>
     (\<forall>h. rc (R h (Net Socket)) < 0 \<longrightarrow> i64 (R h (Net Socket)) > 0) \<and>
     (\<forall>h fd port. rc (R h (Net (Connect fd port))) \<noteq> 0 \<longrightarrow> i64 (R h (Net (Connect fd port))) > 0) \<and>
     (\<forall>h fd s. rc (R h (Net (Send fd s))) < 0 \<longrightarrow> i64 (R h (Net (Send fd s))) > 0)"

lemma grows_acked:
  "acked_between w v \<Longrightarrow> \<exists>es. hist v' = es @ hist v \<Longrightarrow> acked_between w v'"
  unfolding acked_between_def by auto

lemma acked_grows:
  "\<exists>es. hist w = es @ hist u \<Longrightarrow> acked_between w v \<Longrightarrow> acked_between u v"
  unfolding acked_between_def by auto

context runtime begin

lemma api_grows: "\<exists>es. hist (exec (api E c) w) = es @ hist w"
  using issues_api [of "\<lambda>_. True" c] unfolding issues_def by blast

lemma exchange_acked:
  assumes "errno_sound (reply E)" "result (exchange E fd s) w = 0"
  shows "acked_between w (exec (exchange E fd s) w)"
proof -
  define w1 where "w1 = exec (when_do (LTE_LC_RAI_MODULE (cfg E)) (api_do E (Net (Setsockopt fd SO_RAI_ONE_RESP)))) w"
  define w2 where "w2 = exec (api E (Net (Setsockopt fd (SO_RCVTIMEO_SECONDS REPLY_TIMEOUT_SECONDS)))) w1"
  define w3 where "w3 = exec (api E (Net (Send fd s))) w2"
  define w4 where "w4 = exec (api E (Net (Recv fd (REPLY_MAX - 1)))) w3"
  define se where "se = result (api E (Net (Send fd s))) w2"
  have se: "rc se < 0 \<Longrightarrow> i64 se > 0"
    using assms(1) by (simp add: errno_sound_def se_def result_api)
  have res: "result (exchange E fd s) w = (if rc se < 0 then - i64 se
      else if rc (result (api E (Net (Recv fd (REPLY_MAX - 1)))) w3) > 0 \<and>
        occurs ''[0,0]'' (reply_text (rc (result (api E (Net (Recv fd (REPLY_MAX - 1)))) w3))
         (text_out (result (api E (Net (Recv fd (REPLY_MAX - 1)))) w3))) then 0 else - EIO)"
    and run': "exec (exchange E fd s) w = (if rc se < 0 then w3 else w4)"
    by (simp_all add: exchange_def run_simps se_def w1_def w2_def w3_def w4_def)
  have run: "exec (exchange E fd s) w = w4"
    and ack: "rc (result (api E (Net (Recv fd (REPLY_MAX - 1)))) w3) > 0"
      "occurs ''[0,0]'' (reply_text (rc (result (api E (Net (Recv fd (REPLY_MAX - 1)))) w3))
         (text_out (result (api E (Net (Recv fd (REPLY_MAX - 1)))) w3)))"
    using assms(2) se unfolding res run' by (auto simp: EIO_def split: if_splits)
  have "acked_between w3 w4"
    using ack intr_appends [of "Net (Recv fd (REPLY_MAX - 1))" w3]
    by (auto simp: acked_between_def w4_def hist_api acked_def)
  then have "acked_between w2 w4" using api_grows unfolding w3_def by (rule acked_grows [rotated])
  then have "acked_between w1 w4" using api_grows unfolding w2_def by (rule acked_grows [rotated])
  moreover have "\<exists>es. hist w1 = es @ hist w"
    using api_grows by (simp add: w1_def run_simps)
  ultimately show ?thesis unfolding run by (rule acked_grows [rotated])
qed

lemma socket_send_envelope_acked:
  assumes "errno_sound (reply E)" "result (socket_send_envelope E s) w = 0"
  shows "acked_between w (exec (socket_send_envelope E s) w)"
proof -
  define w1 where "w1 = exec (api E (Net (Getaddrinfo (HOLOGRAM_HOST (cfg E))))) w"
  define so where "so = result (api E (Net Socket)) w1"
  define w2 where "w2 = exec (api E (Net Socket)) w1"
  define co where "co = result (api E (Net (Connect (rc so) (HOLOGRAM_PORT (cfg E))))) w2"
  define w3 where "w3 = exec (api E (Net (Connect (rc so) (HOLOGRAM_PORT (cfg E))))) w2"
  define w4 where "w4 = exec (exchange E (rc so) s) w3"
  define w5 where "w5 = exec (api E (Net (Close (rc so)))) w4"
  define w6 where "w6 = exec (api E (Net Freeaddrinfo)) w5"
  have g: "rc (result (api E (Net (Getaddrinfo (HOLOGRAM_HOST (cfg E))))) w) = 0"
    "flag (result (api E (Net (Getaddrinfo (HOLOGRAM_HOST (cfg E))))) w)"
    using assms(2) by (auto simp: socket_send_envelope_def run_simps EIO_def split: if_splits)
  have so: "rc so < 0 \<Longrightarrow> i64 so > 0" and co: "rc co \<noteq> 0 \<Longrightarrow> i64 co > 0"
    using assms(1) by (auto simp: errno_sound_def so_def co_def result_api)
  have ok: "rc so \<ge> 0" "rc co = 0" "result (exchange E (rc so) s) w3 = 0"
    using assms(2) g so co
    by (auto simp: socket_send_envelope_def Let_def run_simps w1_def [symmetric] so_def [symmetric]
        w2_def [symmetric] co_def [symmetric] w3_def [symmetric] split: if_splits)
  have run: "exec (socket_send_envelope E s) w = w6"
    using g ok by (simp add: socket_send_envelope_def Let_def run_simps w1_def [symmetric]
        so_def [symmetric] w2_def [symmetric] co_def [symmetric] w3_def [symmetric] w4_def [symmetric]
        w5_def [symmetric] w6_def [symmetric])
  have "acked_between w3 w4" unfolding w4_def by (rule exchange_acked [OF assms(1) ok(3)])
  then have "acked_between w2 w4" using api_grows unfolding w3_def by (rule acked_grows [rotated])
  then have "acked_between w1 w4" using api_grows unfolding w2_def by (rule acked_grows [rotated])
  then have "acked_between w w4" using api_grows unfolding w1_def by (rule acked_grows [rotated])
  then have "acked_between w w5" using api_grows unfolding w5_def by (rule grows_acked)
  then show ?thesis using api_grows unfolding run w6_def by (rule grows_acked)
qed

lemma build_envelope_grows: "\<exists>es. hist (exec (build_envelope E s n) w) = es @ hist w"
proof -
  have "issues (\<lambda>_. True) (build_envelope E s n)"
    unfolding build_envelope_def add_strings_def Let_def by (intro issues_rules) simp_all
  then show ?thesis unfolding issues_def by blast
qed

text \<open>
  A message counts as sent only when the server has answered \<open>[0,0]\<close> to it (or the build only
  pretends to send).
\<close>

lemma hologram_send_acked:
  assumes "errno_sound (reply E)" "\<not> TRACKER_OFFLINE_DEBUG (cfg E)"
    and "result (hologram_send E s) w = 0"
  shows "acked_between w (exec (hologram_send E s) w)"
proof (cases "result (build_envelope E s HOLOGRAM_ENVELOPE_MAX) w")
  case (Inl err)
  then have "err = 0" using assms(3) by (simp add: hologram_send_def run_simps)
  with Inl have False
    by (auto simp: build_envelope_def run_simps Let_def ENOMEM_def split: if_splits)
  then show ?thesis ..
next
  case (Inr b)
  let ?v = "exec (build_envelope E s HOLOGRAM_ENVELOPE_MAX) w"
  have key: "HOLOGRAM_DEVICE_KEY (cfg E) \<noteq> ''CHANGEME''"
    using assms Inr by (auto simp: hologram_send_def run_simps EACCES_def)
  have res: "result (socket_send_envelope E b) ?v = 0"
    and run: "exec (hologram_send E s) w = exec (socket_send_envelope E b) ?v"
    using assms Inr key by (simp_all add: hologram_send_def run_simps)
  show ?thesis
    unfolding run by (rule acked_grows [OF build_envelope_grows socket_send_envelope_acked [OF assms(1) res]])
qed

text \<open>cJSON prints only what fits, and room for the two newlines was kept.\<close>

lemma build_envelope_fits:
  assumes "\<And>h n. flag (reply E h (Net (CJSON_PrintPreallocated n))) \<Longrightarrow>
      length (text_out (reply E h (Net (CJSON_PrintPreallocated n)))) < n"
    and "3 < len" "result (build_envelope E s len) w = Inr b"
  shows "length b < len"
  using assms
  by (auto simp: build_envelope_def Let_def run_simps newlines_def result_api split: if_splits)
     fastforce

end

end
