(* ===== verification/Cloud.thy ===== *)
theory Cloud
  imports Hologram
begin

text \<open>
  cloud.h: the interface the application sees.  The build compiles one of the two transports, which
  is the choice on \<open>CONFIG_TRACKER_CLOUD_PROVIDER\<close> here.
\<close>

section \<open>Operations\<close>

definition cloud_init :: "('a cloud_state_scheme) env \<Rightarrow> ('a cloud_state_scheme, int) state" where
  "cloud_init E = (case TRACKER_CLOUD_PROVIDER (cfg E) of
     NrfCloud \<Rightarrow> cloud_nrf_init E | HologramCloud \<Rightarrow> cloud_hologram_init)"

definition cloud_resume :: "('a cloud_state_scheme) env \<Rightarrow> ('a cloud_state_scheme, int) state" where
  "cloud_resume E = (case TRACKER_CLOUD_PROVIDER (cfg E) of
     NrfCloud \<Rightarrow> cloud_nrf_resume E | HologramCloud \<Rightarrow> cloud_hologram_resume)"

definition cloud_pause :: "('a cloud_state_scheme) env \<Rightarrow> ('a cloud_state_scheme, unit) state" where
  "cloud_pause E = (case TRACKER_CLOUD_PROVIDER (cfg E) of
     NrfCloud \<Rightarrow> cloud_nrf_pause E | HologramCloud \<Rightarrow> cloud_hologram_pause)"

definition cloud_is_ready :: "('a cloud_state_scheme) env \<Rightarrow> ('a cloud_state_scheme, bool) state" where
  "cloud_is_ready E = (case TRACKER_CLOUD_PROVIDER (cfg E) of
     NrfCloud \<Rightarrow> cloud_nrf_is_ready | HologramCloud \<Rightarrow> cloud_hologram_is_ready)"

definition cloud_send_telemetry ::
  "('a cloud_state_scheme) env \<Rightarrow> string \<Rightarrow> ('a cloud_state_scheme, int) state" where
  "cloud_send_telemetry E inner_json = (case TRACKER_CLOUD_PROVIDER (cfg E) of
     NrfCloud \<Rightarrow> cloud_nrf_send_telemetry E inner_json
   | HologramCloud \<Rightarrow> cloud_hologram_send_telemetry E inner_json)"

definition cloud_send_location ::
  "('a cloud_state_scheme) env \<Rightarrow> tracker_fix \<Rightarrow> ('a cloud_state_scheme, int) state" where
  "cloud_send_location E fx = (case TRACKER_CLOUD_PROVIDER (cfg E) of
     NrfCloud \<Rightarrow> cloud_nrf_send_location E fx | HologramCloud \<Rightarrow> cloud_hologram_send_location fx)"

definition cloud_supports_agnss :: "config \<Rightarrow> bool" where
  "cloud_supports_agnss C = (case TRACKER_CLOUD_PROVIDER C of
     NrfCloud \<Rightarrow> cloud_nrf_supports_agnss | HologramCloud \<Rightarrow> cloud_hologram_supports_agnss)"

section \<open>The contract of cloud.h\<close>

text \<open>
  \<open>ok\<close> is the transport's own invariant.  The laws are those of the comments: a resume that returns 0
  leaves the link ready, it is safe (and does nothing) when already connected, a pause never makes a
  link ready, and sending does not change whether it is.
\<close>

locale cloud_transport =
  fixes resume :: "('w, int) state"
    and pause :: "('w, unit) state"
    and ready :: "'w \<Rightarrow> bool"
    and send :: "string \<Rightarrow> ('w, int) state"
    and ok :: "'w \<Rightarrow> bool"
  assumes ok_resume: "ok w \<Longrightarrow> ok (exec resume w)"
    and ok_pause: "ok w \<Longrightarrow> ok (exec pause w)"
    and ok_send: "ok w \<Longrightarrow> ok (exec (send s) w)"
    and resume_ready: "ok w \<Longrightarrow> result resume w = 0 \<Longrightarrow> ready (exec resume w)"
    and resume_idle: "ok w \<Longrightarrow> ready w \<Longrightarrow> result resume w = 0 \<and> exec resume w = w"
    and pause_ready: "ready (exec pause w) \<Longrightarrow> ready w"
    and send_ready: "ready (exec (send s) w) = ready w"
begin

text \<open>Sending, resuming and sending again, as a caller would who found the link stale.\<close>

definition send_again :: "(int \<Rightarrow> bool) \<Rightarrow> string \<Rightarrow> ('w, int) state" where
  "send_again stale s = do {
     err \<leftarrow> send s;
     if stale err then do {
       err2 \<leftarrow> resume;
       if err2 = 0 then send s else return err2
     }
     else return err
   }"

text \<open>
  On a link that is ready the resume in between changes nothing: the message is simply sent twice.
\<close>

lemma send_again_twice:
  assumes "ok w" "ready w" "stale (result (send s) w)"
  shows "result (send_again stale s) w = result (send s) (exec (send s) w)"
    and "exec (send_again stale s) w = exec (send s) (exec (send s) w)"
  using assms resume_idle [OF ok_send [OF assms(1)]] by (simp_all add: send_again_def run_simps send_ready)

text \<open>However often it is paused and resumed, a transport that is well stays well.\<close>

definition session_ops :: "('w, int) state list \<Rightarrow> bool" where
  "session_ops ms \<longleftrightarrow> (\<forall>m \<in> set ms. m = resume \<or> (\<exists>s. m = send s))"

lemma session_ops_ok: "session_ops ms \<Longrightarrow> ok w \<Longrightarrow> ok (fold exec ms w)"
  by (induction ms arbitrary: w) (auto simp: session_ops_def ok_resume ok_send)

text \<open>Once ready, sends and resumes leave the link ready.\<close>

lemma session_ops_ready: "session_ops ms \<Longrightarrow> ok w \<Longrightarrow> ready w \<Longrightarrow> ready (fold exec ms w)"
  by (induction ms arbitrary: w)
     (auto simp: session_ops_def ok_resume ok_send resume_idle send_ready)

end

context cloud_runtime begin

lemma cloud_nrf_resume_idle:
  assumes "link_ok (cfg E) w" "link_state w = LINK_CONNECTED"
  shows "result (cloud_nrf_resume E) w = 0 \<and> exec (cloud_nrf_resume E) w = w"
  using assms by (auto simp: cloud_nrf_resume_def run_simps link_ok_def)

end

sublocale cloud_runtime \<subseteq> nrf: cloud_transport "cloud_nrf_resume E" "cloud_nrf_pause E"
  "\<lambda>w. link_state w = LINK_CONNECTED" "cloud_nrf_send_telemetry E" "link_ok (cfg E)"
proof unfold_locales
  fix w s
  show "link_ok (cfg E) w \<Longrightarrow> link_ok (cfg E) (exec (cloud_nrf_send_telemetry E s) w)"
    by (simp add: link_ok_def)
  show "link_state (exec (cloud_nrf_pause E) w) = LINK_CONNECTED \<Longrightarrow> link_state w = LINK_CONNECTED"
    using cloud_nrf_pause_link(1) [of w] by auto
qed (simp_all add: cloud_nrf_resume_result cloud_nrf_pause_link cloud_nrf_resume_idle)

sublocale cloud_runtime \<subseteq> hologram: cloud_transport cloud_hologram_resume cloud_hologram_pause
  "\<lambda>_. True" "cloud_hologram_send_telemetry E" "\<lambda>_. True"
  by unfold_locales (simp_all add: cloud_hologram_resume_def)

text \<open>The application's view, whichever transport is compiled in.\<close>

definition cloud_ok :: "config \<Rightarrow> 'b cloud_state_scheme \<Rightarrow> bool" where
  "cloud_ok C w \<longleftrightarrow> TRACKER_CLOUD_PROVIDER C = NrfCloud \<longrightarrow> link_ok C w"

context cloud_runtime begin

lemma cloud_resume_ready:
  "cloud_ok (cfg E) w \<Longrightarrow> result (cloud_resume E) w = 0 \<Longrightarrow> result (cloud_is_ready E) (exec (cloud_resume E) w)"
  by (cases "TRACKER_CLOUD_PROVIDER (cfg E)")
     (simp_all add: cloud_ok_def cloud_resume_def cloud_is_ready_def cloud_nrf_is_ready_def
        cloud_hologram_is_ready_def run_simps nrf.resume_ready)

lemma hologram_rx [advances_rules]:
  "advances rx_same (hologram_send E s)"
  unfolding hologram_send_def build_envelope_def add_strings_def socket_send_envelope_def exchange_def Let_def
  by (intro advances_rules; simp)

lemma cloud_rx [advances_rules]:
  "advances rx_same (cloud_init E)" "advances rx_same (cloud_resume E)"
  "advances rx_same (cloud_pause E)" "advances rx_same (cloud_send_telemetry E s)"
  "advances rx_same (cloud_send_location E fx)" "advances rx_same (cloud_is_ready E)"
  unfolding cloud_init_def cloud_resume_def cloud_pause_def cloud_send_telemetry_def
    cloud_send_location_def cloud_is_ready_def cloud_hologram_init_def cloud_hologram_resume_def
    cloud_hologram_pause_def cloud_hologram_send_telemetry_def cloud_hologram_send_location_def
    cloud_hologram_is_ready_def
  by (cases "TRACKER_CLOUD_PROVIDER (cfg E)"; simp; intro advances_rules; simp)+

end

end
