(* ===== verification/Agnss.thy ===== *)
theory Agnss
  imports Cloud
begin

text \<open>
  agnss.c: downloading assistance and injecting it into the modem's receiver.  \<open>last_fetch_uptime_ms\<close>
  limits how often.  Without \<open>CONFIG_TRACKER_AGNSS\<close> the header's stub answers.
\<close>

section \<open>strtol\<close>

text \<open>The value of a character as a digit of a base up to 16.\<close>

definition digit_in :: "nat \<Rightarrow> char \<Rightarrow> nat option" where
  "digit_in base c =
    (let n = of_char c :: nat;
         d = (if 48 \<le> n \<and> n \<le> 57 then n - 48
              else if 97 \<le> n \<and> n \<le> 102 then n - 87
              else if 65 \<le> n \<and> n \<le> 70 then n - 55
              else base)
     in if d < base then Some d else None)"

fun strtol_digits :: "nat \<Rightarrow> int \<Rightarrow> string \<Rightarrow> int" where
  "strtol_digits base acc [] = acc"
| "strtol_digits base acc (c # s) =
     (case digit_in base c of None \<Rightarrow> acc | Some d \<Rightarrow> strtol_digits base (acc * int base + int d) s)"

text \<open>C's \<open>strtol(s, NULL, base)\<close> for a 32-bit \<open>long\<close>: blanks, a sign, \<open>0x\<close>, digits; it saturates.\<close>

definition strtol :: "nat \<Rightarrow> string \<Rightarrow> int" where
  "strtol base s =
    (let s1 = dropWhile (\<lambda>c. c \<in> {CHR '' '', CHR 0x09, CHR 0x0A, CHR 0x0B, CHR 0x0C, CHR 0x0D}) s;
         neg = (take 1 s1 = ''-'');
         s2 = (if take 1 s1 = ''-'' \<or> take 1 s1 = ''+'' then drop 1 s1 else s1);
         s3 = (if base = 16 \<and> (take 2 s2 = ''0x'' \<or> take 2 s2 = ''0X'') \<and>
                  s2 \<noteq> take 2 s2 \<and> digit_in 16 (s2 ! 2) \<noteq> None
               then drop 2 s2 else s2);
         v = strtol_digits base 0 s3
     in max (- (2 ^ 31)) (min (2 ^ 31 - 1) (if neg then - v else v)))"

section \<open>State and operations\<close>

record agnss_state = cloud_state +
  last_fetch_uptime_ms :: int

text \<open>\<open>id\<close> and \<open>tac\<close> are \<open>uint32_t\<close>; the rest of a cell is zero.\<close>

definition serving_cell_info_get ::
  "('a agnss_state_scheme) env \<Rightarrow> ('a agnss_state_scheme, int + lte_cell) state" where
  "serving_cell_info_get E = do {
     let cell0 = \<lparr>cell_id = LTE_LC_CELL_EUTRAN_ID_MAX (sdk E), cell_tac = 0, cell_mcc = 0,
       cell_mnc = 0, cell_rsrp = LTE_LC_CELL_RSRP_INVALID (sdk E)\<rparr>;
     i \<leftarrow> api E (Modem (Modem_info_string_get MODEM_INFO_CELLID));
     if rc i < 0 then return (Inl (rc i))
     else do {
       let cell1 = cell0\<lparr>cell_id := uint (to_u32 (strtol 16 (text_out i)))\<rparr>;
       a \<leftarrow> api E (Modem (Modem_info_string_get MODEM_INFO_AREA_CODE));
       if rc a < 0 then return (Inl (rc a))
       else do {
         let cell2 = cell1\<lparr>cell_tac := uint (to_u32 (strtol 16 (text_out a)))\<rparr>;
         p \<leftarrow> api E (Modem (Modem_info_string_get MODEM_INFO_OPERATOR));
         if rc p < 0 then return (Inl (rc p))
         else return (Inr (cell2\<lparr>cell_mnc := strtol 10 (drop 3 (text_out p)),
                cell_mcc := strtol 10 (take 3 (text_out p))\<rparr>))
       }
     }
   }"

text \<open>Everything but ephemerides and almanacs.\<close>

definition all_data_flags :: "sdk_consts \<Rightarrow> u32" where
  "all_data_flags S = (NRF_MODEM_GNSS_AGNSS_GPS_UTC_REQUEST S OR
     NRF_MODEM_GNSS_AGNSS_KLOBUCHAR_REQUEST S OR
     NRF_MODEM_GNSS_AGNSS_NEQUICK_REQUEST S OR
     NRF_MODEM_GNSS_AGNSS_GPS_SYS_TIME_AND_SV_TOW_REQUEST S OR
     NRF_MODEM_GNSS_AGNSS_POSITION_REQUEST S OR
     NRF_MODEM_GNSS_AGNSS_INTEGRITY_REQUEST S)"

definition synthesize_request :: "sdk_consts \<Rightarrow> agnss_frame" where
  "synthesize_request S = \<lparr>data_flags = all_data_flags S, system_count = 1,
     system = [\<lparr>system_id = NRF_MODEM_GNSS_SYSTEM_GPS S, sv_mask_ephe = 0xFFFFFFFF,
                sv_mask_alm = 0xFFFFFFFF\<rparr>]\<rparr>"

definition rate_limited :: "('a agnss_state_scheme) env \<Rightarrow> ('a agnss_state_scheme, bool) state" where
  "rate_limited E = do {
     last \<leftarrow> gets last_fetch_uptime_ms;
     if last = 0 then return False
     else do {
       now \<leftarrow> k_uptime_get E;
       return (\<not> c_div (now - last) 1000 \<ge> int (TRACKER_AGNSS_MIN_INTERVAL_SECONDS (cfg E)))
     }
   }"

text \<open>What to ask for: \<open>None\<close> when the modem asked for nothing and the fallback is off.\<close>

definition request_frame :: "config \<Rightarrow> sdk_consts \<Rightarrow> agnss_frame option \<Rightarrow> agnss_frame option" where
  "request_frame C S asked = (case asked of
     None \<Rightarrow> (if \<not> TRACKER_AGNSS_FULL_REQUEST_FALLBACK C then None else Some (synthesize_request S))
   | Some req \<Rightarrow> (if data_flags req \<noteq> 0 then Some (req\<lparr>data_flags := all_data_flags S\<rparr>) else Some req))"

text \<open>\<open>fetch_and_inject\<close> from the download on.\<close>

definition download_and_inject ::
  "('a agnss_state_scheme) env \<Rightarrow> agnss_request \<Rightarrow> ('a agnss_state_scheme, int) state" where
  "download_and_inject E request = do {
     r \<leftarrow> api E (Cloud (Coap_agnss_data_get request));
     if rc r \<noteq> 0 then return (if rc r < 0 then rc r else - EIO)
     else do {
       err \<leftarrow> api_rc E (Cloud (Agnss_process (bytes r)));
       if err \<noteq> 0 then return err
       else do {
         now \<leftarrow> k_uptime_get E;
         modify (\<lambda>w. w\<lparr>last_fetch_uptime_ms := now\<rparr>);
         return 0
       }
     }
   }"

definition fetch_and_inject :: "('a agnss_state_scheme) env \<Rightarrow> ('a agnss_state_scheme, int) state" where
  "fetch_and_inject E = do {
     asked \<leftarrow> gnss_modem_agnss_request_get E;
     (case request_frame (cfg E) (sdk E) asked of
        None \<Rightarrow> return (- EAGAIN)
      | Some req \<Rightarrow> do {
          cell \<leftarrow> serving_cell_info_get E;
          download_and_inject E \<lparr>rq_agnss_req = req,
            rq_net_info = (case cell of Inl _ \<Rightarrow> None | Inr c \<Rightarrow> Some c),
            rq_filtered = NRF_CLOUD_AGNSS_FILTERED (cfg E),
            rq_mask_angle = NRF_CLOUD_AGNSS_ELEVATION_MASK (cfg E)\<rparr>
        })
   }"

text \<open>Without \<open>TRACKER_AGNSS\<close> the inline function of agnss.h takes the place of the module's.\<close>

abbreviation (input) agnss_fetch_and_inject_stub :: "('w, int) state" where
  "agnss_fetch_and_inject_stub \<equiv> return (- ENOTSUP)"

definition agnss_fetch_and_inject :: "('a agnss_state_scheme) env \<Rightarrow> ('a agnss_state_scheme, int) state" where
  "agnss_fetch_and_inject E =
    (if \<not> TRACKER_AGNSS (cfg E) then agnss_fetch_and_inject_stub
     else do {
       let stopped = TRACKER_AGNSS_STOP_GNSS_DURING_FETCH (cfg E);
       limited \<leftarrow> rate_limited E;
       if limited then return (- EAGAIN)
       else do {
         when_do stopped (gnss_modem_stop E);
         watchdog_guard_start E (word_of_nat (TRACKER_AGNSS_BUDGET_SECONDS (cfg E)));
         err \<leftarrow> fetch_and_inject E;
         watchdog_guard_stop E;
         restart \<leftarrow> (if stopped then gnss_modem_start E else return 0);
         if restart \<noteq> 0 then return (- EIO) else return err
       }
     })"

section \<open>The interface\<close>

locale agnss_runtime = cloud_runtime E for E :: "('a agnss_state_scheme) env" +
  assumes intr_agnss: "last_fetch_uptime_ms (intr E c w) = last_fetch_uptime_ms w"
begin

lemma api_agnss [simp]: "last_fetch_uptime_ms (exec (api E c) w) = last_fetch_uptime_ms w"
  by (simp add: api_simps intr_agnss)

text \<open>A declined request leaves the receiver running: nothing but the clock was asked.\<close>

lemma rate_limited_result:
  "result (rate_limited E) w \<longleftrightarrow> last_fetch_uptime_ms w \<noteq> 0 \<and>
     c_div (result (k_uptime_get E) w - last_fetch_uptime_ms w) 1000 <
       int (TRACKER_AGNSS_MIN_INTERVAL_SECONDS (cfg E))"
  by (auto simp: rate_limited_def run_simps)

lemma rate_limited_issues [issues_rules]: "A (Kern K_uptime_get) \<Longrightarrow> issues A (rate_limited E)"
  unfolding rate_limited_def by (intro issues_rules) auto

lemma agnss_limited:
  assumes "TRACKER_AGNSS (cfg E)" "result (rate_limited E) w"
  shows "result (agnss_fetch_and_inject E) w = - EAGAIN"
    and "exec (agnss_fetch_and_inject E) w = exec (rate_limited E) w"
  using assms by (simp_all add: agnss_fetch_and_inject_def Let_def run_simps)

text \<open>The limit in milliseconds: declined exactly while less than the interval has passed.\<close>

lemma rate_limited_window:
  assumes "0 < TRACKER_AGNSS_MIN_INTERVAL_SECONDS (cfg E)"
  shows "result (rate_limited E) w \<longleftrightarrow> last_fetch_uptime_ms w \<noteq> 0 \<and>
     result (k_uptime_get E) w - last_fetch_uptime_ms w <
       int (TRACKER_AGNSS_MIN_INTERVAL_SECONDS (cfg E)) * 1000"
  using assms by (simp add: rate_limited_result c_div_less_iff)

text \<open>Success: data were downloaded and injected, and the time of it was noted.\<close>

lemma download_and_inject_result:
  "result (download_and_inject E rq) w \<noteq> 0 \<Longrightarrow>
     last_fetch_uptime_ms (exec (download_and_inject E rq) w) = last_fetch_uptime_ms w"
  by (auto simp: download_and_inject_def run_simps)

lemma rq_not_asked:
  "request_frame C S None = None \<longleftrightarrow> \<not> TRACKER_AGNSS_FULL_REQUEST_FALLBACK C"
  "\<exists>req'. request_frame C S (Some req) = Some req' \<and> system req' = system req \<and>
     (data_flags req' = 0 \<longleftrightarrow> data_flags req = 0 \<or> all_data_flags S = 0)"
  by (auto simp: request_frame_def)

lemma fetch_and_inject_rx [advances_rules]: "advances rx_same (fetch_and_inject E)"
  unfolding fetch_and_inject_def serving_cell_info_get_def download_and_inject_def k_uptime_get_def Let_def
  by (intro advances_rules; simp add: rx_same_fields)

lemma guard_rx [advances_rules]:
  "advances rx_same (watchdog_guard_start E b)" "advances rx_same (watchdog_guard_stop E)"
  "advances rx_same (rate_limited E)"
  unfolding watchdog_guard_start_def watchdog_guard_stop_def rate_limited_def k_uptime_get_def
  by (intro advances_rules; simp add: rx_same_fields)+

text \<open>
  Whatever the download did, the modem's receiver is running again afterwards if it was before, or
  the call says so with \<open>-EIO\<close>.
\<close>

lemma agnss_fetch_and_inject_receiver:
  assumes "modem_running (hist w)"
  shows "modem_running (hist (exec (agnss_fetch_and_inject E) w)) \<or>
    result (agnss_fetch_and_inject E) w = - EIO"
  using assms modem_start_running
  by (auto simp: agnss_fetch_and_inject_def Let_def run_simps advances_rx(2) [OF guard_rx(1)]
      advances_rx(2) [OF guard_rx(2)] advances_rx(2) [OF guard_rx(3)]
      advances_rx(2) [OF fetch_and_inject_rx])

text \<open>The receivers' invariant survives, if the modem's receiver is the active one.\<close>

lemma agnss_fetch_and_inject_rx_ok:
  assumes "rx_ok w" "active w = TRACKER_FIX_SOURCE_MODEM"
  shows "rx_ok (exec (agnss_fetch_and_inject E) w)"
    and "active (exec (agnss_fetch_and_inject E) w) = TRACKER_FIX_SOURCE_MODEM"
    and "external_usable (exec (agnss_fetch_and_inject E) w) = external_usable w"
  using assms
  by (auto simp: agnss_fetch_and_inject_def Let_def run_simps advances_rx [OF guard_rx(1)]
      advances_rx [OF guard_rx(2)] advances_rx [OF guard_rx(3)]
      advances_rx [OF fetch_and_inject_rx] modem_ops_rx_ok)

end

interpretation isr_agnss: agnss_runtime "isr_env E" for E
  by unfold_locales simp_all

end
