(* ===== verification/Startup.thy ===== *)
theory Startup
  imports Agnss
begin

text \<open>startup.c: the hook the modem library runs at the end of its initialisation.\<close>

definition AUXANTCFG_ENABLE :: string where
  "AUXANTCFG_ENABLE = ''AT%XANTCFG=1''"

definition on_modem_lib_init :: "('a platform_scheme) env \<Rightarrow> int \<Rightarrow> ('a platform_scheme, unit) state" where
  "on_modem_lib_init E ret =
    (if \<not> BOARD_CIRCUITDOJO_FEATHER_NRF9151 (cfg E) \<or> ret \<noteq> 0 then skip
     else api_do E (Modem (Nrf_modem_at_printf AUXANTCFG_ENABLE)))"

text \<open>\<open>nrf_modem_lib_init()\<close> with the hook it calls.\<close>

definition modem_lib_init :: "('a platform_scheme) env \<Rightarrow> ('a platform_scheme, int) state" where
  "modem_lib_init E = do {
     err \<leftarrow> api_rc E (Modem Nrf_modem_lib_init);
     on_modem_lib_init E err;
     return err
   }"

lemma modem_lib_init_rx: "gnss_runtime E \<Longrightarrow> advances rx_same (modem_lib_init E)"
  unfolding modem_lib_init_def on_modem_lib_init_def
  by (intro advances_rules gnss_runtime.advances_api_rx) simp_all

end
