(* ===== verification/Tracker.thy ===== *)
theory Tracker
  imports Startup
begin

text \<open>
  main.c: the report cycle.  \<open>main\<close> is split where the source has its comments: boot, one pass of the
  outer loop (\<open>cycle\<close>), the acquisition of the first fix, the frequent loop and the battery sleep.
  \<open>sys_reboot\<close> does not return, so functions that may call it say whether they did.  The frequent
  loop runs as long as there is power, so it takes fuel.
\<close>

section \<open>State\<close>

record tracker_state = agnss_state +
  last_send_uptime :: int
  modem_bounced :: bool
  battery_sleeps :: u32

section \<open>Connectivity\<close>

datatype lte_lc_evt = LTE_LC_EVT_NW_REG_STATUS nw_reg_status | LTE_LC_EVT_OTHER

definition registered :: "nw_reg_status \<Rightarrow> bool" where
  "registered s \<longleftrightarrow> s = LTE_LC_NW_REG_REGISTERED_HOME \<or> s = LTE_LC_NW_REG_REGISTERED_ROAMING"

definition lte_handler :: "('a tracker_state_scheme) env \<Rightarrow> lte_lc_evt \<Rightarrow> ('a tracker_state_scheme, unit) state" where
  "lte_handler E evt = (case evt of
     LTE_LC_EVT_NW_REG_STATUS s \<Rightarrow> when_do (registered s) (api_do E (Kern (K_sem_give Lte_connected_sem)))
   | LTE_LC_EVT_OTHER \<Rightarrow> skip)"

definition lte_is_registered :: "('a tracker_state_scheme) env \<Rightarrow> ('a tracker_state_scheme, bool) state" where
  "lte_is_registered E = do {
     r \<leftarrow> api E (Modem Lte_lc_nw_reg_status_get);
     return (rc r = 0 \<and> registered (reg_status r))
   }"

definition lte_ensure_connected :: "('a tracker_state_scheme) env \<Rightarrow> ('a tracker_state_scheme, int) state" where
  "lte_ensure_connected E = do {
     reg \<leftarrow> lte_is_registered E;
     if reg then return 0
     else do {
       api_do E (Kern (K_sem_reset Lte_connected_sem));
       err \<leftarrow> api_rc E (Modem Lte_lc_connect_async);
       if err \<noteq> 0 \<and> err \<noteq> - EINPROGRESS then return err
       else do {
         err2 \<leftarrow> api_rc E (Kern (K_sem_take Lte_connected_sem (TRACKER_LTE_CONNECT_TIMEOUT_SECONDS (cfg E) * 1000)));
         if err2 \<noteq> 0 then return (- ETIMEDOUT) else return 0
       }
     }
   }"

section \<open>Decisions\<close>

definition surge_active :: "('a tracker_state_scheme) env \<Rightarrow> bool \<Rightarrow> ('a tracker_state_scheme, bool) state" where
  "surge_active E motion_cycle =
    (if \<not> motion_cycle \<or> \<not> TRACKER_MOTION_WAKE (cfg E) then return False
     else do {
       last \<leftarrow> motion_last_event_uptime E;
       if last = 0 then return False
       else do {
         now \<leftarrow> k_uptime_get E;
         return (now - last < int (TRACKER_MOTION_SURGE_SECONDS (cfg E)) * 1000)
       }
     })"

definition agnss_wanted :: "('a tracker_state_scheme) env \<Rightarrow> ('a tracker_state_scheme, bool) state" where
  "agnss_wanted E = do {
     src \<leftarrow> gnss_active_source;
     ready \<leftarrow> cloud_is_ready E;
     return (TRACKER_AGNSS (cfg E) \<and> \<not> TRACKER_SKIP_LTE (cfg E) \<and> src = TRACKER_FIX_SOURCE_MODEM \<and>
             cloud_supports_agnss (cfg E) \<and> ready)
   }"

definition vbus_or_surge :: "('a tracker_state_scheme) env \<Rightarrow> bool \<Rightarrow> ('a tracker_state_scheme, bool) state" where
  "vbus_or_surge E motion_cycle = do {
     p \<leftarrow> power_vbus_present E;
     if p then return True else surge_active E motion_cycle
   }"

text \<open>\<open>led_pattern()\<close>: solid only when externally powered and full.\<close>

definition led_pattern :: "('a tracker_state_scheme) env \<Rightarrow> ('a tracker_state_scheme, tracker_led_pattern) state" where
  "led_pattern E =
    (if \<not> TRACKER_STATUS_LED (cfg E) then return TRACKER_LED_SOLID
     else do {
       p \<leftarrow> power_vbus_present E;
       if \<not> p then return TRACKER_LED_BATTERY
       else do {
         r \<leftarrow> power_read E;
         return (case r of
             Inl _ \<Rightarrow> TRACKER_LED_CHARGING
           | Inr (batt_mv, charge) \<Rightarrow>
               (if charge = TRACKER_CHARGE_FULL \<or>
                   unat (telemetry_battery_percent batt_mv) > TRACKER_STATUS_LED_FULL_PERCENT (cfg E)
                then TRACKER_LED_SOLID else TRACKER_LED_CHARGING))
       }
     })"

definition status_led_report :: "('a tracker_state_scheme) env \<Rightarrow> bool \<Rightarrow> ('a tracker_state_scheme, unit) state" where
  "status_led_report E have_fix = do {
     lte \<leftarrow> (if TRACKER_SKIP_LTE (cfg E) then return True else lte_is_registered E);
     status_led_set E (if \<not> lte then TRACKER_STATUS_NO_LTE
       else if have_fix then TRACKER_STATUS_LTE_FIX else TRACKER_STATUS_LTE_NO_FIX);
     p \<leftarrow> led_pattern E;
     status_led_pattern E p
   }"

section \<open>Reporting\<close>

text \<open>The telemetry of a report; a NULL fix is \<open>None\<close>.\<close>

definition collect_telemetry :: "('a tracker_state_scheme) env \<Rightarrow> tracker_fix option \<Rightarrow> u32 \<Rightarrow>
    tracker_wake_reason \<Rightarrow> ('a tracker_state_scheme, tracker_telemetry) state" where
  "collect_telemetry E fx wake_uptime_ms wake_reason = do {
     now \<leftarrow> k_uptime_get E;
     p \<leftarrow> power_read E;
     r \<leftarrow> api E (Modem Modem_info_get_rsrp);
     return \<lparr>tm_longitude = (case fx of Some f \<Rightarrow> longitude f | None \<Rightarrow> 0),
       tm_latitude = (case fx of Some f \<Rightarrow> latitude f | None \<Rightarrow> 0),
       tm_hdop = (case fx of Some f \<Rightarrow> hdop f | None \<Rightarrow> 0),
       tm_batt_mv = (case p of Inr (mv, _) \<Rightarrow> mv | Inl _ \<Rightarrow> 0),
       tm_charge = (case p of Inr (_, c) \<Rightarrow> c | Inl _ \<Rightarrow> TRACKER_CHARGE_DISCHARGING),
       tm_signal_dbm = (if rc r \<noteq> 0 then 0 else val1 r),
       tm_awake_s = to_u32 (c_div (now - uint wake_uptime_ms) 1000),
       tm_wake = wake_reason\<rparr>
   }"

definition link_stale :: "int \<Rightarrow> bool" where
  "link_stale err \<longleftrightarrow> err = - EACCES \<or> err = - ENOTCONN"

text \<open>Send; if the link looks stale, bring it up once and send again.\<close>

definition send_payload :: "('a tracker_state_scheme) env \<Rightarrow> string \<Rightarrow> ('a tracker_state_scheme, int) state" where
  "send_payload E payload = do {
     err \<leftarrow> cloud_send_telemetry E payload;
     if link_stale err then do {
       watchdog_guard_start E (word_of_nat (TRACKER_CLOUD_CONNECT_BUDGET_SECONDS (cfg E)));
       err2 \<leftarrow> cloud_resume E;
       watchdog_guard_stop E;
       if err2 = 0 then cloud_send_telemetry E payload else return err2
     }
     else return err
   }"

definition report_fix :: "('a tracker_state_scheme) env \<Rightarrow> tracker_fix option \<Rightarrow> u32 \<Rightarrow>
    tracker_wake_reason \<Rightarrow> ('a tracker_state_scheme, int) state" where
  "report_fix E fx wake_uptime_ms wake_reason = do {
     t \<leftarrow> collect_telemetry E fx wake_uptime_ms wake_reason;
     watchdog_phase TRACKER_PHASE_REPORT;
     (n, payload) \<leftarrow> telemetry_build_json E t 256;
     if n < 0 then return (- ENOMEM)
     else do {
       err \<leftarrow> send_payload E payload;
       when_do (err = 0) (do {
         now \<leftarrow> k_uptime_get E;
         modify (\<lambda>w. w\<lparr>last_send_uptime := now\<rparr>)
       });
       (case fx of
          Some f \<Rightarrow> when_do (err = 0) (ignore (cloud_send_location E f))
        | None \<Rightarrow> skip);
       watchdog_feed E;
       return err
     }
   }"

section \<open>Recovery and sleep\<close>

text \<open>The result says whether it rebooted (and did not return).\<close>

definition recover_if_silent :: "('a tracker_state_scheme) env \<Rightarrow> ('a tracker_state_scheme, bool) state" where
  "recover_if_silent E = do {
     now \<leftarrow> k_uptime_get E;
     last \<leftarrow> gets last_send_uptime;
     let quiet_min = c_div (now - last) 60000;
     if quiet_min < int (TRACKER_MODEM_RECOVERY_MINUTES (cfg E)) then do {
       modify (\<lambda>w. w\<lparr>modem_bounced := False\<rparr>);
       return False
     }
     else if quiet_min \<ge> int (TRACKER_REBOOT_MINUTES (cfg E)) then do {
       watchdog_phase TRACKER_PHASE_NO_NETWORK;
       api_do E (Kern (K_sleep 200));
       api_do E (Kern Sys_reboot);
       return True
     }
     else do {
       bounced \<leftarrow> gets modem_bounced;
       if bounced then return False
       else do {
         modify (\<lambda>w. w\<lparr>modem_bounced := True\<rparr>);
         api_do E (Modem (Lte_lc_func_mode_set LTE_LC_FUNC_MODE_OFFLINE));
         api_do E (Kern (K_sleep 1000));
         api_do E (Modem (Lte_lc_func_mode_set LTE_LC_FUNC_MODE_NORMAL));
         return False
       }
     }
   }"

definition battery_sleep :: "('a tracker_state_scheme) env \<Rightarrow> ('a tracker_state_scheme, tracker_wake_reason) state" where
  "battery_sleep E = do {
     arm \<leftarrow> gets (\<lambda>w. battery_sleeps w \<ge> word_of_nat (TRACKER_MOTION_SETTLE_CYCLES (cfg E)));
     watchdog_phase TRACKER_PHASE_LED_SLEEP;
     status_led_sleep E;
     watchdog_phase TRACKER_PHASE_MOTION_ARM;
     motion_set_armed E arm;
     when_do (\<not> arm) (modify (battery_sleeps_update (\<lambda>n. n + 1)));
     watchdog_phase TRACKER_PHASE_SLEEP;
     wake_wait E (TRACKER_SLEEP_SECONDS (cfg E))
   }"

text \<open>How long ago the last report was, at the clock reading a function starts with.\<close>

definition silence_ms :: "('a tracker_state_scheme) env \<Rightarrow> 'a tracker_state_scheme \<Rightarrow> int" where
  "silence_ms E w = result (k_uptime_get E) w - last_send_uptime w"

section \<open>The interface\<close>

locale tracker_runtime = agnss_runtime E for E :: "('a tracker_state_scheme) env" +
  assumes intr_tracker: "last_send_uptime (intr E c w) = last_send_uptime w"
      "modem_bounced (intr E c w) = modem_bounced w" "battery_sleeps (intr E c w) = battery_sleeps w"
begin

lemma api_tracker [simp]:
  "last_send_uptime (exec (api E c) w) = last_send_uptime w"
  "modem_bounced (exec (api E c) w) = modem_bounced w"
  "battery_sleeps (exec (api E c) w) = battery_sleeps w"
  by (simp_all add: api_simps intr_tracker)

text \<open>What touches no receiver: everything here but what names one.\<close>

lemma tracker_rx [advances_rules]:
  "advances rx_same (lte_is_registered E)" "advances rx_same (lte_ensure_connected E)"
  "advances rx_same (power_vbus_present E)" "advances rx_same (power_read E)"
  "advances rx_same (motion_last_event_uptime E)" "advances rx_same (motion_set_armed E arm)"
  "advances rx_same (k_uptime_get E)" "advances rx_same (watchdog_phase p)"
  "advances rx_same (status_led_set E st)" "advances rx_same (status_led_pattern E pat)"
  "advances rx_same (wake_wait E t)"
  unfolding lte_is_registered_def lte_ensure_connected_def power_vbus_present_def
    read_vbus_present_def power_read_def motion_last_event_uptime_def motion_set_armed_def
    k_uptime_get_def watchdog_phase_def atomic_defs Let_def wake_wait_def wake_take_def
    status_led_set_def status_led_pattern_def stop_blink_def apply_led_def set_channel_def
    reschedule_blink_def
  by (intro advances_rules; simp add: rx_same_fields)+

lemma tracker_rx2 [advances_rules]:
  "advances rx_same (surge_active E mc)" "advances rx_same (agnss_wanted E)"
  "advances rx_same (vbus_or_surge E mc)" "advances rx_same (led_pattern E)"
  "advances rx_same (status_led_report E b)" "advances rx_same (status_led_sleep E)"
  "advances rx_same (collect_telemetry E fx t r)" "advances rx_same (telemetry_build_json E tm len)"
  "advances rx_same (send_payload E s)" "advances rx_same (recover_if_silent E)"
  "advances rx_same (battery_sleep E)"
  unfolding surge_active_def agnss_wanted_def vbus_or_surge_def led_pattern_def
    status_led_report_def status_led_sleep_def collect_telemetry_def telemetry_build_json_def
    watchdog_reset_phase_def send_payload_def recover_if_silent_def battery_sleep_def Let_def
  by (intro advances_rules; simp add: rx_same_fields)+

lemma report_fix_rx [advances_rules]: "advances rx_same (report_fix E fx t r)"
  unfolding report_fix_def
  by (intro advances_rules; simp add: rx_same_fields)

text \<open>The tracker's own variables change only where main.c assigns them.\<close>

lemma advances_api_tracker [advances_rules]:
  "advances (same last_send_uptime) (api E c)" "advances (same last_send_uptime) (api_rc E c)"
  "advances (same last_send_uptime) (api_flag E c)" "advances (same last_send_uptime) (api_do E c)"
  "advances (same battery_sleeps) (api E c)" "advances (same battery_sleeps) (api_rc E c)"
  "advances (same battery_sleeps) (api_flag E c)" "advances (same battery_sleeps) (api_do E c)"
  by (intro advances_api_same; simp)+

lemma modem_time_loop_same:
  "advances (same last_send_uptime) (modem_time_loop E waited)"
  by (rule modem_time_loop_advances) (simp_all add: advances_rules, simp add: same_def)

lemma advances_case_provider:
  "advances R m \<Longrightarrow> advances R n \<Longrightarrow>
   advances R (case p of NrfCloud \<Rightarrow> m | HologramCloud \<Rightarrow> n)"
  by (cases p) simp_all

lemma cloud_same:
  "advances (same last_send_uptime) (cloud_send_telemetry E s)"
  "advances (same last_send_uptime) (cloud_send_location E fx)"
  "advances (same last_send_uptime) (cloud_resume E)"
  unfolding cloud_send_telemetry_def cloud_send_location_def cloud_resume_def
    cloud_nrf_send_telemetry_def cloud_hologram_send_telemetry_def hologram_send_def
    build_envelope_def add_strings_def socket_send_envelope_def exchange_def
    cloud_nrf_send_location_def cloud_hologram_send_location_def cloud_nrf_resume_def
    cloud_nrf_connect_def cloud_hologram_resume_def modem_time_wait_def Let_def
  by (intro advances_rules advances_case_provider modem_time_loop_same; simp add: same_def)+

lemma send_payload_same: "advances (same last_send_uptime) (send_payload E s)"
  unfolding send_payload_def watchdog_guard_start_def watchdog_guard_stop_def watchdog_feed_def
  by (intro advances_rules cloud_same; simp add: same_def)

lemma collect_telemetry_same: "advances (same last_send_uptime) (collect_telemetry E fx t r)"
  unfolding collect_telemetry_def k_uptime_get_def power_read_def Let_def
  by (intro advances_rules; simp add: same_def)

lemma watchdog_same:
  "advances (same last_send_uptime) (watchdog_phase p)" "advances (same last_send_uptime) (watchdog_feed E)"
  unfolding watchdog_phase_def watchdog_feed_def
  by (intro advances_rules; simp add: same_def)+

lemmas sends_same = cloud_same send_payload_same collect_telemetry_same watchdog_same

text \<open>A report that fails leaves the time of the last successful one alone.\<close>

lemma report_fix_failed:
  "result (report_fix E fx t r) w \<noteq> 0 \<Longrightarrow>
   last_send_uptime (exec (report_fix E fx t r) w) = last_send_uptime w"
  by (auto simp: report_fix_def run_simps sends_same [THEN advances_sameD] split: prod.splits
      option.splits if_splits)

text \<open>A report that succeeds sets it to an uptime read after the message was accepted.\<close>

lemma elapsed_rx: "advances rx_same m \<Longrightarrow> elapsed (hist w) \<le> elapsed (hist (exec m w))"
  using advancesD [of rx_same m w] by (auto simp: rx_same_def elapsed_append)

lemma report_fix_sent:
  assumes "clock_sound (reply E)" "\<not> in_isr E" "result (report_fix E fx t r) w = 0"
  shows "int (elapsed (hist w)) \<le> last_send_uptime (exec (report_fix E fx t r) w)"
    and "last_send_uptime (exec (report_fix E fx t r) w) \<le> int (elapsed (hist (exec (report_fix E fx t r) w)))"
proof -
  define w1 where "w1 = exec (collect_telemetry E fx t r) w"
  define w2 where "w2 = exec (watchdog_phase TRACKER_PHASE_REPORT) w1"
  define tm where "tm = result (collect_telemetry E fx t r) w"
  obtain n payload where built: "result (telemetry_build_json E tm 256) w2 = (n, payload)"
    by (cases "result (telemetry_build_json E tm 256) w2")
  define w3 where "w3 = exec (send_payload E payload) w2"
  define now where "now = result (k_uptime_get E) w3"
  define w4 where "w4 = exec (k_uptime_get E) w3"
  define rest where "rest = do {
      modify (\<lambda>w. w\<lparr>last_send_uptime := now\<rparr>);
      (case fx of Some f \<Rightarrow> ignore (cloud_send_location E f) | None \<Rightarrow> skip);
      watchdog_feed E }"
  note steps = w1_def [symmetric] w2_def [symmetric] tm_def [symmetric] built w3_def [symmetric]
    now_def [symmetric] w4_def [symmetric]
  have ok: "result (send_payload E payload) w2 = 0" "\<not> n < 0"
    using assms(3) by (auto simp: report_fix_def run_simps steps ENOMEM_def split: if_splits)
  have run: "exec (report_fix E fx t r) w = exec rest w4"
    using ok by (simp add: report_fix_def rest_def run_simps steps split: option.split)
  have last: "last_send_uptime (exec rest w4) = now"
    by (simp add: rest_def run_simps sends_same [THEN advances_sameD] split: option.splits)
  have "elapsed (hist w) \<le> elapsed (hist w1)" "elapsed (hist w2) \<le> elapsed (hist w3)"
    unfolding w1_def w3_def by (rule elapsed_rx, rule tracker_rx2)+
  moreover have "hist w2 = hist w1" by (simp add: w2_def watchdog_phase_def run_simps)
  ultimately show "int (elapsed (hist w)) \<le> last_send_uptime (exec (report_fix E fx t r) w)"
    using uptime_elapsed [OF assms(1), of w3] unfolding run last now_def by simp
  have "advances rx_same rest"
    unfolding rest_def by (intro advances_rules; simp add: rx_same_fields)
  then have "elapsed (hist w4) \<le> elapsed (hist (exec rest w4))" by (rule elapsed_rx)
  moreover have "now \<le> int (elapsed (hist w4))"
    unfolding now_def w4_def by (rule uptime_elapsed_after [OF assms(1,2)])
  ultimately show "last_send_uptime (exec (report_fix E fx t r) w) \<le> int (elapsed (hist (exec (report_fix E fx t r) w)))"
    unfolding run last by linarith
qed

text \<open>Recovery, by the length of the silence in milliseconds.\<close>

lemma recover_reboots:
  assumes "0 < TRACKER_MODEM_RECOVERY_MINUTES (cfg E)"
    "TRACKER_MODEM_RECOVERY_MINUTES (cfg E) \<le> TRACKER_REBOOT_MINUTES (cfg E)"
  shows "result (recover_if_silent E) w \<longleftrightarrow>
    silence_ms E w \<ge> int (TRACKER_REBOOT_MINUTES (cfg E)) * 60000"
proof -
  have c: "c_div (silence_ms E w) 60000 < int n \<longleftrightarrow> silence_ms E w < int n * 60000" if "0 < n" for n
    using that by (simp add: c_div_less_iff)
  show ?thesis
    using assms c [of "TRACKER_MODEM_RECOVERY_MINUTES (cfg E)"] c [of "TRACKER_REBOOT_MINUTES (cfg E)"]
    by (auto simp: recover_if_silent_def Let_def run_simps silence_ms_def k_uptime_get_def
        not_less split: if_splits)
qed

lemma recover_reboot_marked:
  "result (recover_if_silent E) w \<Longrightarrow>
   phase_current (exec (recover_if_silent E) w) = phase_val TRACKER_PHASE_NO_NETWORK \<and>
   ev_call (hd (hist (exec (recover_if_silent E) w))) = Kern Sys_reboot"
  by (auto simp: recover_if_silent_def Let_def run_simps watchdog_phase_def hist_api split: if_splits)

lemma recover_quiet:
  assumes "0 < TRACKER_MODEM_RECOVERY_MINUTES (cfg E)"
    "silence_ms E w < int (TRACKER_MODEM_RECOVERY_MINUTES (cfg E)) * 60000"
  shows "exec (recover_if_silent E) w = (exec (k_uptime_get E) w)\<lparr>modem_bounced := False\<rparr>"
    and "\<not> result (recover_if_silent E) w"
  using assms c_div_less_iff [of 60000 "int (TRACKER_MODEM_RECOVERY_MINUTES (cfg E))" "silence_ms E w"]
  by (simp_all add: recover_if_silent_def Let_def run_simps silence_ms_def k_uptime_get_def)

lemma recover_bounced:
  assumes "\<not> result (recover_if_silent E) w" "0 < TRACKER_MODEM_RECOVERY_MINUTES (cfg E)"
    "silence_ms E w \<ge> int (TRACKER_MODEM_RECOVERY_MINUTES (cfg E)) * 60000"
  shows "modem_bounced (exec (recover_if_silent E) w)"
    and "modem_bounced w \<Longrightarrow> exec (recover_if_silent E) w = exec (k_uptime_get E) w"
  using assms c_div_less_iff [of 60000 "int (TRACKER_MODEM_RECOVERY_MINUTES (cfg E))" "silence_ms E w"]
  by (auto simp: recover_if_silent_def Let_def run_simps silence_ms_def k_uptime_get_def split: if_splits)

text \<open>Settling: the count of battery sleeps goes up to the threshold and stays there.\<close>

lemma motion_same [advances_rules]:
  "advances (same battery_sleeps) (status_led_sleep E)"
  "advances (same battery_sleeps) (motion_set_armed E arm)"
  "advances (same battery_sleeps) (wake_wait E t)"
  "advances (same battery_sleeps) (watchdog_phase p)"
  unfolding status_led_sleep_def status_led_set_def stop_blink_def apply_led_def set_channel_def
    reschedule_blink_def motion_set_armed_def wake_wait_def wake_take_def atomic_defs watchdog_phase_def Let_def
  by (intro advances_rules; simp add: same_def)+

lemma battery_sleep_count:
  assumes "TRACKER_MOTION_SETTLE_CYCLES (cfg E) < 2 ^ 32"
    "unat (battery_sleeps w) \<le> TRACKER_MOTION_SETTLE_CYCLES (cfg E)"
  shows "unat (battery_sleeps (exec (battery_sleep E) w)) =
    min (Suc (unat (battery_sleeps w))) (TRACKER_MOTION_SETTLE_CYCLES (cfg E))"
proof -
  let ?n = "word_of_nat (TRACKER_MOTION_SETTLE_CYCLES (cfg E)) :: u32"
  have n: "unat ?n = TRACKER_MOTION_SETTLE_CYCLES (cfg E)"
    using assms(1) by (simp add: unat_of_nat)
  have "battery_sleeps (exec (battery_sleep E) w) =
      (if battery_sleeps w \<ge> ?n then battery_sleeps w else battery_sleeps w + 1)"
    by (simp add: battery_sleep_def run_simps motion_same [THEN advances_sameD])
  moreover have "battery_sleeps w \<ge> ?n \<longleftrightarrow> TRACKER_MOTION_SETTLE_CYCLES (cfg E) \<le> unat (battery_sleeps w)"
    by (simp add: word_le_nat_alt n)
  moreover have "unat (battery_sleeps w + 1) = Suc (unat (battery_sleeps w))"
    if "unat (battery_sleeps w) < TRACKER_MOTION_SETTLE_CYCLES (cfg E)"
    using that assms(1) by (simp add: unat_word_ariths)
  ultimately show ?thesis using assms(2) by (simp add: min_def)
qed

lemma wake_wait_armed [simp]:
  "armed (exec (wake_wait E t) w) = armed w" "usable (exec (wake_wait E t) w) = usable w"
  by (simp_all add: wake_wait_def wake_take_def atomic_defs run_simps)

lemma status_led_sleep_motion [simp]:
  "armed (exec (status_led_sleep E) w) = armed w" "usable (exec (status_led_sleep E) w) = usable w"
  by (simp_all add: status_led_sleep_def status_led_set_def stop_blink_def apply_led_def
      set_channel_def reschedule_blink_def run_simps)

text \<open>The sensor is armed for the sleep only once the grace period is over.\<close>

lemma battery_sleep_armed:
  assumes "armed (exec (battery_sleep E) w)" "\<not> armed w"
  shows "battery_sleeps w \<ge> word_of_nat (TRACKER_MOTION_SETTLE_CYCLES (cfg E))"
  using assms
  by (auto simp: battery_sleep_def motion_set_armed_def run_simps watchdog_phase_def split: if_splits)

text \<open>With clock and silence as they are, a surge ends \<open>SURGE\<close> seconds after the last jolt.\<close>

lemma surge_active_elapsed:
  assumes "clock_sound (reply E)" "result (surge_active E mc) w"
    and "preserves E last_event_ms_hi" "preserves E last_event_ms_lo"
  shows "int (elapsed (hist w)) <
    event_time (last_event_ms_hi w) (last_event_ms_lo w) + int (TRACKER_MOTION_SURGE_SECONDS (cfg E)) * 1000"
proof -
  define w1 where "w1 = exec (motion_last_event_uptime E) w"
  have last: "result (motion_last_event_uptime E) w = event_time (last_event_ms_hi w) (last_event_ms_lo w)"
    if "TRACKER_MOTION_WAKE (cfg E)"
    using that assms(3,4) by (simp add: motion_last_event_uptime_def atomic_get_def run_simps join_halves
        preserves_api)
  have "advances rx_same (motion_last_event_uptime E)" by (rule tracker_rx)
  then obtain es where "hist w1 = es @ hist w" unfolding w1_def by (meson advancesD rx_same_def)
  then have "elapsed (hist w) \<le> elapsed (hist w1)" by (simp add: elapsed_append)
  moreover have "int (elapsed (hist w1)) \<le> result (k_uptime_get E) w1" by (rule uptime_elapsed [OF assms(1)])
  moreover have "result (k_uptime_get E) w1 - event_time (last_event_ms_hi w) (last_event_ms_lo w) <
      int (TRACKER_MOTION_SURGE_SECONDS (cfg E)) * 1000"
    using assms(2) last by (auto simp: surge_active_def run_simps w1_def split: if_splits)
  ultimately show ?thesis by linarith
qed

end

interpretation isr_tracker: tracker_runtime "isr_env E" for E
  by unfold_locales simp_all

end
