(* ===== verification/Cycle.thy ===== *)
theory Cycle
  imports Tracker
begin

text \<open>main.c, continued: \<open>main()\<close> itself, as boot and one pass of its endless loop.\<close>

section \<open>The first fix of a cycle\<close>

text \<open>
  \<open>agnss_wanted() && gnss_agnss_request_wait(...) == 0\<close> and what it guards: \<open>Some ok\<close> if assistance
  was fetched with that outcome, \<open>None\<close> if it was not tried.
\<close>

definition cold_start_assist :: "('a tracker_state_scheme) env \<Rightarrow> bool \<Rightarrow> ('a tracker_state_scheme, bool option) state" where
  "cold_start_assist E mark_phase = do {
     wanted \<leftarrow> agnss_wanted E;
     if \<not> wanted then return None
     else do {
       err \<leftarrow> gnss_agnss_request_wait E (TRACKER_AGNSS_PROACTIVE_WAIT_SECONDS (cfg E));
       if err \<noteq> 0 then return None
       else do {
         when_do mark_phase (watchdog_phase TRACKER_PHASE_AGNSS);
         err2 \<leftarrow> agnss_fetch_and_inject E;
         return (Some (err2 = 0))
       }
     }
   }"

text \<open>\<open>gnss_wait_fix(&fix, t) == 0\<close>\<close>

definition wait_fix_opt :: "('a tracker_state_scheme) env \<Rightarrow> nat \<Rightarrow> ('a tracker_state_scheme, tracker_fix option) state" where
  "wait_fix_opt E t = do {
     r \<leftarrow> gnss_wait_fix E t;
     return (case r of Inl _ \<Rightarrow> None | Inr f \<Rightarrow> Some f)
   }"

text \<open>The fallback to the onboard receiver, taken only without a fix.\<close>

definition fallback_fix :: "('a tracker_state_scheme) env \<Rightarrow> bool \<Rightarrow> ('a tracker_state_scheme, bool \<times> tracker_fix option) state" where
  "fallback_fix E assisted = do {
     available \<leftarrow> gnss_fallback_available E;
     if \<not> available then return (assisted, None)
     else do {
       err \<leftarrow> gnss_fallback E;
       if err \<noteq> 0 then return (assisted, None)
       else do {
         a \<leftarrow> cold_start_assist E False;
         t \<leftarrow> gnss_fix_timeout_seconds E;
         fx \<leftarrow> wait_fix_opt E t;
         return (case a of None \<Rightarrow> assisted | Some b \<Rightarrow> b, fx)
       }
     }
   }"

text \<open>Assistance as the last resort, if it was not used before.\<close>

definition last_resort_fix :: "('a tracker_state_scheme) env \<Rightarrow> ('a tracker_state_scheme, tracker_fix option) state" where
  "last_resort_fix E = do {
     wanted \<leftarrow> agnss_wanted E;
     if \<not> wanted then return None
     else do {
       err \<leftarrow> agnss_fetch_and_inject E;
       if err = 0 then wait_fix_opt E (TRACKER_AGNSS_FIX_TIMEOUT_SECONDS (cfg E)) else return None
     }
   }"

definition acquire_fix :: "('a tracker_state_scheme) env \<Rightarrow> ('a tracker_state_scheme, tracker_fix option) state" where
  "acquire_fix E = do {
     a \<leftarrow> cold_start_assist E True;
     let assisted = (case a of None \<Rightarrow> False | Some b \<Rightarrow> b);
     watchdog_phase TRACKER_PHASE_FIX;
     t \<leftarrow> gnss_fix_timeout_seconds E;
     fx \<leftarrow> wait_fix_opt E t;
     (assisted2, fx2) \<leftarrow> (case fx of Some f \<Rightarrow> return (assisted, Some f) | None \<Rightarrow> fallback_fix E assisted);
     fx3 \<leftarrow> (case fx2 of
         Some f \<Rightarrow> return (Some f)
       | None \<Rightarrow> if assisted2 then return None else last_resort_fix E);
     watchdog_feed E;
     return fx3
   }"

section \<open>The first report and the frequent loop\<close>

text \<open>What both places do with a fix, or without one.\<close>

definition report_outcome :: "('a tracker_state_scheme) env \<Rightarrow> tracker_fix option \<Rightarrow> u32 \<Rightarrow>
    tracker_wake_reason \<Rightarrow> ('a tracker_state_scheme, unit) state" where
  "report_outcome E fx wake_uptime_ms wake_reason = (case fx of
     Some f \<Rightarrow> do {
       ignore (report_fix E (Some f) wake_uptime_ms wake_reason);
       status_led_report E True
     }
   | None \<Rightarrow> do {
       when_do (TRACKER_FORCE_PUBLISH_WITHOUT_FIX (cfg E))
         (ignore (report_fix E None wake_uptime_ms wake_reason));
       status_led_report E False
     })"

text \<open>Let the fix settle, and take a better one if it comes.\<close>

definition settle_fix :: "('a tracker_state_scheme) env \<Rightarrow> tracker_fix \<Rightarrow> ('a tracker_state_scheme, tracker_fix) state" where
  "settle_fix E f =
    (if TRACKER_GNSS_EXTRA_FIX_SECONDS (cfg E) > 0 then do {
       api_do E (Kern (K_sleep (TRACKER_GNSS_EXTRA_FIX_SECONDS (cfg E) * 1000)));
       better \<leftarrow> wait_fix_opt E 5;
       return (case better of None \<Rightarrow> f | Some g \<Rightarrow> g)
     }
     else return f)"

definition first_report :: "('a tracker_state_scheme) env \<Rightarrow> tracker_fix option \<Rightarrow> u32 \<Rightarrow>
    tracker_wake_reason \<Rightarrow> ('a tracker_state_scheme, unit) state" where
  "first_report E fx wake_uptime_ms wake_reason = do {
     fx' \<leftarrow> (case fx of None \<Rightarrow> return None | Some f \<Rightarrow> do { g \<leftarrow> settle_fix E f; return (Some g) });
     report_outcome E fx' wake_uptime_ms wake_reason;
     watchdog_feed E
   }"

definition frequent_body :: "('a tracker_state_scheme) env \<Rightarrow> u32 \<Rightarrow>
    tracker_wake_reason \<Rightarrow> ('a tracker_state_scheme, unit) state" where
  "frequent_body E wake_uptime_ms wake_reason = do {
     watchdog_phase TRACKER_PHASE_FREQUENT;
     p \<leftarrow> power_vbus_present E;
     when_do p (do {
       motion_set_armed E False;
       modify (\<lambda>w. w\<lparr>battery_sleeps := 0\<rparr>)
     });
     api_do E (Kern (K_sleep (TRACKER_CHARGING_INTERVAL_SECONDS (cfg E) * 1000)));
     watchdog_feed E;
     fx \<leftarrow> wait_fix_opt E 10;
     report_outcome E fx wake_uptime_ms wake_reason
   }"

text \<open>The \<open>while\<close> loop; the result is whether it ended within \<open>fuel\<close> evaluations of its condition.\<close>

primrec frequent_loop :: "nat \<Rightarrow> ('a tracker_state_scheme) env \<Rightarrow> bool \<Rightarrow> u32 \<Rightarrow>
    tracker_wake_reason \<Rightarrow> ('a tracker_state_scheme, bool) state" where
  "frequent_loop 0 E motion_cycle wake_uptime_ms wake_reason = return False"
| "frequent_loop (Suc fuel) E motion_cycle wake_uptime_ms wake_reason = do {
     go_on \<leftarrow> vbus_or_surge E motion_cycle;
     if \<not> go_on then return True
     else do {
       frequent_body E wake_uptime_ms wake_reason;
       frequent_loop fuel E motion_cycle wake_uptime_ms wake_reason
     }
   }"

definition frequent_reporting :: "nat \<Rightarrow> ('a tracker_state_scheme) env \<Rightarrow> bool \<Rightarrow> u32 \<Rightarrow>
    tracker_wake_reason \<Rightarrow> ('a tracker_state_scheme, bool) state" where
  "frequent_reporting fuel E motion_cycle wake_uptime_ms wake_reason = do {
     enter \<leftarrow> vbus_or_surge E motion_cycle;
     if \<not> enter then return True
     else do {
       ignore (power_vbus_present E);
       frequent_loop fuel E motion_cycle wake_uptime_ms wake_reason
     }
   }"

section \<open>One pass of the outer loop\<close>

datatype cycle_result = Rebooted | OutOfFuel | Slept tracker_wake_reason

definition sleep_until_wake :: "('a tracker_state_scheme) env \<Rightarrow> ('a tracker_state_scheme, cycle_result) state" where
  "sleep_until_wake E = do { reason \<leftarrow> battery_sleep E; return (Slept reason) }"

text \<open>The cycle once the receiver has started.\<close>

definition cycle_tracking :: "nat \<Rightarrow> ('a tracker_state_scheme) env \<Rightarrow> u32 \<Rightarrow>
    tracker_wake_reason \<Rightarrow> ('a tracker_state_scheme, cycle_result) state" where
  "cycle_tracking fuel E wake_uptime_ms wake_reason = do {
     fx \<leftarrow> acquire_fix E;
     first_report E fx wake_uptime_ms wake_reason;
     over \<leftarrow> frequent_reporting fuel E (wake_reason = TRACKER_WAKE_MOTION) wake_uptime_ms wake_reason;
     if \<not> over then return OutOfFuel
     else do {
       watchdog_phase TRACKER_PHASE_GNSS_STOP;
       gnss_stop E;
       watchdog_phase TRACKER_PHASE_CLOUD_PAUSE;
       cloud_pause E;
       sleep_until_wake E
     }
   }"

text \<open>The cycle once the network is there (or is not wanted).\<close>

definition cycle_online :: "nat \<Rightarrow> ('a tracker_state_scheme) env \<Rightarrow> u32 \<Rightarrow>
    tracker_wake_reason \<Rightarrow> ('a tracker_state_scheme, cycle_result) state" where
  "cycle_online fuel E wake_uptime_ms wake_reason = do {
     watchdog_phase TRACKER_PHASE_CLOUD_RESUME;
     watchdog_guard_start E (word_of_nat (TRACKER_CLOUD_CONNECT_BUDGET_SECONDS (cfg E)));
     ignore (cloud_resume E);
     watchdog_guard_stop E;
     status_led_report E False;
     watchdog_phase TRACKER_PHASE_GNSS_START;
     err \<leftarrow> gnss_start E;
     if err \<noteq> 0 then do {
       cloud_pause E;
       sleep_until_wake E
     }
     else cycle_tracking fuel E wake_uptime_ms wake_reason
   }"

definition cycle_network :: "('a tracker_state_scheme) env \<Rightarrow> ('a tracker_state_scheme, bool) state" where
  "cycle_network E =
    (if TRACKER_SKIP_LTE (cfg E) then return True
     else do {
       watchdog_phase TRACKER_PHASE_LTE;
       err \<leftarrow> lte_ensure_connected E;
       return (err = 0)
     })"

definition cycle :: "nat \<Rightarrow> ('a tracker_state_scheme) env \<Rightarrow> tracker_wake_reason \<Rightarrow>
    ('a tracker_state_scheme, cycle_result) state" where
  "cycle fuel E wake_reason = do {
     now \<leftarrow> k_uptime_get E;
     let wake_uptime_ms = to_u32 now;
     when_do (wake_reason = TRACKER_WAKE_VBUS) (modify (\<lambda>w. w\<lparr>battery_sleeps := 0\<rparr>));
     watchdog_phase TRACKER_PHASE_WAKE;
     watchdog_feed E;
     rebooted \<leftarrow> (if TRACKER_SKIP_LTE (cfg E) then return False else recover_if_silent E);
     if rebooted then return Rebooted
     else do {
       online \<leftarrow> cycle_network E;
       if \<not> online then do {
         status_led_set E TRACKER_STATUS_NO_LTE;
         sleep_until_wake E
       }
       else cycle_online fuel E wake_uptime_ms wake_reason
     }
   }"

section \<open>Boot\<close>

text \<open>\<open>main()\<close> up to the loop: \<open>Some err\<close> is a return of \<open>main\<close>.\<close>

definition boot_peripherals :: "('a tracker_state_scheme) env \<Rightarrow> ('a tracker_state_scheme, unit) state" where
  "boot_peripherals E = do {
     ignore (watchdog_init E);
     api_do E (Modem Modem_info_init);
     ignore (power_init E);
     ignore (motion_init E);
     ignore (status_led_init E)
   }"

definition boot_network :: "('a tracker_state_scheme) env \<Rightarrow> ('a tracker_state_scheme, int option) state" where
  "boot_network E = do {
     failed \<leftarrow> (if TRACKER_SKIP_LTE (cfg E) then do {
         err \<leftarrow> api_rc E (Modem (Lte_lc_func_mode_set LTE_LC_FUNC_MODE_ACTIVATE_GNSS));
         return (err \<noteq> 0)
       }
       else do {
         api_do E (Modem Lte_lc_register_handler);
         api_do E (Modem (Lte_lc_psm_req True));
         return False
       });
     if failed then return (Some (- EIO))
     else do {
       ignore (cloud_init E);
       status_led_report E False;
       return None
     }
   }"

definition boot :: "('a tracker_state_scheme) env \<Rightarrow> ('a tracker_state_scheme, int option) state" where
  "boot E = do {
     err \<leftarrow> modem_lib_init E;
     if err \<noteq> 0 then return (Some err)
     else do {
       boot_peripherals E;
       err2 \<leftarrow> gnss_init E;
       if err2 \<noteq> 0 then return (Some (- EIO)) else boot_network E
     }
   }"

text \<open>\<open>while (1)\<close>, for at most \<open>n\<close> passes: the last result.\<close>

primrec cycles :: "nat \<Rightarrow> nat \<Rightarrow> ('a tracker_state_scheme) env \<Rightarrow> tracker_wake_reason \<Rightarrow>
    ('a tracker_state_scheme, cycle_result) state" where
  "cycles 0 fuel E wake_reason = return (Slept wake_reason)"
| "cycles (Suc n) fuel E wake_reason = do {
     r \<leftarrow> cycle fuel E wake_reason;
     (case r of Slept reason \<Rightarrow> cycles n fuel E reason | _ \<Rightarrow> return r)
   }"

text \<open>\<open>main()\<close>: \<open>Inl err\<close> if it returned \<open>err\<close>.\<close>

definition main :: "nat \<Rightarrow> nat \<Rightarrow> ('a tracker_state_scheme) env \<Rightarrow>
    ('a tracker_state_scheme, int + cycle_result) state" where
  "main n fuel E = do {
     failed \<leftarrow> boot E;
     (case failed of
        Some err \<Rightarrow> return (Inl err)
      | None \<Rightarrow> do {
          r \<leftarrow> cycles n fuel E TRACKER_WAKE_BOOT;
          return (Inr r)
        })
   }"

section \<open>The receivers over a cycle\<close>

definition rx_inv :: "config \<Rightarrow> 'a tracker_state_scheme \<Rightarrow> bool" where
  "rx_inv C w \<longleftrightarrow> rx_ok w \<and> arbiter_ok C w"

text \<open>What the SDK documents of the UART's power management and of stopping the modem's receiver.\<close>

definition rx_sound :: "(event list \<Rightarrow> call \<Rightarrow> resp) \<Rightarrow> bool" where
  "rx_sound R \<longleftrightarrow> uart_pm_sound R \<and> gnss_stop_sound R"

lemma keeps_rx: "advances rx_same m \<Longrightarrow> keeps (rx_inv C) m"
  by (simp add: keeps_def rx_inv_def advances_rx)

context tracker_runtime begin

lemma agnss_wanted_modem:
  "result (agnss_wanted E) w \<Longrightarrow> active w = TRACKER_FIX_SOURCE_MODEM"
  "exec (agnss_wanted E) w = w"
  by (cases "TRACKER_CLOUD_PROVIDER (cfg E)";
      simp add: agnss_wanted_def gnss_active_source_def cloud_is_ready_def cloud_nrf_is_ready_def
        cloud_hologram_is_ready_def run_simps)+

lemma agnss_fetch_rx_inv:
  assumes "rx_inv (cfg E) w" "active w = TRACKER_FIX_SOURCE_MODEM"
  shows "rx_inv (cfg E) (exec (agnss_fetch_and_inject E) w)"
  using agnss_fetch_and_inject_rx_ok [of w] assms by (simp add: rx_inv_def arbiter_ok_def)

lemma cold_start_assist_rx: "keeps (rx_inv (cfg E)) (cold_start_assist E b)"
proof -
  have "rx_inv (cfg E) (exec (cold_start_assist E b) w)" if inv: "rx_inv (cfg E) w" for w
  proof -
    let ?v = "exec (gnss_agnss_request_wait E (TRACKER_AGNSS_PROACTIVE_WAIT_SECONDS (cfg E))) w"
    let ?u = "exec (when_do b (watchdog_phase TRACKER_PHASE_AGNSS)) ?v"
    have v: "rx_inv (cfg E) ?v" "active ?v = active w"
      using inv keepsD [OF keeps_rx [OF gnss_waits_rx(3)]] advances_rx(3) [OF gnss_waits_rx(3)]
      by blast+
    have mark: "advances rx_same (when_do b (watchdog_phase TRACKER_PHASE_AGNSS))"
      by (intro advances_rules; simp)
    have u: "rx_inv (cfg E) ?u" by (rule keepsD [OF keeps_rx [OF mark] v(1)])
    have a: "active ?u = active w" using advances_rx(3) [OF mark, of ?v] v(2) by simp
    show ?thesis
      using inv v u a agnss_wanted_modem [of w] agnss_fetch_rx_inv [of ?u]
      by (simp add: cold_start_assist_def run_simps)
  qed
  then show ?thesis by (simp add: keeps_def)
qed

lemma wait_fix_opt_rx [advances_rules]: "advances rx_same (wait_fix_opt E t)"
  unfolding wait_fix_opt_def by (intro advances_rules; simp)

lemma gnss_fallback_rx:
  "rx_sound (reply E) \<Longrightarrow> keeps (rx_inv (cfg E)) (gnss_fallback E)"
  by (simp add: keeps_def rx_inv_def gnss_fallback_ok rx_sound_def)

lemma fallback_fix_rx: "rx_sound (reply E) \<Longrightarrow> keeps (rx_inv (cfg E)) (fallback_fix E b)"
  unfolding fallback_fix_def
  by (intro keeps_bind keeps_if keeps_return gnss_fallback_rx cold_start_assist_rx
      keeps_rx [OF gnss_waits_rx(6)] keeps_rx [OF gnss_waits_rx(5)] keeps_rx [OF wait_fix_opt_rx])

lemma last_resort_fix_rx: "keeps (rx_inv (cfg E)) (last_resort_fix E)"
proof -
  have "rx_inv (cfg E) (exec (last_resort_fix E) w)" if inv: "rx_inv (cfg E) w" for w
    using inv agnss_wanted_modem [of w] agnss_fetch_rx_inv [of w]
      keepsD [OF keeps_rx [OF wait_fix_opt_rx]]
    by (simp add: last_resort_fix_def run_simps)
  then show ?thesis by (simp add: keeps_def)
qed

lemma acquire_fix_rx: "rx_sound (reply E) \<Longrightarrow> keeps (rx_inv (cfg E)) (acquire_fix E)"
  unfolding acquire_fix_def Let_def
  by (intro keeps_bind keeps_if keeps_return keeps_case_option keeps_case_prod cold_start_assist_rx
      fallback_fix_rx last_resort_fix_rx keeps_rx [OF gnss_waits_rx(5)] keeps_rx [OF wait_fix_opt_rx]
      keeps_rx [OF tracker_rx(8)] keeps_rx [OF watchdog_feed_rx])

lemma reports_rx [advances_rules]:
  "advances rx_same (report_outcome E fx t r)" "advances rx_same (settle_fix E f)"
  unfolding report_outcome_def settle_fix_def
  by (intro advances_rules; simp)+

lemma first_report_rx [advances_rules]: "advances rx_same (first_report E fx t r)"
  unfolding first_report_def by (intro advances_rules; simp)

lemma frequent_body_rx [advances_rules]: "advances rx_same (frequent_body E t r)"
  unfolding frequent_body_def by (intro advances_rules; simp add: rx_same_fields)

lemma frequent_loop_rx [advances_rules]: "advances rx_same (frequent_loop fuel E mc t r)"
  by (induction fuel) (simp, intro advances_rules, simp_all, intro advances_rules, simp_all)

lemma frequent_reporting_rx [advances_rules]: "advances rx_same (frequent_reporting fuel E mc t r)"
  unfolding frequent_reporting_def by (intro advances_rules; simp)

lemma sleep_until_wake_rx [advances_rules]: "advances rx_same (sleep_until_wake E)"
  unfolding sleep_until_wake_def by (intro advances_rules; simp)

text \<open>
  A cycle that starts at rest and ends in a sleep ends at rest: both receivers are off, and the
  module was never driven while unpowered.  The state in which the tracker sleeps is the argument
  of \<open>battery_sleep\<close>, which moves no receiver.
\<close>

lemma gnss_stop_rest:
  "rx_sound (reply E) \<Longrightarrow> rx_inv (cfg E) w \<Longrightarrow> idle (exec (gnss_stop E) w)"
  by (simp add: gnss_stop_ok rx_inv_def rx_sound_def)

lemma cycle_tracking_rest:
  assumes "rx_sound (reply E)" "rx_inv (cfg E) w"
    and "result (cycle_tracking fuel E t r) w = Slept r'"
  shows "idle (exec (cycle_tracking fuel E t r) w)"
proof -
  define w1 where "w1 = exec (acquire_fix E) w"
  define w2 where "w2 = exec (first_report E (result (acquire_fix E) w) t r) w1"
  define w3 where "w3 = exec (frequent_reporting fuel E (r = TRACKER_WAKE_MOTION) t r) w2"
  define w4 where "w4 = exec (watchdog_phase TRACKER_PHASE_GNSS_STOP) w3"
  define m where "m = do {
      watchdog_phase TRACKER_PHASE_CLOUD_PAUSE; cloud_pause E; sleep_until_wake E }"
  have 1: "rx_inv (cfg E) w1"
    unfolding w1_def by (rule keepsD [OF acquire_fix_rx [OF assms(1)] assms(2)])
  have 2: "rx_inv (cfg E) w2"
    unfolding w2_def by (rule keepsD [OF keeps_rx [OF first_report_rx] 1])
  have 3: "rx_inv (cfg E) w3"
    unfolding w3_def by (rule keepsD [OF keeps_rx [OF frequent_reporting_rx] 2])
  have 4: "rx_inv (cfg E) w4"
    unfolding w4_def by (rule keepsD [OF keeps_rx [OF tracker_rx(8)] 3])
  have "advances rx_same m" unfolding m_def by (intro advances_rules; simp)
  then have "idle (exec m (exec (gnss_stop E) w4))"
    by (rule advances_rx(5)) (rule gnss_stop_rest [OF assms(1) 4])
  moreover have "result (frequent_reporting fuel E (r = TRACKER_WAKE_MOTION) t r) w2"
    using assms(3) by (auto simp: cycle_tracking_def run_simps w2_def w1_def split: if_splits)
  ultimately show ?thesis
    by (simp add: cycle_tracking_def run_simps w1_def w2_def w3_def w4_def m_def)
qed

lemma cycle_online_rest:
  assumes "rx_sound (reply E)" "idle w" "result (cycle_online fuel E t r) w = Slept r'"
  shows "idle (exec (cycle_online fuel E t r) w)"
proof -
  define pre where "pre = do {
     watchdog_phase TRACKER_PHASE_CLOUD_RESUME;
     watchdog_guard_start E (word_of_nat (TRACKER_CLOUD_CONNECT_BUDGET_SECONDS (cfg E)));
     ignore (cloud_resume E);
     watchdog_guard_stop E;
     status_led_report E False;
     watchdog_phase TRACKER_PHASE_GNSS_START }"
  define v where "v = exec pre w"
  define u where "u = exec (gnss_start E) v"
  define rest where "rest = do { cloud_pause E; sleep_until_wake E }"
  have "advances rx_same pre" unfolding pre_def by (intro advances_rules; simp)
  then have v: "idle v" unfolding v_def using assms(2) by (rule advances_rx(5))
  note start = gnss_start_ok [OF v, folded u_def, OF conjunct1 [OF assms(1) [unfolded rx_sound_def]]]
  have run: "exec (cycle_online fuel E t r) w =
      (if result (gnss_start E) v = 0 then exec (cycle_tracking fuel E t r) u else exec rest u)"
    "result (cycle_online fuel E t r) w =
      (if result (gnss_start E) v = 0 then result (cycle_tracking fuel E t r) u else result rest u)"
    by (simp_all add: cycle_online_def pre_def rest_def v_def u_def run_simps)
  show ?thesis
  proof (cases "result (gnss_start E) v = 0")
    case True
    have "rx_inv (cfg E) u" using start by (simp add: rx_inv_def)
    then show ?thesis
      using True assms(3) unfolding run by (simp add: cycle_tracking_rest [OF assms(1)])
  next
    case False
    have "advances rx_same rest" unfolding rest_def by (intro advances_rules; simp)
    then have "idle (exec rest u)" by (rule advances_rx(5)) (rule start(3) [OF False])
    with False show ?thesis unfolding run by simp
  qed
qed

lemma cycle_rest:
  assumes "rx_sound (reply E)" "idle w" "result (cycle fuel E r) w = Slept r'"
  shows "idle (exec (cycle fuel E r) w)"
proof -
  define t where "t = to_u32 (result (k_uptime_get E) w)"
  define pre where "pre = do {
     now \<leftarrow> k_uptime_get E;
     when_do (r = TRACKER_WAKE_VBUS) (modify (\<lambda>w. w\<lparr>battery_sleeps := 0\<rparr>));
     watchdog_phase TRACKER_PHASE_WAKE;
     watchdog_feed E;
     if TRACKER_SKIP_LTE (cfg E) then return False else recover_if_silent E }"
  define v where "v = exec pre w"
  define u where "u = exec (cycle_network E) v"
  define rest where "rest = do { status_led_set E TRACKER_STATUS_NO_LTE; sleep_until_wake E }"
  have "advances rx_same pre" unfolding pre_def by (intro advances_rules; simp add: rx_same_fields)
  then have v: "idle v" unfolding v_def using assms(2) by (rule advances_rx(5))
  have "advances rx_same (cycle_network E)"
    unfolding cycle_network_def by (intro advances_rules; simp)
  then have u: "idle u" unfolding u_def using v by (rule advances_rx(5))
  have "advances rx_same rest" unfolding rest_def by (intro advances_rules; simp)
  then have rest: "idle (exec rest u)" using u by (rule advances_rx(5))
  have run: "exec (cycle fuel E r) w = (if result pre w then v
      else if result (cycle_network E) v then exec (cycle_online fuel E t r) u else exec rest u)"
    "result (cycle fuel E r) w = (if result pre w then Rebooted
      else if result (cycle_network E) v then result (cycle_online fuel E t r) u else result rest u)"
    by (simp_all add: cycle_def pre_def rest_def v_def u_def t_def Let_def run_simps)
  show ?thesis
    using assms(3) rest cycle_online_rest [OF assms(1) u] unfolding run by (auto split: if_splits)
qed

text \<open>Hence every cycle of a run starts at rest.\<close>

lemma cycles_rest:
  assumes "rx_sound (reply E)" "idle w" "result (cycles n fuel E r) w = Slept r'"
  shows "idle (exec (cycles n fuel E r) w)"
  using assms(2,3)
proof (induction n arbitrary: w r)
  case (Suc n)
  show ?case
  proof (cases "result (cycle fuel E r) w")
    case (Slept r1)
    then have "idle (exec (cycle fuel E r) w)" by (rule cycle_rest [OF assms(1) Suc.prems(1)])
    with Suc Slept show ?thesis by (simp add: run_simps)
  qed (use Suc.prems in \<open>simp_all add: run_simps\<close>)
qed (simp add: run_simps)

end

section \<open>The frequent loop ends\<close>

text \<open>The uptime of the last jolt, as motion.c keeps it.\<close>

definition last_jolt :: "'a tracker_state_scheme \<Rightarrow> int" where
  "last_jolt w = event_time (last_event_ms_hi w) (last_event_ms_lo w)"

context tracker_runtime begin

lemma jolt_api:
  assumes "preserves E last_jolt"
  shows "advances (same last_jolt) (api E c)" "advances (same last_jolt) (api_rc E c)"
    "advances (same last_jolt) (api_flag E c)" "advances (same last_jolt) (api_do E c)"
proof -
  have "last_jolt (exec (api E c) w) = last_jolt w" for c w
    by (rule preserves_api [OF assms]) (simp add: last_jolt_def)
  then show "advances (same last_jolt) (api E c)" "advances (same last_jolt) (api_rc E c)"
    "advances (same last_jolt) (api_flag E c)" "advances (same last_jolt) (api_do E c)"
    by (rule advances_api_same)+
qed

lemma jolt_board:
  assumes "preserves E last_jolt"
  shows "advances (same last_jolt) (power_vbus_present E)" "advances (same last_jolt) (power_read E)"
    "advances (same last_jolt) (motion_set_armed E arm)" "advances (same last_jolt) (watchdog_feed E)"
    "advances (same last_jolt) (watchdog_guard_start E b)" "advances (same last_jolt) (watchdog_guard_stop E)"
    "advances (same last_jolt) (watchdog_phase p)" "advances (same last_jolt) (status_led_set E st)"
    "advances (same last_jolt) (status_led_pattern E pat)" "advances (same last_jolt) (wait_fix_opt E t)"
    "advances (same last_jolt) (lte_is_registered E)" "advances (same last_jolt) (k_uptime_get E)"
  unfolding power_vbus_present_def read_vbus_present_def power_read_def motion_set_armed_def
    watchdog_guard_start_def watchdog_guard_stop_def watchdog_feed_def watchdog_phase_def
    status_led_set_def status_led_pattern_def stop_blink_def apply_led_def set_channel_def
    reschedule_blink_def wait_fix_opt_def gnss_wait_fix_def gnss_ext_wait_fix_def
    gnss_modem_wait_fix_def locked_def lte_is_registered_def k_uptime_get_def Let_def
  by (intro advances_rules jolt_api assms; simp add: same_def last_jolt_def)+

lemma jolt_cloud:
  assumes "preserves E last_jolt"
  shows "advances (same last_jolt) (cloud_send_telemetry E s)" "advances (same last_jolt) (cloud_send_location E f)"
    "advances (same last_jolt) (cloud_resume E)"
proof -
  have loop: "advances (same last_jolt) (modem_time_loop E waited)" for waited
    by (rule modem_time_loop_advances) (simp_all add: jolt_api [OF assms], simp add: same_def last_jolt_def)
  show "advances (same last_jolt) (cloud_send_telemetry E s)" "advances (same last_jolt) (cloud_send_location E f)"
    "advances (same last_jolt) (cloud_resume E)"
    unfolding cloud_send_telemetry_def cloud_send_location_def cloud_resume_def
      cloud_nrf_send_telemetry_def cloud_hologram_send_telemetry_def hologram_send_def
      build_envelope_def add_strings_def socket_send_envelope_def exchange_def
      cloud_nrf_send_location_def cloud_hologram_send_location_def cloud_nrf_resume_def
      cloud_nrf_connect_def cloud_hologram_resume_def modem_time_wait_def Let_def
    by (intro advances_rules jolt_api assms advances_case_provider loop; simp add: same_def last_jolt_def)+
qed

lemma jolt_reports:
  assumes "preserves E last_jolt"
  shows "advances (same last_jolt) (report_fix E fx t r)" "advances (same last_jolt) (status_led_report E b)"
  unfolding report_fix_def collect_telemetry_def telemetry_build_json_def watchdog_reset_phase_def
    send_payload_def status_led_report_def led_pattern_def Let_def
  by (intro advances_rules jolt_api jolt_board jolt_cloud assms; simp add: same_def last_jolt_def)+

lemma frequent_body_jolt:
  assumes "preserves E last_jolt"
  shows "last_jolt (exec (frequent_body E t r) w) = last_jolt w"
  unfolding frequent_body_def report_outcome_def
  by (rule advances_sameD)
     (intro advances_rules jolt_api jolt_board jolt_reports assms; simp add: same_def last_jolt_def)

text \<open>A pass of the loop takes at least the reporting interval.\<close>

lemma frequent_body_elapsed:
  assumes "clock_sound (reply E)" "\<not> in_isr E"
  shows "elapsed (hist w) + TRACKER_CHARGING_INTERVAL_SECONDS (cfg E) * 1000 \<le>
    elapsed (hist (exec (frequent_body E t r) w))"
proof -
  let ?ms = "TRACKER_CHARGING_INTERVAL_SECONDS (cfg E) * 1000"
  define pre where "pre = do {
     watchdog_phase TRACKER_PHASE_FREQUENT;
     p \<leftarrow> power_vbus_present E;
     when_do p (do {
       motion_set_armed E False;
       modify (\<lambda>w. w\<lparr>battery_sleeps := 0\<rparr>)
     }) }"
  define post where "post = do {
     watchdog_feed E;
     fx \<leftarrow> wait_fix_opt E 10;
     report_outcome E fx t r }"
  define w1 where "w1 = exec pre w"
  define w2 where "w2 = exec (api E (Kern (K_sleep ?ms))) w1"
  have "advances rx_same pre" unfolding pre_def by (intro advances_rules; simp add: rx_same_fields)
  then have 1: "elapsed (hist w) \<le> elapsed (hist w1)" unfolding w1_def by (rule elapsed_rx)
  have "?ms \<le> took (result (api E (Kern (K_sleep ?ms))) w1)"
    using assms(1) by (simp add: clock_sound_def result_api)
  then have 2: "elapsed (hist w1) + ?ms \<le> elapsed (hist w2)"
    using elapsed_api [of w1 "Kern (K_sleep ?ms)"] assms(2) by (simp add: w2_def)
  have "advances rx_same post" unfolding post_def by (intro advances_rules; simp)
  then have 3: "elapsed (hist w2) \<le> elapsed (hist (exec post w2))" by (rule elapsed_rx)
  have "exec (frequent_body E t r) w = exec post w2"
    by (simp add: frequent_body_def pre_def post_def w1_def w2_def run_simps)
  with 1 2 3 show ?thesis by simp
qed

text \<open>
  On battery and left alone, the loop ends after the surge time: the fuel needed is the number of
  intervals that fit into what is left of it, and one more.
\<close>

lemma frequent_loop_ends:
  assumes "clock_sound (reply E)" "\<not> in_isr E" "preserves E last_event_ms_hi" "preserves E last_event_ms_lo"
    and "\<forall>w. \<not> result (power_vbus_present E) w"
    and "last_jolt w + int (TRACKER_MOTION_SURGE_SECONDS (cfg E)) * 1000 \<le>
      int (elapsed (hist w)) + int fuel * (int (TRACKER_CHARGING_INTERVAL_SECONDS (cfg E)) * 1000)"
  shows "result (frequent_loop (Suc fuel) E mc t r) w"
  using assms(6)
proof (induction fuel arbitrary: w)
  case 0
  have jolt: "preserves E last_jolt" using assms(3,4) by (simp add: preserves_def last_jolt_def)
  let ?v = "exec (power_vbus_present E) w"
  have "\<not> result (surge_active E mc) ?v"
    using surge_active_elapsed [OF assms(1) _ assms(3,4), of mc ?v] 0
      elapsed_rx [OF tracker_rx(3), of w] advances_sameD [OF jolt_board(1) [OF jolt], of w]
    by (auto simp: last_jolt_def)
  then show ?case using assms(5) by (simp add: vbus_or_surge_def run_simps)
next
  case (Suc fuel)
  have jolt: "preserves E last_jolt" using assms(3,4) by (simp add: preserves_def last_jolt_def)
  define v where "v = exec (vbus_or_surge E mc) w"
  define u where "u = exec (frequent_body E t r) v"
  have "advances (same last_jolt) (vbus_or_surge E mc)"
    unfolding vbus_or_surge_def surge_active_def motion_last_event_uptime_def atomic_get_def
    by (intro advances_rules jolt_api jolt_board jolt; simp)
  then have "last_jolt v = last_jolt w" unfolding v_def by (rule advances_sameD)
  then have same: "last_jolt u = last_jolt w"
    unfolding u_def by (simp add: frequent_body_jolt [OF jolt])
  have "elapsed (hist w) \<le> elapsed (hist v)"
    unfolding v_def by (rule elapsed_rx) (rule tracker_rx2)
  then have "elapsed (hist w) + TRACKER_CHARGING_INTERVAL_SECONDS (cfg E) * 1000 \<le> elapsed (hist u)"
    using frequent_body_elapsed [OF assms(1,2), of v t r] unfolding u_def by linarith
  then have "last_jolt u + int (TRACKER_MOTION_SURGE_SECONDS (cfg E)) * 1000 \<le>
      int (elapsed (hist u)) + int fuel * (int (TRACKER_CHARGING_INTERVAL_SECONDS (cfg E)) * 1000)"
    using Suc.prems unfolding same by (simp add: algebra_simps)
  then have "result (frequent_loop (Suc fuel) E mc t r) u" by (rule Suc.IH)
  then show ?case
    by (subst frequent_loop.simps) (simp add: run_simps v_def u_def del: frequent_loop.simps)
qed

end

section \<open>What a report does to the session\<close>

text \<open>The link's state and the credentials, as a report leaves them.\<close>

definition link_view :: "'a cloud_state_scheme \<Rightarrow> link_status \<times> bool" where
  "link_view w = (link_state w, creds_ok w)"

text \<open>Calls other than those that bring the session up or down.\<close>

abbreviation other_call :: "call \<Rightarrow> bool" where
  "other_call c \<equiv> \<not> session_call c"

context tracker_runtime begin

lemma link_api:
  "advances (same link_view) (api E c)" "advances (same link_view) (api_rc E c)"
  "advances (same link_view) (api_flag E c)" "advances (same link_view) (api_do E c)"
  by (intro advances_api_same; simp add: link_view_def)+

lemma link_steps:
  "advances (same link_view) (collect_telemetry E fx t r)" "advances (same link_view) (watchdog_guard_start E b)"
  "advances (same link_view) (watchdog_guard_stop E)" "advances (same link_view) (watchdog_phase p)"
  "advances (same link_view) (cloud_nrf_send_telemetry E s)"
  unfolding collect_telemetry_def k_uptime_get_def power_read_def watchdog_guard_start_def
    watchdog_guard_stop_def watchdog_feed_def watchdog_phase_def cloud_nrf_send_telemetry_def Let_def
  by (intro advances_rules link_api; simp add: same_def link_view_def)+

lemma quiet_issues:
  "issues other_call (collect_telemetry E fx t r)" "issues other_call (watchdog_guard_start E b)"
  "issues other_call (watchdog_guard_stop E)" "issues other_call (cloud_nrf_send_telemetry E s)"
  "issues other_call (cloud_nrf_send_location E f)" "issues other_call (watchdog_feed E)"
  "issues other_call (k_uptime_get E)"
  unfolding collect_telemetry_def k_uptime_get_def power_read_def watchdog_guard_start_def
    watchdog_guard_stop_def watchdog_feed_def cloud_nrf_send_telemetry_def cloud_nrf_send_location_def Let_def
  by (intro issues_rules; simp add: session_call_def)+

text \<open>
  With nRF Cloud, a report from a link that is marked connected never brings the session up, even if
  the first send fails with the errors the code takes for a stale link.
\<close>

lemma send_payload_never_reconnects:
  assumes "TRACKER_CLOUD_PROVIDER (cfg E) = NrfCloud" "link_ok (cfg E) w" "link_state w = LINK_CONNECTED"
  shows "calls_only other_call w (exec (send_payload E s) w)"
    and "link_view (exec (send_payload E s) w) = link_view w"
proof -
  let ?b = "word_of_nat (TRACKER_CLOUD_CONNECT_BUDGET_SECONDS (cfg E))"
  define w1 where "w1 = exec (cloud_nrf_send_telemetry E s) w"
  define w2 where "w2 = exec (watchdog_guard_start E ?b) w1"
  define w3 where "w3 = exec (watchdog_guard_stop E) w2"
  define w4 where "w4 = exec (cloud_nrf_send_telemetry E s) w3"
  have l1: "link_view w1 = link_view w" unfolding w1_def by (rule advances_sameD [OF link_steps(5)])
  have l2: "link_view w2 = link_view w"
    unfolding w2_def using advances_sameD [OF link_steps(2)] l1 by simp
  have l3: "link_view w3 = link_view w"
    unfolding w3_def using advances_sameD [OF link_steps(3)] l2 by simp
  have l4: "link_view w4 = link_view w"
    unfolding w4_def using advances_sameD [OF link_steps(5)] l3 by simp
  have "link_ok (cfg E) w2" "link_state w2 = LINK_CONNECTED"
    using assms(2,3) l2 by (simp_all add: link_ok_def link_view_def)
  note idle = nrf.resume_idle [OF this]
  have run: "exec (send_payload E s) w = (if link_stale (result (cloud_nrf_send_telemetry E s) w) then w4 else w1)"
    using assms(1) idle
    by (simp add: send_payload_def cloud_send_telemetry_def cloud_resume_def run_simps
        w1_def w2_def w3_def w4_def)
  have c1: "calls_only other_call w w1"
    unfolding w1_def by (rule calls_only_issues [OF quiet_issues(4)])
  have "calls_only other_call w1 w2" unfolding w2_def by (rule calls_only_issues [OF quiet_issues(2)])
  with c1 have "calls_only other_call w w2" by (rule calls_only_trans)
  moreover have "calls_only other_call w2 w3" unfolding w3_def by (rule calls_only_issues [OF quiet_issues(3)])
  ultimately have "calls_only other_call w w3" by (rule calls_only_trans)
  moreover have "calls_only other_call w3 w4" unfolding w4_def by (rule calls_only_issues [OF quiet_issues(4)])
  ultimately have "calls_only other_call w w4" by (rule calls_only_trans)
  with c1 l1 l4 show "calls_only other_call w (exec (send_payload E s) w)"
    and "link_view (exec (send_payload E s) w) = link_view w"
    unfolding run by simp_all
qed

lemma report_fix_never_reconnects:
  assumes "TRACKER_CLOUD_PROVIDER (cfg E) = NrfCloud" "link_ok (cfg E) w" "link_state w = LINK_CONNECTED"
  shows "calls_only other_call w (exec (report_fix E fx t r) w)"
proof -
  define w1 where "w1 = exec (collect_telemetry E fx t r) w"
  define w2 where "w2 = exec (watchdog_phase TRACKER_PHASE_REPORT) w1"
  define tm where "tm = result (collect_telemetry E fx t r) w"
  obtain n payload where built: "result (telemetry_build_json E tm 256) w2 = (n, payload)"
    by (cases "result (telemetry_build_json E tm 256) w2")
  define w3 where "w3 = exec (send_payload E payload) w2"
  define rest where "rest = do {
      when_do (result (send_payload E payload) w2 = 0) (do {
        now \<leftarrow> k_uptime_get E;
        modify (\<lambda>w. w\<lparr>last_send_uptime := now\<rparr>) });
      (case fx of
          Some f \<Rightarrow> when_do (result (send_payload E payload) w2 = 0) (ignore (cloud_nrf_send_location E f))
        | None \<Rightarrow> skip);
      watchdog_feed E }"
  have run: "exec (report_fix E fx t r) w = (if n < 0 then w2 else exec rest w3)"
    using assms(1)
    by (simp add: report_fix_def rest_def run_simps w1_def [symmetric] w2_def [symmetric]
        tm_def [symmetric] built w3_def [symmetric] cloud_send_location_def split: option.split)
  have c1: "calls_only other_call w w1"
    unfolding w1_def by (rule calls_only_issues [OF quiet_issues(1)])
  moreover have "calls_only other_call w1 w2"
    by (rule calls_only_refl) (simp add: w2_def watchdog_phase_def run_simps)
  ultimately have c2: "calls_only other_call w w2" by (rule calls_only_trans)
  have "link_view w1 = link_view w" unfolding w1_def by (rule advances_sameD [OF link_steps(1)])
  moreover have "link_view w2 = link_view w1"
    by (simp add: w2_def watchdog_phase_def run_simps link_view_def)
  ultimately have "link_ok (cfg E) w2" "link_state w2 = LINK_CONNECTED"
    using assms(2,3) by (simp_all add: link_ok_def link_view_def)
  then have "calls_only other_call w2 w3"
    unfolding w3_def by (rule send_payload_never_reconnects(1) [OF assms(1)])
  with c2 have c3: "calls_only other_call w w3" by (rule calls_only_trans)
  have "issues other_call rest"
    unfolding rest_def by (intro issues_rules quiet_issues) simp_all
  then have "calls_only other_call w3 (exec rest w3)" by (rule calls_only_issues)
  with c3 have "calls_only other_call w (exec rest w3)" by (rule calls_only_trans)
  with c2 show ?thesis unfolding run by simp
qed

text \<open>Without a fix nothing is sent, unless the build asks for it.\<close>

lemma report_outcome_silent:
  assumes "\<not> TRACKER_FORCE_PUBLISH_WITHOUT_FIX (cfg E)"
  shows "issues (\<lambda>c. (\<forall>x. c \<noteq> Cloud x) \<and> (\<forall>x. c \<noteq> Net x)) (report_outcome E None t r)"
  unfolding report_outcome_def option.case status_led_report_def led_pattern_def lte_is_registered_def Let_def
  by (intro issues_rules) (auto simp: assms led_call_def)

section \<open>Boot ends at rest\<close>

lemma gnss_ext_init_idle:
  assumes "idle w" "\<not> powered w"
  shows "idle (exec (gnss_ext_init E) w)"
proof -
  have conf: "idle (exec (api E (Board (Gpio_pin_configure p))) v)" if "idle v" "\<not> powered v" for p v
    using that ext_power_ok_intr [of v "Board (Gpio_pin_configure p)"]
    by (auto simp: idle_def ext_power_ok_def hist_api intr_powered)
  have susp: "idle (exec (api E (Board (Pm_device_action_run Dev_uart PM_DEVICE_ACTION_SUSPEND))) v)"
    if "idle v" for v
    using that ext_power_ok_intr [of v "Board (Pm_device_action_run Dev_uart PM_DEVICE_ACTION_SUSPEND)"]
    by (auto simp: idle_def ext_power_ok_def hist_api intr_powered)
  have kern: "idle (exec (api E (Kern k)) v)" if "idle v" for k v
    using that by (simp add: rx_same_keeps(4) [OF rx_same_api])
  show ?thesis
    using assms by (simp add: gnss_ext_init_def run_simps conf susp kern)
qed

text \<open>The parts of boot before and after \<open>gnss_init\<close> touch no receiver.\<close>

lemma boot_parts_rx [advances_rules]:
  "advances rx_same (modem_lib_init E)" "advances rx_same (boot_peripherals E)"
  "advances rx_same (boot_network E)" "advances rx_same (gnss_modem_init E)"
  unfolding modem_lib_init_def on_modem_lib_init_def boot_peripherals_def watchdog_init_def
    phase_init_def power_init_def read_vbus_present_def motion_init_def set_attr_def
    status_led_init_def set_channel_def boot_network_def gnss_modem_init_def Let_def
  by (intro advances_rules; simp add: rx_same_fields rx_call_def ext_power_call_def)+

lemma advances_rx_powered: "advances rx_same m \<Longrightarrow> powered (exec m w) = powered w"
  using advancesD [of rx_same m w] by (simp add: rx_same_def)

lemma idle_fields [simp]:
  "idle (w\<lparr>active := a\<rparr>) = idle w" "idle (w\<lparr>external_usable := u\<rparr>) = idle w"
  by (simp_all add: idle_def ext_power_ok_def)

lemma gnss_init_idle:
  assumes "idle w" "\<not> powered w"
  shows "idle (exec (gnss_init E) w)"
  using assms gnss_ext_init_idle [of "exec (gnss_modem_init E) w"]
    advances_rx(5) [OF boot_parts_rx(4), of w] advances_rx_powered [OF boot_parts_rx(4), of w]
  by (simp add: gnss_init_def run_simps)

lemma boot_idle:
  assumes "idle w" "\<not> powered w"
  shows "idle (exec (boot E) w)"
proof -
  define v where "v = exec (boot_peripherals E) (exec (modem_lib_init E) w)"
  have v: "idle v" "\<not> powered v"
    using assms by (simp_all add: v_def advances_rx(5) [OF boot_parts_rx(1)] advances_rx(5) [OF boot_parts_rx(2)]
        advances_rx_powered [OF boot_parts_rx(1)] advances_rx_powered [OF boot_parts_rx(2)])
  have "idle (exec (gnss_init E) v)" by (rule gnss_init_idle [OF v])
  then show ?thesis
    using assms v by (simp add: boot_def run_simps advances_rx(5) [OF boot_parts_rx(1)]
        advances_rx(5) [OF boot_parts_rx(3)] v_def)
qed

end

section \<open>Bundles\<close>

text \<open>The definitions that a rule-by-rule proof about every function unfolds, group by group.\<close>

lemmas board_defs = k_uptime_get_def watchdog_phase_def watchdog_guard_start_def
  watchdog_guard_stop_def power_vbus_present_def read_vbus_present_def power_read_def
  motion_last_event_uptime_def atomic_defs status_led_set_def status_led_pattern_def
  status_led_sleep_def stop_blink_def apply_led_def set_channel_def reschedule_blink_def
  lte_is_registered_def lte_ensure_connected_def wake_wait_def wake_take_def Let_def

lemmas send_defs = cloud_send_telemetry_def cloud_send_location_def cloud_is_ready_def
  cloud_nrf_send_telemetry_def cloud_nrf_send_location_def cloud_nrf_is_ready_def
  cloud_hologram_send_telemetry_def cloud_hologram_send_location_def cloud_hologram_is_ready_def
  hologram_send_def build_envelope_def add_strings_def socket_send_envelope_def exchange_def Let_def

lemmas link_defs = cloud_resume_def cloud_nrf_resume_def cloud_nrf_connect_def
  cloud_hologram_resume_def modem_time_wait_def cloud_pause_def cloud_nrf_pause_def
  cloud_hologram_pause_def

lemmas cloud_init_defs = cloud_init_def cloud_nrf_init_def credentials_ok_def
  cloud_hologram_init_def

lemmas receiver_defs = gnss_start_def gnss_start_modem_def gnss_stop_def gnss_fallback_def
  gnss_fallback_available_def gnss_fix_timeout_seconds_def gnss_agnss_request_wait_def
  gnss_wait_fix_def gnss_ext_start_def gnss_ext_open_def gnss_ext_stop_def power_set_def
  gnss_modem_start_def gnss_modem_stop_def gnss_modem_agnss_request_wait_def gnss_ext_wait_fix_def
  gnss_modem_wait_fix_def locked_def Let_def

lemmas assist_defs = agnss_fetch_and_inject_def rate_limited_def fetch_and_inject_def
  gnss_modem_agnss_request_get_def serving_cell_info_get_def download_and_inject_def
  agnss_wanted_def gnss_active_source_def locked_def Let_def

lemmas report_defs = vbus_or_surge_def surge_active_def status_led_report_def led_pattern_def
  collect_telemetry_def telemetry_build_json_def watchdog_reset_phase_def settle_fix_def
  wait_fix_opt_def cycle_network_def Let_def

lemmas fix_defs = cold_start_assist_def fallback_fix_def last_resort_fix_def acquire_fix_def Let_def

lemmas boot_defs = modem_lib_init_def on_modem_lib_init_def boot_peripherals_def watchdog_init_def
  phase_init_def power_init_def read_vbus_present_def motion_init_def set_attr_def
  status_led_init_def set_channel_def gnss_init_def gnss_modem_init_def gnss_ext_init_def
  boot_network_def Let_def

end
