(* ===== verification/Rest.thy ===== *)
theory Rest
  imports Cycle
begin

text \<open>
  What the receivers are doing whenever the main thread goes to sleep: a property of the history of a
  whole run, whether or not its last cycle was completed.
\<close>

section \<open>Sleeping at rest\<close>

text \<open>\<open>k_sem_take(&wake_sem, ...)\<close> is the battery sleep.\<close>

definition sleep_call :: "call \<Rightarrow> bool" where
  "sleep_call c = (case c of Kern (K_sem_take Wake_sem _) \<Rightarrow> True | _ \<Rightarrow> False)"

fun sleeps_at_rest :: "event list \<Rightarrow> bool" where
  "sleeps_at_rest [] \<longleftrightarrow> True"
| "sleeps_at_rest (e # h) \<longleftrightarrow> sleeps_at_rest h \<and>
     (if \<not> ev_isr e \<and> sleep_call (ev_call e) then \<not> uart_active h \<and> \<not> modem_running h else True)"

lemma sleeps_append:
  "\<forall>e \<in> set es. ev_isr e \<or> \<not> sleep_call (ev_call e) \<Longrightarrow> sleeps_at_rest (es @ h) = sleeps_at_rest h"
  by (induction es) auto

abbreviation awake_call :: "call \<Rightarrow> bool" where
  "awake_call c \<equiv> \<not> sleep_call c"

lemma issues_sleeps:
  "issues awake_call m \<Longrightarrow> sleeps_at_rest (hist (exec m w)) = sleeps_at_rest (hist w)"
  using sleeps_append unfolding issues_def by metis

lemma sleep_call_simps [simp]:
  "sleep_call (Kern (K_sem_take s t)) \<longleftrightarrow> s = Wake_sem"
  "\<not> sleep_call (Board b)" "\<not> sleep_call (Modem m)" "\<not> sleep_call (Cloud c)" "\<not> sleep_call (Net n)"
  "(\<And>s t. k \<noteq> K_sem_take s t) \<Longrightarrow> \<not> sleep_call (Kern k)"
  by (simp_all add: sleep_call_def split: semaphore.splits kern_call.splits)

text \<open>What holds throughout a run: every sleep so far at rest, the module's power in order.\<close>

definition safe :: "'a tracker_state_scheme \<Rightarrow> bool" where
  "safe w \<longleftrightarrow> sleeps_at_rest (hist w) \<and> ext_power_ok w"

definition resting :: "'a tracker_state_scheme \<Rightarrow> bool" where
  "resting w \<longleftrightarrow> idle w \<and> sleeps_at_rest (hist w)"

lemma resting_safe: "resting w \<Longrightarrow> safe w"
  by (simp add: resting_def safe_def idle_def)

section \<open>Nothing but the battery sleep sleeps\<close>

context tracker_runtime begin

lemma modem_time_loop_awake [issues_rules]: "issues awake_call (modem_time_loop E waited)"
proof (induction "TRACKER_MODEM_TIME_WAIT_SECONDS (cfg E) - waited" arbitrary: waited rule: less_induct)
  case less
  show ?case
    by (subst modem_time_loop.simps) (intro issues_rules less; simp add: MODEM_TIME_POLL_S_def)
qed

lemma awake_leaves [issues_rules]:
  "issues awake_call (k_uptime_get E)" "issues awake_call (watchdog_feed E)"
  "issues awake_call (watchdog_phase p)" "issues awake_call (watchdog_guard_start E b)"
  "issues awake_call (watchdog_guard_stop E)" "issues awake_call (power_vbus_present E)"
  "issues awake_call (power_read E)" "issues awake_call (motion_set_armed E a)"
  "issues awake_call (motion_last_event_uptime E)" "issues awake_call (status_led_set E st)"
  "issues awake_call (status_led_pattern E pat)" "issues awake_call (status_led_sleep E)"
  "issues awake_call (lte_is_registered E)"
  unfolding board_defs watchdog_feed_def motion_set_armed_def
  by (intro issues_rules; simp)+

lemma awake_cloud [issues_rules]:
  "issues awake_call (cloud_init E)" "issues awake_call (cloud_resume E)" "issues awake_call (cloud_pause E)"
  "issues awake_call (cloud_send_telemetry E s)" "issues awake_call (cloud_send_location E f)"
  "issues awake_call (cloud_is_ready E)"
  unfolding send_defs link_defs cloud_init_defs
  by (cases "TRACKER_CLOUD_PROVIDER (cfg E)"; simp only: cloud_provider.case; intro issues_rules; simp)+

text \<open>The parts of a cycle.\<close>

lemma awake_agnss [issues_rules]:
  "issues awake_call (agnss_fetch_and_inject E)" "issues awake_call (agnss_wanted E)"
  unfolding agnss_fetch_and_inject_def rate_limited_def fetch_and_inject_def serving_cell_info_get_def
    download_and_inject_def agnss_wanted_def Let_def
  by (intro issues_rules; simp)+

lemma awake_fix [issues_rules]:
  "issues awake_call (cold_start_assist E b)" "issues awake_call (wait_fix_opt E t)"
  "issues awake_call (fallback_fix E b)" "issues awake_call (last_resort_fix E)"
  "issues awake_call (acquire_fix E)"
  unfolding acquire_fix_def last_resort_fix_def fallback_fix_def wait_fix_opt_def cold_start_assist_def Let_def
  by (intro issues_rules; simp)+

lemma awake_report [issues_rules]:
  "issues awake_call (vbus_or_surge E mc)" "issues awake_call (status_led_report E b)"
  "issues awake_call (collect_telemetry E fx t r)" "issues awake_call (telemetry_build_json E tm n)"
  "issues awake_call (send_payload E s)"
  unfolding report_defs send_payload_def
  by (intro issues_rules; simp)+

lemma awake_report_fix [issues_rules]:
  "issues awake_call (report_fix E fx t r)" "issues awake_call (settle_fix E f)"
  unfolding report_fix_def settle_fix_def
  by (intro issues_rules; simp)+

lemma awake_outcome [issues_rules]: "issues awake_call (report_outcome E fx t r)"
  unfolding report_outcome_def by (intro issues_rules; simp)

lemma awake_first [issues_rules]:
  "issues awake_call (first_report E fx t r)" "issues awake_call (frequent_body E t r)"
  unfolding first_report_def frequent_body_def
  by (intro issues_rules; simp)+

lemma awake_frequent [issues_rules]:
  "issues awake_call (frequent_loop fuel E mc t r)" "issues awake_call (frequent_reporting fuel E mc t r)"
proof -
  show "issues awake_call (frequent_loop fuel E mc t r)"
    by (induction fuel) (simp_all add: issues_return, intro issues_rules, simp_all)
  then show "issues awake_call (frequent_reporting fuel E mc t r)"
    unfolding frequent_reporting_def by (intro issues_rules)
qed

lemma awake_cycle [issues_rules]:
  "issues awake_call (recover_if_silent E)" "issues awake_call (cycle_network E)"
  "issues awake_call (modem_lib_init E)" "issues awake_call (boot_peripherals E)" "issues awake_call (boot E)"
  unfolding recover_if_silent_def cycle_network_def lte_ensure_connected_def modem_lib_init_def
    on_modem_lib_init_def boot_def boot_peripherals_def boot_network_def watchdog_init_def phase_init_def
    power_init_def read_vbus_present_def motion_init_def set_attr_def status_led_init_def set_channel_def Let_def
  by (intro issues_rules; simp)+

section \<open>The battery sleep\<close>

lemma sleeps_intr: "sleeps_at_rest (hist (intr E c w)) = sleeps_at_rest (hist w)"
proof -
  obtain es where "hist (intr E c w) = es @ hist w" "\<forall>e \<in> set es. ev_isr e" using intr_appends by blast
  then show ?thesis by (simp add: sleeps_append)
qed

lemma sleeps_api:
  "idle w \<Longrightarrow> sleeps_at_rest (hist w) \<Longrightarrow> sleeps_at_rest (hist (exec (api E c) w))"
  using rx_same_keeps(4) [OF rx_same_intr, of w c] by (simp add: hist_api sleeps_intr idle_def)

lemma wake_wait_sleeps:
  assumes "idle w" "sleeps_at_rest (hist w)"
  shows "sleeps_at_rest (hist (exec (wake_wait E s) w))"
proof -
  have api: "idle (exec (api E (Kern k)) v)" if "idle v" for k v
    using that by (simp add: rx_same_keeps(4) [OF rx_same_api])
  have fields: "idle (v\<lparr>pending := p\<rparr>) = idle v" for v p
    by (simp add: idle_def ext_power_ok_def)
  show ?thesis
    using assms by (simp add: wake_wait_def wake_take_def atomic_defs run_simps sleeps_api api fields)
qed

lemma battery_sleep_sleeps:
  assumes "idle w" "sleeps_at_rest (hist w)"
  shows "sleeps_at_rest (hist (exec (battery_sleep E) w))"
proof -
  define m where "m = do {
     arm \<leftarrow> gets (\<lambda>w. battery_sleeps w \<ge> word_of_nat (TRACKER_MOTION_SETTLE_CYCLES (cfg E)));
     watchdog_phase TRACKER_PHASE_LED_SLEEP;
     status_led_sleep E;
     watchdog_phase TRACKER_PHASE_MOTION_ARM;
     motion_set_armed E arm;
     when_do (\<not> arm) (modify (battery_sleeps_update (\<lambda>n. n + 1)));
     watchdog_phase TRACKER_PHASE_SLEEP }"
  have "advances rx_same m" unfolding m_def by (intro advances_rules; simp add: rx_same_fields)
  then have "idle (exec m w)" using assms(1) by (rule advances_rx(5))
  moreover have "issues awake_call m" unfolding m_def by (intro issues_rules; simp)
  then have "sleeps_at_rest (hist (exec m w))" using assms(2) by (simp add: issues_sleeps)
  moreover have "exec (battery_sleep E) w = exec (wake_wait E (TRACKER_SLEEP_SECONDS (cfg E))) (exec m w)"
    by (simp add: battery_sleep_def m_def run_simps)
  ultimately show ?thesis by (simp add: wake_wait_sleeps)
qed

section \<open>Every sleep of a run\<close>

lemma awake_resting:
  "resting w \<Longrightarrow> issues awake_call m \<Longrightarrow> advances rx_same m \<Longrightarrow> resting (exec m w)"
  by (simp add: resting_def issues_sleeps advances_rx(5))

lemma sleep_until_wake_resting: "resting w \<Longrightarrow> resting (exec (sleep_until_wake E) w)"
  using advances_rx(5) [OF sleep_until_wake_rx, of w]
  by (simp add: resting_def) (simp add: sleep_until_wake_def run_simps battery_sleep_sleeps)

text \<open>A step that is awake and touches no receiver, then the sleep.\<close>

lemma pause_and_sleep:
  "resting w \<Longrightarrow> issues awake_call m \<Longrightarrow> advances rx_same m \<Longrightarrow>
   resting (exec (do { m; sleep_until_wake E }) w)"
  by (simp add: run_simps sleep_until_wake_resting awake_resting)

lemma cycle_tracking_safe:
  assumes "rx_sound (reply E)" "rx_inv (cfg E) w" "sleeps_at_rest (hist w)"
  shows "safe (exec (cycle_tracking fuel E t r) w)"
proof -
  define pre where "pre = do {
     fx \<leftarrow> acquire_fix E;
     first_report E fx t r;
     frequent_reporting fuel E (r = TRACKER_WAKE_MOTION) t r }"
  define stop where "stop = do { watchdog_phase TRACKER_PHASE_GNSS_STOP; gnss_stop E }"
  define m where "m = do { watchdog_phase TRACKER_PHASE_CLOUD_PAUSE; cloud_pause E }"
  define v where "v = exec pre w"
  define u where "u = exec stop v"
  have "keeps (rx_inv (cfg E)) pre"
    unfolding pre_def
    by (intro keeps_bind acquire_fix_rx assms(1) keeps_rx [OF first_report_rx] keeps_rx [OF frequent_reporting_rx])
  then have v: "rx_inv (cfg E) v" unfolding v_def using assms(2) by (rule keepsD)
  have "issues awake_call pre" unfolding pre_def by (intro issues_rules)
  then have sv: "sleeps_at_rest (hist v)" unfolding v_def using assms(3) by (simp add: issues_sleeps)
  have "rx_inv (cfg E) (exec (watchdog_phase TRACKER_PHASE_GNSS_STOP) v)"
    by (rule keepsD [OF keeps_rx [OF tracker_rx(8)] v])
  then have "idle u"
    unfolding u_def stop_def using gnss_stop_rest [OF assms(1)] by (simp add: run_simps)
  moreover have "issues awake_call stop" unfolding stop_def by (intro issues_rules; simp)
  then have "sleeps_at_rest (hist u)" unfolding u_def using sv by (simp add: issues_sleeps)
  ultimately have "resting u" by (simp add: resting_def)
  then have "resting (exec (do { m; sleep_until_wake E }) u)"
    unfolding m_def by (rule pause_and_sleep) (intro issues_rules advances_rules; simp)+
  moreover have "safe v" using v sv by (simp add: safe_def rx_inv_def rx_ok_def)
  moreover have "exec (cycle_tracking fuel E t r) w =
      (if result pre w then exec (do { m; sleep_until_wake E }) u else v)"
    by (simp add: cycle_tracking_def pre_def stop_def m_def v_def u_def run_simps)
  ultimately show ?thesis by (simp add: resting_safe)
qed

lemma cycle_online_safe:
  assumes "rx_sound (reply E)" "resting w"
  shows "safe (exec (cycle_online fuel E t r) w)"
proof -
  define pre where "pre = do {
     watchdog_phase TRACKER_PHASE_CLOUD_RESUME;
     watchdog_guard_start E (word_of_nat (TRACKER_CLOUD_CONNECT_BUDGET_SECONDS (cfg E)));
     ignore (cloud_resume E);
     watchdog_guard_stop E;
     status_led_report E False;
     watchdog_phase TRACKER_PHASE_GNSS_START }"
  define v where "v = exec pre w"
  define u where "u = exec (gnss_start E) v"
  have v: "resting v"
    unfolding v_def pre_def by (rule awake_resting [OF assms(2)]) (intro issues_rules advances_rules; simp)+
  note start = gnss_start_ok [OF conjunct1 [OF v [unfolded resting_def]], folded u_def,
      OF conjunct1 [OF assms(1) [unfolded rx_sound_def]]]
  have "issues awake_call (gnss_start E)" by (intro issues_rules; simp)
  then have su: "sleeps_at_rest (hist u)"
    using v by (simp add: u_def resting_def issues_sleeps)
  have "safe (exec (do { cloud_pause E; sleep_until_wake E }) u)" if "result (gnss_start E) v \<noteq> 0"
  proof -
    have u: "resting u" using start(3) [OF that] su by (simp add: resting_def)
    show ?thesis
      by (rule resting_safe [OF pause_and_sleep [OF u]]) (intro issues_rules advances_rules)+
  qed
  moreover have "safe (exec (cycle_tracking fuel E t r) u)"
    by (rule cycle_tracking_safe [OF assms(1) _ su]) (simp add: rx_inv_def start)
  moreover have "exec (cycle_online fuel E t r) w = (if result (gnss_start E) v = 0
      then exec (cycle_tracking fuel E t r) u else exec (do { cloud_pause E; sleep_until_wake E }) u)"
    by (simp add: cycle_online_def pre_def v_def u_def run_simps)
  ultimately show ?thesis by simp
qed

lemma cycle_safe:
  assumes "rx_sound (reply E)" "resting w"
  shows "safe (exec (cycle fuel E r) w)"
proof -
  define t where "t = to_u32 (result (k_uptime_get E) w)"
  define pre where "pre = do {
     now \<leftarrow> k_uptime_get E;
     when_do (r = TRACKER_WAKE_VBUS) (modify (\<lambda>w. w\<lparr>battery_sleeps := 0\<rparr>));
     watchdog_phase TRACKER_PHASE_WAKE;
     watchdog_feed E;
     if TRACKER_SKIP_LTE (cfg E) then return False else recover_if_silent E }"
  define v where "v = exec pre w"
  define u where "u = exec (cycle_network E) v"
  have v: "resting v"
    unfolding v_def pre_def
    by (rule awake_resting [OF assms(2)]) (intro issues_rules advances_rules; simp add: rx_same_fields)+
  have "advances rx_same (cycle_network E)"
    unfolding cycle_network_def by (intro advances_rules; simp)
  then have u: "resting u" unfolding u_def by (intro awake_resting [OF v] awake_cycle)
  have "resting (exec (do { status_led_set E TRACKER_STATUS_NO_LTE; sleep_until_wake E }) u)"
    by (rule pause_and_sleep [OF u]) (intro issues_rules advances_rules)+
  moreover have "exec (cycle fuel E r) w = (if result pre w then v
      else if result (cycle_network E) v then exec (cycle_online fuel E t r) u
      else exec (do { status_led_set E TRACKER_STATUS_NO_LTE; sleep_until_wake E }) u)"
    by (simp add: cycle_def pre_def v_def u_def t_def Let_def run_simps)
  ultimately show ?thesis using v cycle_online_safe [OF assms(1) u] by (simp add: resting_safe)
qed

lemma cycles_safe:
  assumes "rx_sound (reply E)" "resting w"
  shows "safe (exec (cycles n fuel E r) w)"
  using assms(2)
proof (induction n arbitrary: w r)
  case (Suc n)
  have safe: "safe (exec (cycle fuel E r) w)" by (rule cycle_safe [OF assms(1) Suc.prems])
  have "idle (exec (cycle fuel E r) w)" if "result (cycle fuel E r) w = Slept r'" for r'
    using cycle_rest [OF assms(1) _ that] Suc.prems by (simp add: resting_def)
  then show ?case
    using safe Suc.IH
    by (cases "result (cycle fuel E r) w") (auto simp: run_simps safe_def resting_def)
qed (simp add: run_simps resting_safe)

text \<open>From power-on: \<open>main\<close> as a whole.\<close>

lemma main_safe:
  assumes "rx_sound (reply E)" "resting w" "\<not> powered w"
  shows "safe (exec (main n fuel E) w)"
proof -
  have "resting (exec (boot E) w)"
    using assms(2,3) boot_idle [of w] issues_sleeps [OF awake_cycle(5), of w] by (simp add: resting_def)
  then show ?thesis
    by (auto simp: main_def run_simps resting_safe cycles_safe [OF assms(1)] split: option.split)
qed

end

end
