(* ===== verification/Handlers.thy ===== *)
theory Handlers
  imports Rest
begin

text \<open>
  The interrupts and callbacks of the firmware, and the environment of the main thread in which they
  run.  A schedule says which of them run before each call of the main thread is answered; they run
  to completion, one after the other.
\<close>

section \<open>Delivering an interrupt\<close>

datatype interrupt =
    Int_gnss gnss_event | Int_gnss_data gnss_data | Int_lte lte_lc_evt | Int_pmic u32
  | Int_motion | Int_guard | Int_blink

text \<open>Whether the guard timer runs.\<close>

fun timer_running :: "event list \<Rightarrow> bool" where
  "timer_running [] = False"
| "timer_running (e # h) = (case ev_call e of
     Kern (K_timer_start _ _) \<Rightarrow> True | Kern K_timer_stop \<Rightarrow> False | _ \<Rightarrow> timer_running h)"

text \<open>A source that is compiled out, disarmed, stopped or not queued raises nothing.\<close>

definition can_fire :: "config \<Rightarrow> 'a tracker_state_scheme \<Rightarrow> interrupt \<Rightarrow> bool" where
  "can_fire C w i = (case i of
     Int_gnss_data _ \<Rightarrow> TRACKER_GNSS_EXTERNAL C
   | Int_motion \<Rightarrow> TRACKER_MOTION_WAKE C \<and> trigger_set (hist w)
   | Int_guard \<Rightarrow> timer_running (hist w)
   | Int_blink \<Rightarrow> TRACKER_STATUS_LED C \<and> work_pending (hist w)
   | _ \<Rightarrow> True)"

definition handler :: "('a tracker_state_scheme) env \<Rightarrow> interrupt \<Rightarrow> ('a tracker_state_scheme, unit) state" where
  "handler E i = (case i of
     Int_gnss ev \<Rightarrow> gnss_event_handler E ev
   | Int_gnss_data d \<Rightarrow> gnss_data_handler E d
   | Int_lte evt \<Rightarrow> lte_handler E evt
   | Int_pmic pins \<Rightarrow> event_callback E pins
   | Int_motion \<Rightarrow> motion_handler E
   | Int_guard \<Rightarrow> guard_expiry E
   | Int_blink \<Rightarrow> blink_work_handler E)"

definition deliver :: "('a tracker_state_scheme) env \<Rightarrow> interrupt \<Rightarrow> 'a tracker_state_scheme \<Rightarrow> 'a tracker_state_scheme" where
  "deliver E i w = (if can_fire (cfg E) w i then exec (handler (isr_env E) i) w else w)"

text \<open>
  \<open>when_int h c\<close> lists the interrupts that arrive while the main thread, with history \<open>h\<close>, is in
  call \<open>c\<close>.
\<close>

type_synonym schedule = "event list \<Rightarrow> call \<Rightarrow> interrupt list"

definition isr_base :: "config \<Rightarrow> sdk_consts \<Rightarrow> (event list \<Rightarrow> call \<Rightarrow> resp) \<Rightarrow> ('a tracker_state_scheme) env" where
  "isr_base C S R = \<lparr>cfg = C, sdk = S, in_isr = True, reply = R, intr = (\<lambda>_ w. w)\<rparr>"

definition tracker_env :: "config \<Rightarrow> sdk_consts \<Rightarrow> (event list \<Rightarrow> call \<Rightarrow> resp) \<Rightarrow> schedule \<Rightarrow>
    ('a tracker_state_scheme) env" where
  "tracker_env C S R when_int = \<lparr>cfg = C, sdk = S, in_isr = False, reply = R,
     intr = (\<lambda>c w. fold (deliver (isr_base C S R)) (when_int (hist w) c) w)\<rparr>"

lemma isr_base_simps [simp]:
  "cfg (isr_base C S R) = C" "sdk (isr_base C S R) = S" "reply (isr_base C S R) = R"
  by (simp_all add: isr_base_def)

lemma tracker_env_simps [simp]:
  "cfg (tracker_env C S R when_int) = C" "sdk (tracker_env C S R when_int) = S"
  "reply (tracker_env C S R when_int) = R" "\<not> in_isr (tracker_env C S R when_int)"
  "intr (tracker_env C S R when_int) c w = fold (deliver (isr_base C S R)) (when_int (hist w) c) w"
  by (simp_all add: tracker_env_def)

section \<open>What handlers do\<close>

text \<open>The calls they make.\<close>

definition handler_call :: "call \<Rightarrow> bool" where
  "handler_call c = (case c of
     Kern k \<Rightarrow> (case k of
         K_uptime_get \<Rightarrow> True | Atomic_set _ _ \<Rightarrow> True | K_sem_give _ \<Rightarrow> True
       | K_spin_lock _ \<Rightarrow> True | K_spin_unlock _ \<Rightarrow> True | K_timer_stop \<Rightarrow> True
       | Wdt_feed _ \<Rightarrow> True | K_work_reschedule _ \<Rightarrow> True | _ \<Rightarrow> False)
   | Board b \<Rightarrow> (case b of Led_on _ \<Rightarrow> True | Led_off _ \<Rightarrow> True | _ \<Rightarrow> False)
   | Modem m \<Rightarrow> (case m of Gnss_read _ \<Rightarrow> True | _ \<Rightarrow> False)
   | _ \<Rightarrow> False)"

definition handler_events :: "'a tracker_state_scheme \<Rightarrow> 'a tracker_state_scheme \<Rightarrow> bool" where
  "handler_events w w' \<longleftrightarrow> (\<exists>es. hist w' = es @ hist w \<and> (\<forall>e \<in> set es. ev_isr e \<and> handler_call (ev_call e)))"

lemma handler_events_trans: "handler_events u v \<Longrightarrow> handler_events v w \<Longrightarrow> handler_events u w"
proof -
  assume "handler_events u v" "handler_events v w"
  then obtain es fs where es: "hist v = es @ hist u" "\<forall>e \<in> set es. ev_isr e \<and> handler_call (ev_call e)"
    and fs: "hist w = fs @ hist v" "\<forall>e \<in> set fs. ev_isr e \<and> handler_call (ev_call e)"
    unfolding handler_events_def by blast
  have "hist w = (fs @ es) @ hist u" "\<forall>e \<in> set (fs @ es). ev_isr e \<and> handler_call (ev_call e)"
    using es fs by auto
  then show ?thesis unfolding handler_events_def by blast
qed

lemma reflp_handler_events [simp]: "reflp handler_events"
  by (rule reflpI) (simp add: handler_events_def)

lemma transp_handler_events [simp]: "transp handler_events"
  by (rule transpI) (rule handler_events_trans)

text \<open>The fields that are the main thread's own.\<close>

definition owned :: "'a tracker_state_scheme \<Rightarrow> _" where
  "owned w = ((wdt_channel w, phase_magic w, phase_current w, phase_at_reset w),
     (armed w, usable w), (available w, current_status w, current_pattern w, blinking w),
     (powered w, active w, external_usable w), (link_state w, creds_ok w, modem_time_ready w),
     (last_fetch_uptime_ms w, last_send_uptime w, modem_bounced w, battery_sleeps w))"

definition req_sticky :: "'a tracker_state_scheme \<Rightarrow> 'a tracker_state_scheme \<Rightarrow> bool" where
  "req_sticky w w' \<longleftrightarrow> (agnss_req_valid w \<longrightarrow> agnss_req_valid w')"

lemma req_sticky_pre [simp]: "reflp req_sticky" "transp req_sticky"
  by (auto simp: req_sticky_def reflp_def transp_def)

lemma handler_fields [simp]:
  "handler_events w (w\<lparr>pending := a\<rparr>)" "handler_events w (w\<lparr>vbus_connected := b\<rparr>)"
  by (simp_all add: handler_events_def)

lemma handler_events_fields: "hist w' = hist w \<Longrightarrow> handler_events w w'"
  by (simp add: handler_events_def)

lemma handler_api [advances_rules]:
  fixes E :: "('a tracker_state_scheme) env"
  assumes "handler_call c"
  shows "advances handler_events (api (isr_env E) c)" "advances handler_events (api_do (isr_env E) c)"
proof -
  have "handler_events w (exec (api (isr_env E) c) w)" for w :: "'a tracker_state_scheme"
    unfolding handler_events_def using assms
    by (intro exI [of _ "[Ev True c (reply E (hist w) c)]"]) (simp add: api_simps)
  then show "advances handler_events (api (isr_env E) c)" "advances handler_events (api_do (isr_env E) c)"
    by (simp_all add: advances_def run_simps)
qed

lemmas handler_defs = gnss_event_handler_def gnss_data_handler_def lte_handler_def
  event_callback_def motion_handler_def guard_expiry_def blink_work_handler_def apply_led_def
  set_channel_def reschedule_blink_def wake_signal_def watchdog_feed_def k_uptime_get_def
  locked_def atomic_defs Let_def

lemma advances_case_events [advances_rules]:
  "advances R a \<Longrightarrow> advances R b \<Longrightarrow> advances R c \<Longrightarrow> advances R d \<Longrightarrow> (\<And>n. advances R (e n)) \<Longrightarrow>
   advances R (case ev of NRF_MODEM_GNSS_EVT_PVT \<Rightarrow> a | NRF_MODEM_GNSS_EVT_AGNSS_REQ \<Rightarrow> b
     | NRF_MODEM_GNSS_EVT_BLOCKED \<Rightarrow> c | NRF_MODEM_GNSS_EVT_UNBLOCKED \<Rightarrow> d
     | NRF_MODEM_GNSS_EVT_OTHER n \<Rightarrow> e n)"
  "(\<And>s. advances R (f s)) \<Longrightarrow> advances R g \<Longrightarrow>
   advances R (case evt of LTE_LC_EVT_NW_REG_STATUS s \<Rightarrow> f s | LTE_LC_EVT_OTHER \<Rightarrow> g)"
  by (cases ev; simp) (cases evt; simp)

lemma advances_case_interrupt [advances_rules]:
  "(\<And>x. advances R (a x)) \<Longrightarrow> (\<And>x. advances R (b x)) \<Longrightarrow> (\<And>x. advances R (c x)) \<Longrightarrow>
   (\<And>x. advances R (d x)) \<Longrightarrow> advances R e \<Longrightarrow> advances R f \<Longrightarrow> advances R g \<Longrightarrow>
   advances R (case i of Int_gnss x \<Rightarrow> a x | Int_gnss_data x \<Rightarrow> b x | Int_lte x \<Rightarrow> c x
     | Int_pmic x \<Rightarrow> d x | Int_motion \<Rightarrow> e | Int_guard \<Rightarrow> f | Int_blink \<Rightarrow> g)"
  by (cases i) simp_all

text \<open>They only add calls of their own kind, and leave the main thread's fields alone.\<close>

lemma handler_handler_events: "advances handler_events (handler (isr_env E) i)"
  unfolding handler_def handler_defs
  by (intro advances_rules; simp add: handler_call_def handler_events_fields)

lemma api_owned:
  "advances (same owned) (api (isr_env E) c)" "advances (same owned) (api_do (isr_env E) c)"
  "advances (same owned) (api_rc (isr_env E) c)"
  by (intro advances_api_same; simp add: api_simps owned_def)+

lemma handler_owned: "advances (same owned) (handler (isr_env E) i)"
  unfolding handler_def handler_defs
  by (intro advances_rules api_owned; simp add: same_def owned_def)

lemma api_sticky:
  "advances req_sticky (api (isr_env E) c)" "advances req_sticky (api_do (isr_env E) c)"
  by (simp_all add: advances_def req_sticky_def run_simps api_simps)

lemma handler_sticky: "advances req_sticky (handler (isr_env E) i)"
  unfolding handler_def handler_defs
  by (intro advances_rules api_sticky; simp add: req_sticky_def)

text \<open>The receivers' data move as their contracts say.\<close>

lemma api_isr_pvt:
  assumes "c \<noteq> Kern (K_sem_give Fix_sem_modem)" "c \<noteq> Modem (Gnss_read NRF_MODEM_GNSS_DATA_PVT)"
  shows "advances (pvt_step (sdk E)) (api (isr_env E) c)" "advances (pvt_step (sdk E)) (api_do (isr_env E) c)"
  using isr_gnss_modem.pvt_step_api [OF assms, of E] by (simp_all add: advances_def run_simps)

lemma pvt_step_fields: "hist w' = hist w \<Longrightarrow> last_pvt w' = last_pvt w \<Longrightarrow> pvt_step S w w'"
  unfolding pvt_step_def by (intro exI [of _ "[]"]) simp

lemma gnss_event_handler_pvt: "advances (pvt_step (sdk E)) (gnss_event_handler (isr_env E) ev)"
  by (simp add: advances_def gnss_event_handler_step)

lemma handler_pvt: "advances (pvt_step (sdk E)) (handler (isr_env E) i)"
  unfolding handler_def gnss_data_handler_def lte_handler_def
    event_callback_def motion_handler_def guard_expiry_def blink_work_handler_def apply_led_def
    set_channel_def reschedule_blink_def wake_signal_def watchdog_feed_def k_uptime_get_def
    locked_def atomic_defs Let_def
  by (intro advances_rules api_isr_pvt gnss_event_handler_pvt) (simp_all add: pvt_step_fields)

lemma api_isr_ext:
  assumes "c \<noteq> Kern (K_sem_give Fix_sem_ext)"
  shows "advances (ext_step (cfg E) (sdk E)) (api (isr_env E) c)"
    "advances (ext_step (cfg E) (sdk E)) (api_do (isr_env E) c)"
  using isr_gnss_ext.ext_step_api [OF assms, of E] by (simp_all add: advances_def run_simps)

lemma ext_step_fields: "hist w' = hist w \<Longrightarrow> last_fix w' = last_fix w \<Longrightarrow> ext_step C S w w'"
  unfolding ext_step_def by (intro exI [of _ "[]"]) simp

lemma gnss_data_handler_ext: "advances (ext_step (cfg E) (sdk E)) (gnss_data_handler (isr_env E) d)"
  by (simp add: advances_def gnss_data_handler_step)

lemma handler_ext: "advances (ext_step (cfg E) (sdk E)) (handler (isr_env E) i)"
  unfolding handler_def gnss_event_handler_def lte_handler_def
    event_callback_def motion_handler_def guard_expiry_def blink_work_handler_def apply_led_def
    set_channel_def reschedule_blink_def wake_signal_def watchdog_feed_def k_uptime_get_def
    locked_def atomic_defs Let_def
  by (intro advances_rules api_isr_ext gnss_data_handler_ext) (simp_all add: ext_step_fields)

text \<open>Reasons to wake are stored through \<open>wake_signal\<close> only.\<close>

lemma keeps_case_interrupt [hoare_rules]:
  "(\<And>x. keeps I (a x)) \<Longrightarrow> (\<And>x. keeps I (b x)) \<Longrightarrow> (\<And>x. keeps I (c x)) \<Longrightarrow>
   (\<And>x. keeps I (d x)) \<Longrightarrow> keeps I e \<Longrightarrow> keeps I f \<Longrightarrow> keeps I g \<Longrightarrow>
   keeps I (case i of Int_gnss x \<Rightarrow> a x | Int_gnss_data x \<Rightarrow> b x | Int_lte x \<Rightarrow> c x
     | Int_pmic x \<Rightarrow> d x | Int_motion \<Rightarrow> e | Int_guard \<Rightarrow> f | Int_blink \<Rightarrow> g)"
  by (cases i) simp_all

lemma keeps_case_events [hoare_rules]:
  "keeps I a \<Longrightarrow> keeps I b \<Longrightarrow> keeps I c \<Longrightarrow> keeps I d \<Longrightarrow> (\<And>n. keeps I (e n)) \<Longrightarrow>
   keeps I (case ev of NRF_MODEM_GNSS_EVT_PVT \<Rightarrow> a | NRF_MODEM_GNSS_EVT_AGNSS_REQ \<Rightarrow> b
     | NRF_MODEM_GNSS_EVT_BLOCKED \<Rightarrow> c | NRF_MODEM_GNSS_EVT_UNBLOCKED \<Rightarrow> d
     | NRF_MODEM_GNSS_EVT_OTHER n \<Rightarrow> e n)"
  "(\<And>s. keeps I (f s)) \<Longrightarrow> keeps I g \<Longrightarrow>
   keeps I (case evt of LTE_LC_EVT_NW_REG_STATUS s \<Rightarrow> f s | LTE_LC_EVT_OTHER \<Rightarrow> g)"
  by (cases ev; simp) (cases evt; simp)

lemma wake_signal_keeps: "keeps pending_current (wake_signal (isr_env E) r)"
  using wake_signal_pending_current [of "isr_env E" r] by (simp add: hoare_def keeps_def)

lemma api_isr_pending:
  assumes "\<And>x. c \<noteq> Kern (Atomic_set Pending x)"
  shows "keeps pending_current (api (isr_env E) c)" "keeps pending_current (api_do (isr_env E) c)"
  using keeps_pending_current_api [of "isr_env E" c] assms by (simp_all add: keeps_api_variants)

lemma handler_pending: "keeps pending_current (handler (isr_env E) i)"
  unfolding handler_def gnss_event_handler_def gnss_data_handler_def lte_handler_def
    event_callback_def motion_handler_def guard_expiry_def blink_work_handler_def apply_led_def
    set_channel_def reschedule_blink_def watchdog_feed_def k_uptime_get_def
    locked_def atomic_defs Let_def
  by (intro hoare_rules api_isr_pending wake_signal_keeps) (simp_all add: pending_current_def)

section \<open>Any number of interrupts\<close>

definition handler_step :: "config \<Rightarrow> sdk_consts \<Rightarrow> 'a tracker_state_scheme \<Rightarrow> 'a tracker_state_scheme \<Rightarrow> bool" where
  "handler_step C S w w' \<longleftrightarrow> handler_events w w' \<and> same owned w w' \<and> req_sticky w w' \<and>
     pvt_step S w w' \<and> ext_step C S w w' \<and> (pending_current w \<longrightarrow> pending_current w')"

lemma handler_step_refl: "handler_step C S w w"
  by (simp add: handler_step_def handler_events_def same_def req_sticky_def
      reflpD [OF reflp_pvt_step] reflpD [OF reflp_ext_step])

lemma handler_step_trans: "handler_step C S u v \<Longrightarrow> handler_step C S v w \<Longrightarrow> handler_step C S u w"
  unfolding handler_step_def
  by (meson handler_events_trans transpD [OF transp_same] transpD [OF req_sticky_pre(2)]
      pvt_step_trans ext_step_trans)

lemma deliver_step: "handler_step (cfg E) (sdk E) w (deliver E i w)"
  using advancesD [OF handler_handler_events, of w E i] advancesD [OF handler_owned, of w E i]
    advancesD [OF handler_sticky, of w E i] advancesD [OF handler_pvt, of E w i]
    advancesD [OF handler_ext, of E w i] keepsD [OF handler_pending, of w E i]
  by (simp add: deliver_def handler_step_refl) (simp add: handler_step_def)

lemma deliver_all_step: "handler_step (cfg E) (sdk E) w (fold (deliver E) is w)"
  by (induction "is" arbitrary: w) (auto intro: handler_step_refl handler_step_trans deliver_step)

lemma tracker_intr: "handler_step C S w (intr (tracker_env C S R when_int) c w)"
  using deliver_all_step [of "isr_base C S R" w] by simp

lemma tracker_owned:
  fixes w :: "'a tracker_state_scheme"
  defines "w' \<equiv> \<lambda>C S R when_int c. intr (tracker_env C S R when_int) c w"
  shows
    "wdt_channel (w' C S R when_int c) = wdt_channel w"
    "phase_magic (w' C S R when_int c) = phase_magic w"
    "phase_current (w' C S R when_int c) = phase_current w"
    "phase_at_reset (w' C S R when_int c) = phase_at_reset w"
    "armed (w' C S R when_int c) = armed w"
    "usable (w' C S R when_int c) = usable w"
    "available (w' C S R when_int c) = available w"
    "current_status (w' C S R when_int c) = current_status w"
    "current_pattern (w' C S R when_int c) = current_pattern w"
    "blinking (w' C S R when_int c) = blinking w"
    "powered (w' C S R when_int c) = powered w"
    "active (w' C S R when_int c) = active w"
    "external_usable (w' C S R when_int c) = external_usable w"
    "link_state (w' C S R when_int c) = link_state w"
    "creds_ok (w' C S R when_int c) = creds_ok w"
    "modem_time_ready (w' C S R when_int c) = modem_time_ready w"
    "last_fetch_uptime_ms (w' C S R when_int c) = last_fetch_uptime_ms w"
    "last_send_uptime (w' C S R when_int c) = last_send_uptime w"
    "modem_bounced (w' C S R when_int c) = modem_bounced w"
    "battery_sleeps (w' C S R when_int c) = battery_sleeps w"
  using tracker_intr [of C S w R when_int c]
  by (simp_all add: w'_def handler_step_def same_def owned_def del: tracker_env_simps(5))

section \<open>The main thread's environment obeys every contract\<close>

lemma handler_call_other:
  assumes "handler_call c"
  shows "\<not> rx_call c" "\<not> ext_power_call c" "\<not> session_call c" "c \<noteq> Board (Sensor_trigger_set b)"
  using assms by (auto simp: handler_call_def rx_call_def ext_power_call_def session_call_def
      split: call.splits kern_call.splits board_call.splits modem_call.splits)

lemma trigger_set_others:
  "\<forall>e \<in> set es. handler_call (ev_call e) \<Longrightarrow> trigger_set (es @ h) = trigger_set h"
  by (induction es) (auto dest: handler_call_other(4))

interpretation tracker: tracker_runtime "tracker_env C S R when_int" for C S R when_int
proof
  fix c and w :: "'a tracker_state_scheme"
  let ?E = "tracker_env C S R when_int :: ('a tracker_state_scheme) env"
  let ?w = "intr ?E c w"
  have step: "handler_step C S w ?w" by (rule tracker_intr)
  then obtain es where es: "hist ?w = es @ hist w" "\<forall>e \<in> set es. ev_isr e \<and> handler_call (ev_call e)"
    by (auto simp: handler_step_def handler_events_def)
  have own: "owned ?w = owned w" using step by (simp add: handler_step_def same_def)
  show "\<exists>es. hist ?w = es @ hist w \<and> (\<forall>e \<in> set es. ev_isr e)" using es by blast
  show "\<exists>es. hist ?w = es @ hist w \<and> (\<forall>e \<in> set es. \<not> rx_call (ev_call e))"
    using es handler_call_other(1) by blast
  show "\<exists>es. hist ?w = es @ hist w \<and> (\<forall>e \<in> set es. \<not> ext_power_call (ev_call e))"
    using es handler_call_other(2) by blast
  show "\<exists>es. hist ?w = es @ hist w \<and> (\<forall>e \<in> set es. \<not> session_call (ev_call e))"
    using es handler_call_other(3) by blast
  show "trigger_set (hist ?w) = trigger_set (hist w)"
    using es by (simp add: trigger_set_others)
  show "pvt_step (sdk ?E) w ?w" "ext_step (cfg ?E) (sdk ?E) w ?w"
    "pending_current w \<Longrightarrow> pending_current ?w" "agnss_req_valid w \<Longrightarrow> agnss_req_valid ?w"
    using step by (simp_all add: handler_step_def req_sticky_def)
qed (rule tracker_owned)+

section \<open>Schedules without a jolt\<close>

lemma api_jolts:
  fixes f :: "'a tracker_state_scheme \<Rightarrow> u32"
  assumes "\<And>w h. f (w\<lparr>hist := h\<rparr>) = f w"
  shows "advances (same f) (api (isr_env E) c)" "advances (same f) (api_do (isr_env E) c)"
  using assms by (intro advances_api_same; simp add: api_simps)+

lemma handler_jolts:
  assumes "i \<noteq> Int_motion"
  shows "advances (same last_event_ms_hi) (handler (isr_env E) i)"
    "advances (same last_event_ms_lo) (handler (isr_env E) i)"
proof -
  have eq: "handler (isr_env E) i = (case i of
       Int_gnss ev \<Rightarrow> gnss_event_handler (isr_env E) ev
     | Int_gnss_data d \<Rightarrow> gnss_data_handler (isr_env E) d
     | Int_lte evt \<Rightarrow> lte_handler (isr_env E) evt
     | Int_pmic pins \<Rightarrow> event_callback (isr_env E) pins
     | Int_motion \<Rightarrow> skip
     | Int_guard \<Rightarrow> guard_expiry (isr_env E)
     | Int_blink \<Rightarrow> blink_work_handler (isr_env E))"
    using assms by (cases i) (simp_all add: handler_def)
  show "advances (same last_event_ms_hi) (handler (isr_env E) i)"
    "advances (same last_event_ms_lo) (handler (isr_env E) i)"
    unfolding eq gnss_event_handler_def gnss_data_handler_def lte_handler_def
      event_callback_def guard_expiry_def blink_work_handler_def apply_led_def
      set_channel_def reschedule_blink_def wake_signal_def watchdog_feed_def
      locked_def atomic_defs Let_def
    by (intro advances_rules api_jolts; simp add: same_def)+
qed

lemma deliver_jolts:
  assumes "Int_motion \<notin> set is"
  shows "last_event_ms_hi (fold (deliver E) is w) = last_event_ms_hi w \<and>
    last_event_ms_lo (fold (deliver E) is w) = last_event_ms_lo w"
  using assms
proof (induction "is" arbitrary: w)
  case (Cons i "is")
  then have "i \<noteq> Int_motion" by auto
  then have "last_event_ms_hi (deliver E i w) = last_event_ms_hi w \<and>
      last_event_ms_lo (deliver E i w) = last_event_ms_lo w"
    by (simp add: deliver_def handler_jolts [THEN advances_sameD])
  with Cons show ?case by simp
qed simp

lemma no_jolts_preserves:
  assumes "\<And>h c. Int_motion \<notin> set (when_int h c)"
  shows "preserves (tracker_env C S R when_int) last_event_ms_hi"
    "preserves (tracker_env C S R when_int) last_event_ms_lo"
  unfolding preserves_def tracker_env_simps using deliver_jolts [OF assms] by blast+

section \<open>Handlers use no network\<close>

lemma handler_call_net: "handler_call c \<Longrightarrow> c \<noteq> Net n"
  by (auto simp: handler_call_def)

lemma net_others:
  assumes "\<forall>e \<in> set es. handler_call (ev_call e)"
  shows "open_fds (es @ h) = open_fds h" "held_addrinfo (es @ h) = held_addrinfo h"
    "held_json (es @ h) = held_json h"
  using assms by (induction es) (auto dest: handler_call_net split: call.splits)

lemma tracker_net_quiet:
  "net_quiet (tracker_env C S R when_int :: ('a tracker_state_scheme) env)"
  unfolding net_quiet_def
proof (intro allI)
  fix c and w :: "'a tracker_state_scheme"
  let ?w = "intr (tracker_env C S R when_int) c w"
  have "handler_step C S w ?w" by (rule tracker_intr)
  then obtain es where "hist ?w = es @ hist w" "\<forall>e \<in> set es. ev_isr e \<and> handler_call (ev_call e)"
    unfolding handler_step_def handler_events_def by blast
  then show "open_fds (hist ?w) = open_fds (hist w) \<and> held_addrinfo (hist ?w) = held_addrinfo (hist w) \<and>
      held_json (hist ?w) = held_json (hist w)"
    by (simp add: net_others del: tracker_env_simps(5))
qed

end
