(* ===== verification/Timing.thy ===== *)
theory Timing
  imports Handlers
begin

text \<open>
  How long the main thread's functions take, given how long each call into the SDK takes at most:
  \<open>costs T m\<close>, followed through the functions of main.c and everything below it.
\<close>

section \<open>How long calls take\<close>

text \<open>
  The calls that wait for the network.  \<open>prompt q s\<close>: those take at most \<open>s\<close> ms, a sleep or the wait
  for a semaphore at most \<open>q\<close> ms more than was asked, every other call at most \<open>q\<close>.
\<close>

definition slow_call :: "call \<Rightarrow> bool" where
  "slow_call c = (case c of
     Cloud k \<Rightarrow> (case k of Client_id_get \<Rightarrow> False | Credentials_check \<Rightarrow> False
       | Coap_keepopen_is_supported \<Rightarrow> False | Date_time_now \<Rightarrow> False | _ \<Rightarrow> True)
   | Net k \<Rightarrow> (case k of Getaddrinfo _ \<Rightarrow> True | Connect _ _ \<Rightarrow> True | Send _ _ \<Rightarrow> True | Recv _ _ \<Rightarrow> True
       | _ \<Rightarrow> False)
   | Modem k \<Rightarrow> (case k of Lte_lc_func_mode_set _ \<Rightarrow> True | _ \<Rightarrow> False)
   | _ \<Rightarrow> False)"

definition wait_ms :: "call \<Rightarrow> nat" where
  "wait_ms c = (case c of Kern (K_sleep ms) \<Rightarrow> ms | Kern (K_sem_take _ ms) \<Rightarrow> ms | _ \<Rightarrow> 0)"

definition time_limit :: "nat \<Rightarrow> nat \<Rightarrow> call \<Rightarrow> nat" where
  "time_limit q s c = (if slow_call c then s else wait_ms c + q)"

definition prompt :: "nat \<Rightarrow> nat \<Rightarrow> (event list \<Rightarrow> call \<Rightarrow> resp) \<Rightarrow> bool" where
  "prompt q s R \<longleftrightarrow> (\<forall>h c. took (R h c) \<le> time_limit q s c)"

text \<open>The answers of \<open>R\<close>, late ones brought forward: those of a prompt \<open>R\<close> are what they were.\<close>

definition in_time :: "nat \<Rightarrow> nat \<Rightarrow> (event list \<Rightarrow> call \<Rightarrow> resp) \<Rightarrow> event list \<Rightarrow> call \<Rightarrow> resp" where
  "in_time q s R h c = (R h c)\<lparr>took := min (took (R h c)) (time_limit q s c)\<rparr>"

lemma prompt_in_time [simp]: "prompt q s (in_time q s R)"
  by (simp add: prompt_def in_time_def)

lemma in_time_prompt: "prompt q s R \<Longrightarrow> in_time q s R = R"
  by (intro ext) (simp add: prompt_def in_time_def min_absorb1)

lemmas call_times = time_limit_def slow_call_def wait_ms_def

section \<open>How long functions take\<close>

text \<open>Whether the watchdog was started.\<close>

fun wdt_on :: "event list \<Rightarrow> bool" where
  "wdt_on [] = False"
| "wdt_on (e # h) = (if ev_call e = Kern Wdt_setup \<and> rc (ev_resp e) = 0 then True else wdt_on h)"

text \<open>
  \<open>costs T m\<close>: the calls of \<open>m\<close> take at most \<open>T\<close> ms, and \<open>m\<close> neither starts the watchdog nor changes
  its channel.
\<close>

definition costs :: "nat \<Rightarrow> ('a watchdog_state_scheme, 'b) state \<Rightarrow> bool" where
  "costs T m \<longleftrightarrow> (\<forall>w. \<exists>es. hist (exec m w) = es @ hist w \<and> elapsed es \<le> T \<and>
     wdt_on (hist (exec m w)) = wdt_on (hist w) \<and> wdt_channel (exec m w) = wdt_channel w)"

named_theorems costs_rules \<open>syntax-directed rules for costs\<close>

lemma costs_mono: "costs a m \<Longrightarrow> a \<le> b \<Longrightarrow> costs b m"
  unfolding costs_def using le_trans by blast

lemma costs_modify [costs_rules]:
  assumes "\<And>w. hist (f w) = hist w" "\<And>w. wdt_channel (f w) = wdt_channel w"
  shows "costs 0 (modify f)"
  using assms by (simp add: costs_def)

lemma costs_return [costs_rules]: "costs 0 (return x)"
  and costs_gets [costs_rules]: "costs 0 (gets g)"
  and costs_skip [costs_rules]: "costs 0 skip"
  by (simp_all add: costs_def)

lemma costs_bind_result:
  assumes "costs a m" "\<And>w. P (result m w)" "\<And>x. P x \<Longrightarrow> costs b (f x)"
  shows "costs (a + b) (m \<bind> f)"
  unfolding costs_def
proof
  fix w
  obtain es where es: "hist (exec m w) = es @ hist w" "elapsed es \<le> a"
      "wdt_on (hist (exec m w)) = wdt_on (hist w)" "wdt_channel (exec m w) = wdt_channel w"
    using assms(1) unfolding costs_def by blast
  obtain fs where fs: "hist (exec (f (result m w)) (exec m w)) = fs @ hist (exec m w)" "elapsed fs \<le> b"
      "wdt_on (hist (exec (f (result m w)) (exec m w))) = wdt_on (hist (exec m w))"
      "wdt_channel (exec (f (result m w)) (exec m w)) = wdt_channel (exec m w)"
    using assms(2,3) unfolding costs_def by blast
  show "\<exists>es. hist (exec (m \<bind> f) w) = es @ hist w \<and> elapsed es \<le> a + b \<and>
     wdt_on (hist (exec (m \<bind> f) w)) = wdt_on (hist w) \<and> wdt_channel (exec (m \<bind> f) w) = wdt_channel w"
    using es fs by (intro exI [of _ "fs @ es"]) (simp add: run_simps elapsed_append)
qed

lemma costs_bind [costs_rules]: "costs a m \<Longrightarrow> (\<And>x. costs b (f x)) \<Longrightarrow> costs (a + b) (m \<bind> f)"
  by (rule costs_bind_result [where P = "\<lambda>_. True"]) simp_all

text \<open>Branches add up: one of them is mostly an early return, which takes no time.\<close>

lemma costs_if [costs_rules]:
  "costs a m \<Longrightarrow> costs b n \<Longrightarrow> costs (a + b) (if c then m else n)"
  by (auto elim: costs_mono)

lemma costs_either: "costs a m \<Longrightarrow> costs a n \<Longrightarrow> costs a (if c then m else n)"
  by simp

lemma costs_any: "costs a (return x)" "costs a skip"
  by (rule costs_mono [OF costs_return], simp) (rule costs_mono [OF costs_skip], simp)

lemma costs_free: "costs 0 m \<Longrightarrow> (\<And>x. costs a (f x)) \<Longrightarrow> costs a (m \<bind> f)"
  using costs_bind [of 0 m a f] by simp

lemma costs_when_do [costs_rules]: "costs a m \<Longrightarrow> costs a (when_do c m)"
  using costs_mono [OF costs_skip] by (cases c) auto

lemma costs_ignore [costs_rules]: "costs a m \<Longrightarrow> costs a (ignore m)"
  unfolding ignore_def using costs_bind [OF _ costs_skip, of a m] by simp

lemma costs_case_option [costs_rules]:
  "costs a m \<Longrightarrow> (\<And>y. costs b (f y)) \<Longrightarrow> costs (a + b) (case x of None \<Rightarrow> m | Some y \<Rightarrow> f y)"
  by (cases x) (auto intro: costs_mono [of a] costs_mono [of b])

lemma costs_case_sum [costs_rules]:
  "(\<And>y. costs a (f y)) \<Longrightarrow> (\<And>y. costs b (g y)) \<Longrightarrow> costs (a + b) (case x of Inl y \<Rightarrow> f y | Inr y \<Rightarrow> g y)"
  by (cases x) (auto intro: costs_mono [of a] costs_mono [of b])

lemma costs_case_prod [costs_rules]:
  "(\<And>y z. costs a (f y z)) \<Longrightarrow> costs a (case x of (y, z) \<Rightarrow> f y z)"
  by (cases x) simp

lemma costs_case_provider [costs_rules]:
  "costs a m \<Longrightarrow> costs b n \<Longrightarrow> costs (a + b) (case p of NrfCloud \<Rightarrow> m | HologramCloud \<Rightarrow> n)"
  by (cases p) (auto elim: costs_mono)

text \<open>The longest wait for a fix.\<close>

definition fix_window :: "config \<Rightarrow> nat" where
  "fix_window C = max (TRACKER_GNSS_EXT_FIX_TIMEOUT_SECONDS C) (TRACKER_GNSS_FIX_TIMEOUT_SECONDS C)"

text \<open>The wait for network time, in steps of three seconds.\<close>

definition modem_time_ms :: "config \<Rightarrow> nat \<Rightarrow> nat" where
  "modem_time_ms C q = (TRACKER_MODEM_TIME_WAIT_SECONDS C + 2) div 3 * (3000 + 3 * q)"

section \<open>The interface\<close>

locale timed_runtime = tracker_runtime E for E :: "('a tracker_state_scheme) env" +
  fixes q s :: nat
  assumes prompt: "prompt q s (reply E)"
    and main_thread: "\<not> in_isr E"
    and intr_wdt_on: "wdt_on (hist (intr E c w)) = wdt_on (hist w)"
begin

lemma elapsed_isr: "\<forall>e \<in> set es. ev_isr e \<Longrightarrow> elapsed es = 0"
  by (induction es) auto

lemma costs_api:
  assumes "c \<noteq> Kern Wdt_setup"
  shows "costs (time_limit q s c) (api E c)"
  unfolding costs_def
proof
  fix w
  let ?r = "result (api E c) w"
  obtain es where es: "hist (intr E c w) = es @ hist w" "\<forall>e \<in> set es. ev_isr e"
    using intr_appends by blast
  have "took ?r \<le> time_limit q s c"
    using prompt by (simp add: prompt_def result_api)
  then show "\<exists>es. hist (exec (api E c) w) = es @ hist w \<and> elapsed es \<le> time_limit q s c \<and>
     wdt_on (hist (exec (api E c) w)) = wdt_on (hist w) \<and> wdt_channel (exec (api E c) w) = wdt_channel w"
    using es assms main_thread intr_wdt_on [of c w]
    by (intro exI [of _ "Ev (in_isr E) c ?r # es"]) (simp add: hist_api elapsed_isr)
qed

lemma costs_calls [costs_rules]:
  "t = time_limit q s c \<Longrightarrow> c \<noteq> Kern Wdt_setup \<Longrightarrow> costs t (api E c)"
  "t = time_limit q s c \<Longrightarrow> c \<noteq> Kern Wdt_setup \<Longrightarrow> costs t (api_rc E c)"
  "t = time_limit q s c \<Longrightarrow> c \<noteq> Kern Wdt_setup \<Longrightarrow> costs t (api_flag E c)"
  "t = time_limit q s c \<Longrightarrow> c \<noteq> Kern Wdt_setup \<Longrightarrow> costs t (api_do E c)"
  using costs_api [of c] by (simp_all add: costs_def run_simps)

text \<open>The board.\<close>

lemma costs_board [costs_rules]:
  "costs q (k_uptime_get E)" "costs 0 (watchdog_phase p)" "costs q (watchdog_feed E)"
  "costs (2 * q) (power_vbus_present E)" "costs (3 * q) (power_read E)"
  "costs (2 * q) (motion_last_event_uptime E)" "costs q (motion_set_armed E arm)"
  "costs (6 * q) (status_led_set E st)" "costs (10 * q) (status_led_pattern E pat)"
  unfolding k_uptime_get_def watchdog_phase_def watchdog_feed_def power_vbus_present_def read_vbus_present_def
    power_read_def motion_last_event_uptime_def atomic_defs motion_set_armed_def status_led_set_def
    status_led_pattern_def stop_blink_def apply_led_def set_channel_def reschedule_blink_def Let_def
  by ((rule costs_mono, (rule costs_rules | (simp add: call_times; fail))+)[1])+

lemma costs_lte [costs_rules]:
  "costs q (lte_is_registered E)"
  "costs (TRACKER_LTE_CONNECT_TIMEOUT_SECONDS (cfg E) * 1000 + 4 * q) (lte_ensure_connected E)"
  unfolding lte_ensure_connected_def lte_is_registered_def
  by ((rule costs_mono, (rule costs_rules | (simp add: call_times; fail))+)[1])+

lemma costs_decisions [costs_rules]:
  "costs (3 * q) (surge_active E mc)" "costs 0 (agnss_wanted E)" "costs (5 * q) (led_pattern E)"
  unfolding surge_active_def agnss_wanted_def gnss_active_source_def cloud_is_ready_def cloud_nrf_is_ready_def
    cloud_hologram_is_ready_def led_pattern_def
  by ((rule costs_mono, (rule costs_rules | (simp add: call_times; fail))+)[1])+

lemma costs_status [costs_rules]:
  "costs (5 * q) (vbus_or_surge E mc)" "costs (22 * q) (status_led_report E b)" "costs (6 * q) (status_led_sleep E)"
  unfolding vbus_or_surge_def status_led_report_def status_led_sleep_def
  by ((rule costs_mono, (rule costs_rules | (simp add: call_times; fail))+)[1])+

text \<open>The receivers.\<close>

lemma costs_modem [costs_rules]:
  "costs (8 * q) (gnss_modem_start E)" "costs q (gnss_modem_stop E)"
  "costs (2 * q) (gnss_modem_agnss_request_get E)"
  "costs (t * 1000 + q) (gnss_modem_agnss_request_wait E t)"
  "costs (t * 1000 + 4 * q) (gnss_modem_wait_fix E t)"
  unfolding gnss_modem_start_def gnss_modem_stop_def gnss_modem_agnss_request_get_def
    gnss_modem_agnss_request_wait_def gnss_modem_wait_fix_def locked_def
  by ((rule costs_mono, (rule costs_rules | (simp add: call_times; fail))+)[1])+

lemma costs_ext_open [costs_rules]: "costs (6 * q) (gnss_ext_open E)"
  unfolding gnss_ext_open_def power_set_def
  by ((rule costs_mono, (rule costs_rules | (simp add: call_times; fail))+)[1])+

lemma costs_ext [costs_rules]:
  "costs (2 * q) (gnss_ext_stop E b)" "costs (t * 1000 + 4 * q) (gnss_ext_wait_fix E t)"
  "costs (TRACKER_GNSS_EXT_WARMUP_MS (cfg E) + 16 * q) (gnss_ext_start E)"
  unfolding gnss_ext_stop_def power_set_def gnss_ext_wait_fix_def gnss_ext_start_def locked_def Let_def
  by ((rule costs_mono, (rule costs_rules | (simp add: call_times; fail))+)[1])+

lemma costs_gnss [costs_rules]:
  "costs (TRACKER_GNSS_EXT_WARMUP_MS (cfg E) + 32 * q) (gnss_start E)" "costs (3 * q) (gnss_stop E)"
  "costs (10 * q) (gnss_fallback E)" "costs 0 (gnss_fallback_available E)"
  "costs (t * 1000 + q) (gnss_agnss_request_wait E t)"
  unfolding gnss_start_def gnss_start_modem_def gnss_stop_def gnss_fallback_def gnss_fallback_available_def
    gnss_agnss_request_wait_def
  by ((rule costs_mono, (rule costs_rules | (simp add: call_times; fail))+)[1])+

lemma costs_wait_fix [costs_rules]: "costs (t * 1000 + 4 * q) (wait_fix_opt E t)"
proof -
  have "costs (t * 1000 + 4 * q) (gnss_wait_fix E t)"
    unfolding gnss_wait_fix_def
    by (rule costs_mono, rule costs_bind [OF costs_gets], rule costs_either)
       (rule costs_ext costs_modem, rule costs_ext costs_modem, simp)
  then show ?thesis
    unfolding wait_fix_opt_def
    by (rule costs_mono [OF costs_bind [OF _ costs_return]]) simp
qed

lemma costs_gnss_fix [costs_rules]:
  "costs (fix_window (cfg E) * 1000 + 4 * q) (gnss_fix_timeout_seconds E \<bind> wait_fix_opt E)"
proof -
  have "costs (0 + (fix_window (cfg E) * 1000 + 4 * q)) (gnss_fix_timeout_seconds E \<bind> wait_fix_opt E)"
  proof (rule costs_bind_result [where P = "\<lambda>t. t \<le> fix_window (cfg E)"])
    show "costs 0 (gnss_fix_timeout_seconds E)"
      unfolding gnss_fix_timeout_seconds_def by (rule costs_mono [OF costs_bind [OF costs_gets costs_return]]) simp
    show "result (gnss_fix_timeout_seconds E) w \<le> fix_window (cfg E)" for w
      by (simp add: gnss_fix_timeout_seconds_def fix_window_def run_simps)
    show "costs (fix_window (cfg E) * 1000 + 4 * q) (wait_fix_opt E t)" if "t \<le> fix_window (cfg E)" for t
      using that by (intro costs_mono [OF costs_wait_fix]) simp
  qed
  then show ?thesis by simp
qed

text \<open>The clouds.\<close>

lemma costs_modem_time_loop:
  "costs ((TRACKER_MODEM_TIME_WAIT_SECONDS (cfg E) - waited + 2) div 3 * (3000 + 3 * q)) (modem_time_loop E waited)"
proof (induction "TRACKER_MODEM_TIME_WAIT_SECONDS (cfg E) - waited" arbitrary: waited rule: less_induct)
  case less
  let ?left = "TRACKER_MODEM_TIME_WAIT_SECONDS (cfg E) - waited"
  show ?case
  proof (cases "?left = 0")
    case True
    then show ?thesis
      by (subst modem_time_loop.simps) (simp add: costs_mono [OF costs_skip])
  next
    case False
    let ?rest = "(?left - 3 + 2) div 3 * (3000 + 3 * q)"
    have IH: "costs ?rest (modem_time_loop E (waited + 3))"
      using less [of "waited + 3"] False by (simp add: diff_diff_left)
    have lt: "waited < TRACKER_MODEM_TIME_WAIT_SECONDS (cfg E)" using False by simp
    have "costs (q + (0 + (3 * 1000 + q + (q + ?rest)))) (modem_time_loop E waited)"
      unfolding modem_time_loop.simps [of E waited] if_P [OF lt] MODEM_TIME_POLL_S_def
      by (rule IH costs_rules | (simp add: call_times; fail))+
    moreover have "(?left + 2) div 3 = Suc ((?left - 3 + 2) div 3)" using False by presburger
    ultimately show ?thesis by (elim costs_mono) simp
  qed
qed

text \<open>Bringing the link up: the wait for network time, and at most three exchanges.\<close>

lemma costs_time_wait [costs_rules]: "costs (modem_time_ms (cfg E) q) (modem_time_wait E)"
proof -
  have "costs (modem_time_ms (cfg E) q) (modem_time_loop E 0)"
    unfolding modem_time_ms_def using costs_modem_time_loop [of 0] by (simp only: diff_zero)
  then show ?thesis
    unfolding modem_time_wait_def by (intro costs_free costs_gets costs_either costs_any)
qed

lemma costs_connect: "costs (modem_time_ms (cfg E) q + 2 * s) (cloud_nrf_connect E)"
  unfolding cloud_nrf_connect_def
  by ((rule costs_mono, (rule costs_rules | (simp add: call_times; fail))+)[1])+

lemma costs_nrf_resume: "costs (modem_time_ms (cfg E) q + 3 * s) (cloud_nrf_resume E)"
proof -
  have "costs (s + (modem_time_ms (cfg E) q + 2 * s)) (do {
      err \<leftarrow> api_rc E (Cloud Coap_resume);
      if err = 0 then do { modify (\<lambda>w. w\<lparr>link_state := LINK_CONNECTED\<rparr>); return 0 }
      else do { modify (\<lambda>w. w\<lparr>link_state := LINK_DISCONNECTED\<rparr>); cloud_nrf_connect E } })"
    (is "costs _ ?resume")
    by (rule costs_mono, (rule costs_connect costs_rules | (simp add: call_times; fail))+)
  then have "costs (modem_time_ms (cfg E) q + 3 * s) ?resume" by (rule costs_mono) simp
  moreover have "costs (modem_time_ms (cfg E) q + 3 * s) (cloud_nrf_connect E)"
    by (rule costs_mono [OF costs_connect]) simp
  ultimately show ?thesis
    unfolding cloud_nrf_resume_def
    by - ((assumption | rule costs_either costs_any costs_gets costs_modify costs_free | (simp; fail))+)
qed

lemma costs_exchange [costs_rules]: "costs (2 * s + 2 * q) (exchange E fd m)"
  unfolding exchange_def
  by ((rule costs_mono, (rule costs_rules | (simp add: call_times; fail))+)[1])+

lemma costs_socket [costs_rules]: "costs (4 * s + 5 * q) (socket_send_envelope E m)"
  unfolding socket_send_envelope_def Let_def
  by ((rule costs_mono, (rule costs_rules | (simp add: call_times; fail))+)[1])+

lemma costs_hologram [costs_rules]: "costs (4 * s + 20 * q) (hologram_send E m)"
  unfolding hologram_send_def build_envelope_def add_strings_def Let_def
  by ((rule costs_mono, (rule costs_rules | (simp add: call_times; fail))+)[1])+

lemma costs_cloud [costs_rules]:
  "costs (modem_time_ms (cfg E) q + 3 * s) (cloud_resume E)" "costs (s + q) (cloud_pause E)"
  "costs (5 * s + 21 * q) (cloud_send_telemetry E m)" "costs (s + q) (cloud_send_location E fx)"
  "costs (s + 2 * q) (cloud_init E)"
  unfolding cloud_resume_def cloud_hologram_resume_def cloud_pause_def cloud_nrf_pause_def cloud_hologram_pause_def
    cloud_send_telemetry_def cloud_nrf_send_telemetry_def cloud_hologram_send_telemetry_def
    cloud_send_location_def cloud_nrf_send_location_def cloud_hologram_send_location_def
    cloud_init_def cloud_nrf_init_def credentials_ok_def cloud_hologram_init_def Let_def
  by (rule costs_mono [OF costs_case_provider [OF costs_nrf_resume costs_return]], simp)
     ((rule costs_mono, (rule costs_rules | (simp add: call_times; fail))+)[1])+


text \<open>Assistance, without the guard around it.\<close>

lemma costs_agnss [costs_rules]: "costs q (rate_limited E)" "costs (2 * s + 6 * q) (fetch_and_inject E)"
  unfolding rate_limited_def fetch_and_inject_def serving_cell_info_get_def download_and_inject_def Let_def
  by ((rule costs_mono, (rule costs_rules | (simp add: call_times; fail))+)[1])+

text \<open>The report cycle.\<close>

lemma costs_report [costs_rules]:
  "costs (5 * q) (collect_telemetry E fx t r)" "costs 0 (telemetry_build_json E tm n)"
  unfolding collect_telemetry_def telemetry_build_json_def watchdog_reset_phase_def Let_def
  by ((rule costs_mono, (rule costs_rules | (simp add: call_times; fail))+)[1])+

lemma costs_recover [costs_rules]: "costs (2 * s + 1200 + 4 * q) (recover_if_silent E)"
  unfolding recover_if_silent_def Let_def
  by ((rule costs_mono, (rule costs_rules | (simp add: call_times; fail))+)[1])+

lemma costs_wake [costs_rules]: "costs (t * 1000 + 4 * q) (wake_wait E t)"
  unfolding wake_wait_def wake_take_def atomic_defs
  by ((rule costs_mono, (rule costs_rules | (simp add: call_times; fail))+)[1])+

lemma costs_sleep [costs_rules]: "costs (TRACKER_SLEEP_SECONDS (cfg E) * 1000 + 11 * q) (sleep_until_wake E)"
  unfolding sleep_until_wake_def battery_sleep_def
  by ((rule costs_mono, (rule costs_rules | (simp add: call_times; fail))+)[1])+

lemma costs_network [costs_rules]:
  "costs (TRACKER_LTE_CONNECT_TIMEOUT_SECONDS (cfg E) * 1000 + 4 * q) (cycle_network E)"
  unfolding cycle_network_def
  by ((rule costs_mono, (rule costs_rules | (simp add: call_times; fail))+)[1])+

lemma costs_settle [costs_rules]:
  "costs (TRACKER_GNSS_EXTRA_FIX_SECONDS (cfg E) * 1000 + 5000 + 5 * q) (settle_fix E f)"
  unfolding settle_fix_def
  by ((rule costs_mono, (rule costs_rules | (simp add: call_times; fail))+)[1])+

lemma costs_boot [costs_rules]:
  "costs (5 * q) (power_init E)" "costs (7 * q) (motion_init E)" "costs (9 * q) (status_led_init E)"
  "costs q (gnss_modem_init E)" "costs (5 * q) (gnss_ext_init E)"
  unfolding power_init_def read_vbus_present_def motion_init_def set_attr_def status_led_init_def
    set_channel_def gnss_modem_init_def gnss_ext_init_def Let_def
  by ((rule costs_mono, (rule costs_rules | (simp add: call_times; fail))+)[1])+

lemma costs_boot2 [costs_rules]: "costs (6 * q) (gnss_init E)" "costs (2 * s + 26 * q) (boot_network E)"
  unfolding gnss_init_def boot_network_def
  by ((rule costs_mono, (rule costs_rules | (simp add: call_times; fail))+)[1])+

end

text \<open>The handlers never set the watchdog up.\<close>

lemma wdt_on_others:
  "\<forall>e \<in> set es. handler_call (ev_call e) \<Longrightarrow> wdt_on (es @ h) = wdt_on h"
  by (induction es) (auto simp: handler_call_def)

interpretation timed: timed_runtime "tracker_env C S (in_time q s R) when_int" q s for C S q s R when_int
proof
  fix c and w :: "'a tracker_state_scheme"
  let ?E = "tracker_env C S (in_time q s R) when_int :: ('a tracker_state_scheme) env"
  show "prompt q s (reply ?E)" "\<not> in_isr ?E" by simp_all
  have "handler_events w (intr ?E c w)" using tracker_intr [of C S w] by (simp add: handler_step_def)
  then show "wdt_on (hist (intr ?E c w)) = wdt_on (hist w)"
    unfolding handler_events_def using wdt_on_others by metis
qed

end
