(* ===== verification/Pacing.thy ===== *)
theory Pacing
  imports Timing
begin

text \<open>
  How long the watchdog goes without being fed: the longest time between two feeds in a whole run of
  \<open>main\<close>, from the times of Timing.
\<close>

section \<open>Hunger\<close>

text \<open>The time since the watchdog was last fed or started.\<close>

definition feeds_wdt :: "event \<Rightarrow> bool" where
  "feeds_wdt e \<longleftrightarrow> is_feed e \<or> ev_call e = Kern Wdt_setup \<and> rc (ev_resp e) = 0"

definition main_ms :: "event \<Rightarrow> nat" where
  "main_ms e = (if ev_isr e then 0 else took (ev_resp e))"

fun hungry :: "event list \<Rightarrow> nat" where
  "hungry [] = 0"
| "hungry (e # h) = (if feeds_wdt e then 0 else main_ms e + hungry h)"

text \<open>\<open>fed_within X h\<close>: while the watchdog ran, no call ended more than \<open>X\<close> ms after a feed.\<close>

fun fed_within :: "nat \<Rightarrow> event list \<Rightarrow> bool" where
  "fed_within X [] = True"
| "fed_within X (e # h) = (fed_within X h \<and> (if wdt_on h then main_ms e + hungry h \<le> X else True))"

lemma hungry_append: "hungry (es @ h) \<le> elapsed es + hungry h"
  by (induction es) (auto simp: main_ms_def)

lemma wdt_on_append: "wdt_on h \<Longrightarrow> wdt_on (es @ h)"
  by (induction es) auto

lemma fed_append:
  assumes "fed_within X h" "wdt_on h \<Longrightarrow> elapsed es + hungry h \<le> X" "wdt_on (es @ h) = wdt_on h"
  shows "fed_within X (es @ h)"
  using assms(2,3)
proof (induction es)
  case (Cons e es)
  have on: "wdt_on (es @ h) = wdt_on h"
    using Cons.prems(2) wdt_on_append [of h es] by (auto split: if_splits)
  have "main_ms e + hungry (es @ h) \<le> X" if "wdt_on h"
    using Cons.prems(1) [OF that] hungry_append [of es h] by (simp add: main_ms_def)
  moreover have "fed_within X (es @ h)"
    using Cons.prems(1) on by (intro Cons.IH) auto
  ultimately show ?case using on by simp
qed (use assms(1) in simp)

section \<open>The time between two feeds\<close>

text \<open>
  \<open>fit X a\<close>: fed within \<open>X\<close> so far, and, if the watchdog runs, a channel to feed and at most \<open>a\<close> since
  the last feed.  \<open>paced X a m b\<close>: \<open>m\<close> takes a state that is fit with \<open>a\<close> to one that is with \<open>b\<close>.
\<close>

definition fit :: "nat \<Rightarrow> nat \<Rightarrow> 'a watchdog_state_scheme \<Rightarrow> bool" where
  "fit X a w \<longleftrightarrow> fed_within X (hist w) \<and>
     (wdt_on (hist w) \<longrightarrow> 0 \<le> wdt_channel w \<and> hungry (hist w) \<le> a)"

definition paced :: "nat \<Rightarrow> nat \<Rightarrow> ('a watchdog_state_scheme, 'b) state \<Rightarrow> nat \<Rightarrow> bool" where
  "paced X a m b \<longleftrightarrow> (\<forall>w. fit X a w \<longrightarrow> fit X b (exec m w))"

named_theorems paced_rules \<open>syntax-directed rules for paced\<close>

lemma fit_mono: "fit X a w \<Longrightarrow> a \<le> b \<Longrightarrow> fit X b w"
  by (auto simp: fit_def)

lemma paced_mono: "paced X a m b \<Longrightarrow> b \<le> c \<Longrightarrow> paced X a m c"
  unfolding paced_def using fit_mono by blast

lemma paced_bind [paced_rules]:
  "paced X a m b \<Longrightarrow> (\<And>x. paced X b (f x) c) \<Longrightarrow> paced X a (m \<bind> f) c"
  by (simp add: paced_def run_simps)

lemma paced_return [paced_rules]: "paced X a (return x) a"
  and paced_gets [paced_rules]: "paced X a (gets g) a"
  and paced_skip [paced_rules]: "paced X a skip a"
  by (simp_all add: paced_def)

lemma paced_if [paced_rules]:
  "paced X a m b \<Longrightarrow> paced X a n c \<Longrightarrow> paced X a (if p then m else n) (max b c)"
  by (auto intro: paced_mono)

lemma paced_case_option [paced_rules]:
  assumes "paced X a m b" "\<And>y. paced X a (f y) c"
  shows "paced X a (case x of None \<Rightarrow> m | Some y \<Rightarrow> f y) (max b c)"
proof (cases x)
  case None
  then show ?thesis using paced_mono [OF assms(1), of "max b c"] by simp
next
  case (Some y)
  then show ?thesis using paced_mono [OF assms(2), of "max b c" y] by simp
qed

lemma paced_case_prod [paced_rules]:
  "(\<And>y z. paced X a (f y z) b) \<Longrightarrow> paced X a (case x of (y, z) \<Rightarrow> f y z) b"
  by (cases x) simp

lemma paced_ignore [paced_rules]: "paced X a m b \<Longrightarrow> paced X a (ignore m) b"
  by (simp add: paced_def run_simps)

lemma paced_when_do [paced_rules]: "paced X a m b \<Longrightarrow> paced X a (when_do p m) (max a b)"
  unfolding when_do_def using paced_if [OF _ paced_skip, of X a m b p] by (simp add: max.commute)

text \<open>Everything that may be waited for before the first fix of a cycle.\<close>

definition acquire_ms :: "config \<Rightarrow> nat" where
  "acquire_ms C = 2 * (TRACKER_AGNSS_PROACTIVE_WAIT_SECONDS C * 1000) + 2 * (fix_window C * 1000) +
     TRACKER_AGNSS_FIX_TIMEOUT_SECONDS C * 1000"

text \<open>
  The longest time from the last feed of a cycle to its end, sleep included: after a failed attach, or
  after the receivers' start or the frequent loop.
\<close>

definition worst_sleep :: "config \<Rightarrow> nat \<Rightarrow> nat \<Rightarrow> nat" where
  "worst_sleep C q s = TRACKER_SLEEP_SECONDS C * 1000 +
     max (TRACKER_LTE_CONNECT_TIMEOUT_SECONDS C * 1000 + 1200 + 2 * s + 25 * q)
       (TRACKER_GNSS_EXT_WARMUP_MS C + 10000 + s + 66 * q)"

text \<open>
  \<open>X\<close> ms are enough for every stretch between two feeds: the sleep, the first fix, its report, a pass
  of the frequent loop, bringing the link up, and boot.
\<close>

definition enough :: "config \<Rightarrow> nat \<Rightarrow> nat \<Rightarrow> nat \<Rightarrow> bool" where
  "enough C q s X \<longleftrightarrow>
     worst_sleep C q s + 2 * q \<le> X \<and>
     TRACKER_GNSS_EXT_WARMUP_MS C + acquire_ms C + 110 * q \<le> X \<and>
     TRACKER_GNSS_EXTRA_FIX_SECONDS C * 1000 + 10000 + 6 * s + 36 * q \<le> X \<and>
     TRACKER_CHARGING_INTERVAL_SECONDS C * 1000 + 10000 + 41 * q \<le> X \<and>
     modem_time_ms C q + 3 * s + 3 * q \<le> X \<and>
     2 * s + 56 * q \<le> X"

context timed_runtime begin

section \<open>The time between two feeds\<close>

lemma fit_costs:
  assumes "fit X a w" "costs T m" "a + T \<le> X"
  shows "fit X (a + T) (exec m w)"
proof -
  obtain es where es: "hist (exec m w) = es @ hist w" "elapsed es \<le> T"
      "wdt_on (hist (exec m w)) = wdt_on (hist w)" "wdt_channel (exec m w) = wdt_channel w"
    using assms(2) unfolding costs_def by blast
  have "elapsed es + hungry (hist w) \<le> a + T" if "wdt_on (hist w)"
    using assms(1) that es(2) by (simp add: fit_def)
  moreover from this have "hungry (es @ hist w) \<le> a + T" if "wdt_on (hist w)"
    using that hungry_append [of es "hist w"] by (meson le_trans)
  moreover have "fed_within X (es @ hist w)"
    using assms(1,3) es calculation(1) by (intro fed_append) (auto simp: fit_def)
  ultimately show ?thesis using assms(1) es by (simp add: fit_def)
qed

lemma paced_costs: "costs T m \<Longrightarrow> a + T \<le> X \<Longrightarrow> paced X a m (a + T)"
  by (simp add: paced_def fit_costs)

lemma paced_feed [paced_rules]: "a + q \<le> X \<Longrightarrow> paced X a (watchdog_feed E) 0"
proof -
  assume le: "a + q \<le> X"
  have "fit X 0 (exec (watchdog_feed E) w)" if w: "fit X a w" for w
  proof (cases "0 \<le> wdt_channel w")
    case True
    then have "hungry (hist (exec (watchdog_feed E) w)) = 0"
      by (simp add: watchdog_feed_def run_simps hist_api feeds_wdt_def is_feed_def)
    then show ?thesis using fit_costs [OF w costs_board(3) le] by (simp add: fit_def)
  next
    case False
    then show ?thesis using w by (simp add: watchdog_feed_def run_simps fit_def)
  qed
  then show ?thesis by (simp add: paced_def)
qed

lemma paced_guard [paced_rules]:
  "a + q \<le> X \<Longrightarrow> paced X a (watchdog_guard_start E b) q"
  "a + 2 * q \<le> X \<Longrightarrow> paced X a (watchdog_guard_stop E) 0"
proof -
  assume "a + q \<le> X"
  moreover have "paced X a (modify (\<lambda>w. w\<lparr>guard_feeds_left := DIV_ROUND_UP b WDT_GUARD_PERIOD_S\<rparr>)) a"
    by (simp add: paced_def fit_def)
  moreover have "paced X 0 (api_do E (Kern (K_timer_start n m))) q" if "q \<le> X" for n m
    using that paced_costs [OF costs_calls(4), of q "Kern (K_timer_start n m)" 0 X] by (simp add: call_times)
  ultimately show "paced X a (watchdog_guard_start E b) q"
    unfolding watchdog_guard_start_def
    by - (rule paced_bind, assumption, rule paced_bind, rule paced_feed, assumption, simp)
next
  assume "a + 2 * q \<le> X"
  moreover from this have "paced X a (api_do E (Kern K_timer_stop)) (a + q)"
    by (intro paced_costs costs_calls) (simp_all add: call_times)
  ultimately show "paced X a (watchdog_guard_stop E) 0"
    unfolding watchdog_guard_stop_def by - (rule paced_bind, assumption, rule paced_feed, simp)
qed

text \<open>Assistance: the guard feeds before and after, or it is declined at once.\<close>

lemma paced_fetch [paced_rules]:
  assumes "2 * s + 10 * q \<le> X" "a + 4 * q \<le> X"
  shows "paced X a (agnss_fetch_and_inject E) (a + 10 * q)"
  unfolding agnss_fetch_and_inject_def Let_def using assms
  by - (rule paced_mono, (rule paced_rules | (rule paced_costs, rule costs_rules) | linarith
      | (simp add: call_times; fail))+)

lemma paced_gnss_fix:
  assumes "a + (fix_window (cfg E) * 1000 + 4 * q) \<le> X"
    and "\<And>fx. paced X (a + (fix_window (cfg E) * 1000 + 4 * q)) (f fx) b"
  shows "paced X a (gnss_fix_timeout_seconds E \<bind> (\<lambda>t. wait_fix_opt E t \<bind> f)) b"
proof -
  have "paced X a ((gnss_fix_timeout_seconds E \<bind> wait_fix_opt E) \<bind> f) b"
    by (rule paced_bind [OF paced_costs [OF costs_gnss_fix assms(1)] assms(2)])
  then show ?thesis by (simp add: paced_def run_simps)
qed

text \<open>The first fix: the two windows, assistance before each of them and after them.\<close>

lemma paced_cold_start [paced_rules]:
  assumes "2 * s + 10 * q \<le> X" "a + TRACKER_AGNSS_PROACTIVE_WAIT_SECONDS (cfg E) * 1000 + 5 * q \<le> X"
  shows "paced X a (cold_start_assist E b) (a + TRACKER_AGNSS_PROACTIVE_WAIT_SECONDS (cfg E) * 1000 + 11 * q)"
  unfolding cold_start_assist_def using assms
  by - (rule paced_mono, (rule paced_rules | (rule paced_costs, rule costs_rules) | linarith
      | (simp add: call_times; fail))+)

lemma paced_last_resort [paced_rules]:
  assumes "2 * s + 10 * q \<le> X" "a + TRACKER_AGNSS_FIX_TIMEOUT_SECONDS (cfg E) * 1000 + 14 * q \<le> X"
  shows "paced X a (last_resort_fix E) (a + TRACKER_AGNSS_FIX_TIMEOUT_SECONDS (cfg E) * 1000 + 14 * q)"
  unfolding last_resort_fix_def using assms
  by - (rule paced_mono, (rule paced_rules | (rule paced_costs, rule costs_rules) | linarith
      | (simp add: call_times; fail))+)

lemma paced_fallback [paced_rules]:
  fixes a X :: nat
  defines "b \<equiv> a + TRACKER_AGNSS_PROACTIVE_WAIT_SECONDS (cfg E) * 1000 + fix_window (cfg E) * 1000 + 25 * q"
  assumes "2 * s + 10 * q \<le> X" "b \<le> X"
  shows "paced X a (fallback_fix E assisted) b"
  unfolding fallback_fix_def using assms
  by - (rule paced_mono, (rule paced_gnss_fix | rule paced_rules | (rule paced_costs, rule costs_rules) | linarith
      | (simp add: call_times; fail))+)

lemma paced_acquire [paced_rules]:
  assumes "2 * s + 10 * q \<le> X" "a + acquire_ms (cfg E) + 55 * q \<le> X"
  shows "paced X a (acquire_fix E) 0"
  unfolding acquire_fix_def Let_def using assms unfolding acquire_ms_def
  by - (rule paced_mono, (rule paced_gnss_fix | rule paced_rules | (rule paced_costs, rule costs_rules) | linarith
      | (simp add: call_times; fail))+)

text \<open>A report; a send that fails for a stale link is followed by another, after a guarded resume.\<close>

lemma paced_send [paced_rules]:
  assumes "modem_time_ms (cfg E) q + 3 * s + 3 * q \<le> X" "a + 5 * s + 22 * q \<le> X"
  shows "paced X a (send_payload E m) (a + 5 * s + 21 * q)"
  unfolding send_payload_def using assms
  by - (rule paced_mono, (rule paced_rules | (rule paced_costs, rule costs_rules) | linarith
      | (simp add: call_times; fail))+)

lemma paced_report_fix [paced_rules]:
  assumes "modem_time_ms (cfg E) q + 3 * s + 3 * q \<le> X" "a + 6 * s + 30 * q \<le> X"
  shows "paced X a (report_fix E fx t r) (a + 5 * q)"
  unfolding report_fix_def using assms
  by - (rule paced_mono, (rule paced_rules | (rule paced_costs, rule costs_rules) | linarith
      | (simp add: call_times; fail))+)

lemma paced_outcome [paced_rules]:
  assumes "modem_time_ms (cfg E) q + 3 * s + 3 * q \<le> X" "a + 6 * s + 30 * q \<le> X"
  shows "paced X a (report_outcome E fx t r) (a + 27 * q)"
  unfolding report_outcome_def using assms
  by - (rule paced_mono, (rule paced_rules | (rule paced_costs, rule costs_rules) | linarith
      | (simp add: call_times; fail))+)

lemma paced_first [paced_rules]:
  assumes "modem_time_ms (cfg E) q + 3 * s + 3 * q \<le> X"
    and "TRACKER_GNSS_EXTRA_FIX_SECONDS (cfg E) * 1000 + 5000 + 6 * s + 36 * q \<le> X"
  shows "paced X 0 (first_report E fx t r) 0"
  unfolding first_report_def using assms
  by - (rule paced_mono, (rule paced_rules | (rule paced_costs, rule costs_rules) | linarith
      | (simp add: call_times; fail))+)

text \<open>The frequent loop: a feed per pass, after the sleep.\<close>

lemma paced_body:
  assumes "modem_time_ms (cfg E) q + 3 * s + 3 * q \<le> X" "10000 + 6 * s + 36 * q \<le> X"
    and "a + TRACKER_CHARGING_INTERVAL_SECONDS (cfg E) * 1000 + 5 * q \<le> X"
  shows "paced X a (frequent_body E t r) (10000 + 31 * q)"
  unfolding frequent_body_def using assms
  by - (rule paced_mono, (rule paced_rules | (rule paced_costs, rule costs_rules) | linarith
      | (simp add: call_times; fail))+)

lemma paced_loop [paced_rules]:
  assumes "modem_time_ms (cfg E) q + 3 * s + 3 * q \<le> X" "10000 + 6 * s + 36 * q \<le> X"
    and "TRACKER_CHARGING_INTERVAL_SECONDS (cfg E) * 1000 + 10000 + 41 * q \<le> X" "a \<le> 10000 + 31 * q"
  shows "paced X a (frequent_loop fuel E mc t r) (10000 + 36 * q)"
  using assms(4)
proof (induction fuel arbitrary: a)
  case 0
  then show ?case by (simp add: paced_mono [OF paced_return])
next
  case (Suc fuel)
  have "paced X a (vbus_or_surge E mc) (a + 5 * q)"
    using Suc.prems assms by (intro paced_costs costs_status) linarith
  moreover have "paced X (a + 5 * q) (frequent_body E t r) (10000 + 31 * q)"
    using Suc.prems assms by (intro paced_body) linarith+
  moreover note Suc.IH [OF order.refl]
  moreover have "paced X (a + 5 * q) (return True) (10000 + 36 * q)"
    using Suc.prems by (intro paced_mono [OF paced_return]) simp
  ultimately have "paced X a (frequent_loop (Suc fuel) E mc t r) (max (10000 + 36 * q) (10000 + 36 * q))"
    unfolding frequent_loop.simps by (intro paced_bind [where b = "a + 5 * q"] paced_if paced_bind [where b = "10000 + 31 * q"])
  then show ?case by simp
qed

lemma paced_frequent [paced_rules]:
  assumes "modem_time_ms (cfg E) q + 3 * s + 3 * q \<le> X" "10000 + 6 * s + 36 * q \<le> X"
    and "TRACKER_CHARGING_INTERVAL_SECONDS (cfg E) * 1000 + 10000 + 41 * q \<le> X"
  shows "paced X 0 (frequent_reporting fuel E mc t r) (10000 + 36 * q)"
  unfolding frequent_reporting_def using assms
  by - (rule paced_mono, (rule paced_rules | (rule paced_costs, rule costs_rules) | linarith
      | (simp add: call_times; fail))+)

text \<open>A cycle, from one wake-up to the next.\<close>

lemma paced_tracking:
  assumes "enough (cfg E) q s X" "a \<le> TRACKER_GNSS_EXT_WARMUP_MS (cfg E) + 54 * q"
  shows "paced X a (cycle_tracking fuel E t r) (TRACKER_SLEEP_SECONDS (cfg E) * 1000 + 10000 + s + 52 * q)"
  unfolding cycle_tracking_def using assms unfolding enough_def worst_sleep_def
  by - (rule paced_mono, (rule paced_rules | (rule paced_costs, rule costs_rules) | linarith
      | (simp add: call_times; fail))+)

lemma paced_online:
  assumes "enough (cfg E) q s X" "a + q \<le> X"
  shows "paced X a (cycle_online fuel E t r) (worst_sleep (cfg E) q s)"
  unfolding cycle_online_def using assms unfolding enough_def worst_sleep_def
  by - (rule paced_mono, (rule paced_tracking [OF assms(1)] | rule paced_rules
      | (rule paced_costs, rule costs_rules) | linarith | (simp add: call_times; fail))+)

lemma paced_cycle:
  assumes "enough (cfg E) q s X" "a + 2 * q \<le> X"
  shows "paced X a (cycle fuel E r) (worst_sleep (cfg E) q s)"
  unfolding cycle_def Let_def using assms unfolding enough_def worst_sleep_def
  by - (rule paced_mono, (rule paced_online [OF assms(1)] | rule paced_rules
      | (rule paced_costs, rule costs_rules) | linarith | (unfold worst_sleep_def, linarith) | (simp; fail))+)

lemma paced_cycles:
  assumes "enough (cfg E) q s X" "a + 2 * q \<le> X"
  shows "paced X a (cycles n fuel E r) (max a (worst_sleep (cfg E) q s))"
  using assms(2)
proof (induction n arbitrary: a r)
  case 0
  then show ?case by (simp add: paced_mono [OF paced_return])
next
  case (Suc n)
  let ?W = "worst_sleep (cfg E) q s"
  have le: "?W + 2 * q \<le> X" using assms(1) by (simp add: enough_def)
  have "paced X ?W (case x of Slept reason \<Rightarrow> cycles n fuel E reason | _ \<Rightarrow> return x) ?W" for x
    using Suc.IH [OF le] by (cases x) (simp_all add: paced_return)
  then have "paced X a (cycles (Suc n) fuel E r) ?W"
    unfolding cycles.simps by (rule paced_bind [OF paced_cycle [OF assms(1) Suc.prems]])
  then show ?case by (rule paced_mono) simp
qed

section \<open>Boot, and the whole run\<close>

text \<open>Before the watchdog is set up nothing has to be fed; after it, the rest of boot comes first.\<close>

lemma off_fed: "\<not> wdt_on h \<Longrightarrow> fed_within X h"
  by (induction h) (auto split: if_splits)

lemma watchdog_init_fit: "\<not> wdt_on (hist w) \<Longrightarrow> fit X 0 (exec (watchdog_init E) w)"
  by (auto simp: fit_def watchdog_init_def run_simps hist_api intr_wdt_on off_fed feeds_wdt_def is_feed_def)

lemma paced_boot:
  assumes "2 * s + 56 * q \<le> X" "\<not> wdt_on (hist w)"
  shows "fit X (2 * s + 54 * q) (exec (boot E) w)"
proof -
  define v where "v = exec (modem_lib_init E) w"
  define rest where "rest = do {
     api_do E (Modem Modem_info_init);
     ignore (power_init E);
     ignore (motion_init E);
     ignore (status_led_init E);
     err2 \<leftarrow> gnss_init E;
     if err2 \<noteq> 0 then return (Some (- EIO)) else boot_network E }"
  have "costs (2 * q) (modem_lib_init E)"
    unfolding modem_lib_init_def on_modem_lib_init_def
    by (rule costs_mono, (rule costs_rules | (simp add: call_times; fail))+)
  then have v: "\<not> wdt_on (hist v)" using assms(2) by (auto simp: costs_def v_def)
  then have off: "fit X (2 * s + 54 * q) v" by (simp add: fit_def off_fed)
  have "paced X 0 rest (2 * s + 54 * q)"
    unfolding rest_def using assms(1)
    by - (rule paced_mono, (rule paced_rules | (rule paced_costs, rule costs_rules) | linarith
      | (simp add: call_times; fail))+)
  then have "fit X (2 * s + 54 * q) (exec rest (exec (watchdog_init E) v))"
    using watchdog_init_fit [OF v] by (simp add: paced_def)
  then show ?thesis
    using off by (simp add: boot_def boot_peripherals_def rest_def v_def run_simps)
qed

lemma main_fed:
  assumes "enough (cfg E) q s X" "\<not> wdt_on (hist w)"
  shows "fed_within X (hist (exec (main n fuel E) w))"
proof -
  have "2 * s + 56 * q \<le> X" using assms(1) by (simp add: enough_def)
  then have "fit X (2 * s + 54 * q) (exec (boot E) w)" using assms(2) by (rule paced_boot)
  moreover have "paced X (2 * s + 54 * q) (cycles n fuel E TRACKER_WAKE_BOOT)
      (max (2 * s + 54 * q) (worst_sleep (cfg E) q s))"
    using assms(1) by (intro paced_cycles) (simp_all add: enough_def)
  ultimately show ?thesis
    by (simp add: main_def run_simps paced_def fit_def split: option.split)
qed

end

end
