(* ===== verification/Reach.thy ===== *)
theory Reach
  imports Pacing
begin

text \<open>
  Whole runs.  \<open>at_loop_head\<close> are the states in which \<open>main\<close> enters its endless loop: after boot, and
  after each sleep.  What holds in all of them, and at the end of every run, is proved by rule
  induction from what each function of main.c keeps.
\<close>

section \<open>The states at the head of the loop\<close>

inductive at_loop_head :: "('a tracker_state_scheme) env \<Rightarrow> 'a tracker_state_scheme \<Rightarrow>
    tracker_wake_reason \<Rightarrow> 'a tracker_state_scheme \<Rightarrow> bool" for E w0 where
  booted: "result (boot E) w0 = None \<Longrightarrow> at_loop_head E w0 TRACKER_WAKE_BOOT (exec (boot E) w0)"
| slept: "at_loop_head E w0 r w \<Longrightarrow> result (cycle fuel E r) w = Slept r' \<Longrightarrow>
    at_loop_head E w0 r' (exec (cycle fuel E r) w)"

text \<open>A run of \<open>main\<close> that sleeps is at the head of the loop when it wakes up.\<close>

lemma cycles_at_loop_head:
  "at_loop_head E w0 r w \<Longrightarrow> result (cycles n fuel E r) w = Slept r' \<Longrightarrow>
   at_loop_head E w0 r' (exec (cycles n fuel E r) w)"
proof (induction n arbitrary: r w)
  case (Suc n)
  show ?case
  proof (cases "result (cycle fuel E r) w")
    case (Slept reason)
    then show ?thesis
      using Suc.IH [OF slept [OF Suc.prems(1) Slept]] Suc.prems(2) by (simp add: run_simps)
  qed (use Suc.prems in \<open>simp_all add: run_simps\<close>)
qed simp

lemma main_at_loop_head:
  assumes "result (main n fuel E) w0 = Inr (Slept r)"
  shows "at_loop_head E w0 r (exec (main n fuel E) w0)"
proof (cases "result (boot E) w0")
  case None
  then show ?thesis
    using assms cycles_at_loop_head [OF booted [OF None], of n fuel r] by (simp add: main_def run_simps)
qed (use assms in \<open>simp add: main_def run_simps\<close>)

section \<open>What every function keeps\<close>

text \<open>
  \<open>consistent\<close>: the link's state is the session's, and the calls that led there obey the protocol; a
  connected link has credentials; \<open>armed\<close> is the state of the sensor's trigger; the count of sleeps is
  within its bound.
\<close>

definition consistent :: "config \<Rightarrow> 'a tracker_state_scheme \<Rightarrow> bool" where
  "consistent C w \<longleftrightarrow> link_ok C w \<and> link_current w \<and> session_protocol (hist w) \<and> armed_current w \<and>
     unat (battery_sleeps w) \<le> TRACKER_MOTION_SETTLE_CYCLES C"

definition unlinked :: "config \<Rightarrow> 'a tracker_state_scheme \<Rightarrow> bool" where
  "unlinked C w \<longleftrightarrow> consistent C w \<and> link_state w = LINK_DISCONNECTED"

text \<open>The part of it that is not the cloud's.\<close>

definition motion_view :: "'a tracker_state_scheme \<Rightarrow> bool \<times> bool \<times> u32" where
  "motion_view w = (armed w, trigger_set (hist w), battery_sleeps w)"

lemmas consistent_defs = consistent_def link_ok_def link_current_def armed_current_def

lemma keeps_case_provider [hoare_rules]:
  "(p = NrfCloud \<Longrightarrow> keeps I m) \<Longrightarrow> (p = HologramCloud \<Longrightarrow> keeps I n) \<Longrightarrow>
   keeps I (case p of NrfCloud \<Rightarrow> m | HologramCloud \<Rightarrow> n)"
  by (cases p) simp_all

lemma keeps_cycles:
  assumes "\<And>r. keeps J (cycle fuel E r)"
  shows "keeps J (cycles n fuel E r)"
  using assms by (induction n arbitrary: r) (auto intro!: keeps_bind keeps_return split: cycle_result.split)

context tracker_runtime begin

lemma consistent_calls [hoare_rules]:
  assumes "\<not> session_call c" "\<And>b. c \<noteq> Board (Sensor_trigger_set b)"
  shows "keeps (consistent C) (api E c)" "keeps (consistent C) (api_rc E c)"
    "keeps (consistent C) (api_flag E c)" "keeps (consistent C) (api_do E c)"
proof -
  have "session_protocol (hist (exec (api E c) w)) = session_protocol (hist w)" for w
    using assms(1) by (auto simp: protocol_after session_call_def split: call.splits cloud_call.splits)
  moreover have "trigger_set (hist (exec (api E c) w)) = trigger_set (hist w)" for w
    using assms(2) by (simp add: hist_api intr_trigger)
  ultimately have "keeps (consistent C) (api E c)"
    using assms(1) by (simp add: keeps_def consistent_defs session_api)
  then show "keeps (consistent C) (api E c)" "keeps (consistent C) (api_rc E c)"
    "keeps (consistent C) (api_flag E c)" "keeps (consistent C) (api_do E c)"
    by (simp_all add: keeps_api_variants)
qed

text \<open>The two that call what the invariant is about.\<close>

lemma consistent_arm [hoare_rules]: "keeps (consistent C) (motion_set_armed E arm)"
proof -
  have *: "link_state (exec (motion_set_armed E arm) w) = link_state w"
    "creds_ok (exec (motion_set_armed E arm) w) = creds_ok w"
    "battery_sleeps (exec (motion_set_armed E arm) w) = battery_sleeps w"
    "session (hist (exec (motion_set_armed E arm) w)) = session (hist w)"
    "session_protocol (hist (exec (motion_set_armed E arm) w)) = session_protocol (hist w)" for w
    by (simp_all add: motion_set_armed_def run_simps session_after protocol_after)
  show ?thesis
    using motion_set_armed_armed_current by (simp add: keeps_def consistent_def link_ok_def link_current_def *)
qed

lemma modem_time_loop_consistent [hoare_rules]: "keeps (consistent C) (modem_time_loop E waited)"
proof (induction "TRACKER_MODEM_TIME_WAIT_SECONDS (cfg E) - waited" arbitrary: waited rule: less_induct)
  case less
  show ?case
    by (subst modem_time_loop.simps, unfold watchdog_feed_def)
       (intro hoare_rules less; simp add: consistent_defs MODEM_TIME_POLL_S_def session_call_def)
qed

text \<open>What the cloud's operations leave alone.\<close>

lemma trigger_api:
  "(\<And>b. c \<noteq> Board (Sensor_trigger_set b)) \<Longrightarrow> trigger_set (hist (exec (api E c) w)) = trigger_set (hist w)"
  by (simp add: hist_api intr_trigger)

lemma motion_view_api [advances_rules]:
  assumes "\<And>b. c \<noteq> Board (Sensor_trigger_set b)"
  shows "advances (same motion_view) (api E c)" "advances (same motion_view) (api_rc E c)"
    "advances (same motion_view) (api_flag E c)" "advances (same motion_view) (api_do E c)"
  using assms by (simp_all add: advances_def same_def motion_view_def run_simps trigger_api)

lemma motion_view_loop: "advances (same motion_view) (modem_time_loop E waited)"
proof (induction "TRACKER_MODEM_TIME_WAIT_SECONDS (cfg E) - waited" arbitrary: waited rule: less_induct)
  case less
  show ?case
    by (subst modem_time_loop.simps, unfold watchdog_feed_def)
       (intro advances_rules less; simp add: same_def motion_view_def MODEM_TIME_POLL_S_def)
qed

lemma motion_view_cloud:
  "advances (same motion_view) (cloud_resume E)" "advances (same motion_view) (cloud_pause E)"
  unfolding link_defs
  by (intro advances_rules advances_case_provider motion_view_loop; simp add: same_def motion_view_def)+

lemma cloud_nrf_protocol:
  assumes "link_current w" "session_protocol (hist w)"
  shows "session_protocol (hist (exec (cloud_nrf_resume E) w))" "session_protocol (hist (exec (cloud_nrf_pause E) w))"
  using assms
  by (cases "session (hist w)"; simp add: cloud_nrf_resume_def cloud_nrf_connect_def modem_time_wait_def
      cloud_nrf_pause_def run_simps session_after protocol_after link_current_def)+

lemma cloud_calls:
  "exec (cloud_resume E) w = (if TRACKER_CLOUD_PROVIDER (cfg E) = NrfCloud then exec (cloud_nrf_resume E) w else w)"
  "exec (cloud_pause E) w = (if TRACKER_CLOUD_PROVIDER (cfg E) = NrfCloud then exec (cloud_nrf_pause E) w else w)"
  by (cases "TRACKER_CLOUD_PROVIDER (cfg E)"; simp add: cloud_resume_def cloud_pause_def
      cloud_hologram_resume_def cloud_hologram_pause_def)+

lemma consistent_view:
  "consistent (cfg E) w \<Longrightarrow> motion_view w' = motion_view w \<Longrightarrow> link_ok (cfg E) w' \<Longrightarrow> link_current w' \<Longrightarrow>
   session_protocol (hist w') \<Longrightarrow> consistent (cfg E) w'"
  by (simp add: consistent_def motion_view_def armed_current_def)

lemma consistent_resume [hoare_rules]:
  assumes "\<not> TRACKER_OFFLINE_DEBUG (cfg E)"
  shows "keeps (consistent (cfg E)) (cloud_resume E)" "keeps (consistent (cfg E)) (cloud_pause E)"
proof -
  have "consistent (cfg E) (exec (cloud_resume E) w) \<and> consistent (cfg E) (exec (cloud_pause E) w)"
    if w: "consistent (cfg E) w" for w
  proof -
    have I: "link_ok (cfg E) w" "link_current w" "session_protocol (hist w)" using w by (simp_all add: consistent_def)
    note facts = cloud_nrf_resume_result(2) [OF I(1)] cloud_nrf_resume_session [OF assms I(2)]
      cloud_nrf_pause_link(2) [OF I(1)] cloud_nrf_pause_session [OF I(2)] cloud_nrf_protocol [OF I(2,3)] I
    show ?thesis
      by (intro conjI consistent_view [OF w] motion_view_cloud [THEN advances_sameD]; subst cloud_calls)
         (simp_all only: facts simp_thms split: if_split)
  qed
  then show "keeps (consistent (cfg E)) (cloud_resume E)" "keeps (consistent (cfg E)) (cloud_pause E)"
    by (simp_all add: keeps_def)
qed

text \<open>Everything else, bottom up.\<close>

lemma consistent_leaves [hoare_rules]:
  "keeps (consistent C) (k_uptime_get E)" "keeps (consistent C) (watchdog_feed E)"
  "keeps (consistent C) (watchdog_phase p)" "keeps (consistent C) (watchdog_guard_start E b)"
  "keeps (consistent C) (watchdog_guard_stop E)" "keeps (consistent C) (power_vbus_present E)"
  "keeps (consistent C) (power_read E)" "keeps (consistent C) (motion_last_event_uptime E)"
  "keeps (consistent C) (status_led_set E st)" "keeps (consistent C) (status_led_pattern E pat)"
  "keeps (consistent C) (status_led_sleep E)" "keeps (consistent C) (lte_is_registered E)"
  "keeps (consistent C) (lte_ensure_connected E)" "keeps (consistent C) (wake_wait E t)"
  unfolding board_defs watchdog_feed_def
  by (intro hoare_rules; simp add: consistent_defs session_call_def)+

lemma consistent_cloud [hoare_rules]:
  "keeps (consistent C) (cloud_send_telemetry E m)" "keeps (consistent C) (cloud_send_location E f)"
  "keeps (consistent C) (cloud_is_ready E)"
  unfolding send_defs
  by (intro hoare_rules; simp add: session_call_def)+

lemma consistent_receivers [hoare_rules]:
  "keeps (consistent C) (gnss_start E)" "keeps (consistent C) (gnss_stop E)" "keeps (consistent C) (gnss_fallback E)"
  "keeps (consistent C) (gnss_fallback_available E)" "keeps (consistent C) (gnss_fix_timeout_seconds E)"
  "keeps (consistent C) (gnss_agnss_request_wait E t)" "keeps (consistent C) (gnss_wait_fix E t)"
  "keeps (consistent C) (agnss_fetch_and_inject E)" "keeps (consistent C) (agnss_wanted E)"
  unfolding receiver_defs assist_defs
  by (intro hoare_rules; simp add: consistent_defs session_call_def)+

lemma consistent_reports [hoare_rules]:
  "keeps (consistent C) (vbus_or_surge E mc)" "keeps (consistent C) (status_led_report E b)"
  "keeps (consistent C) (collect_telemetry E fx t r)" "keeps (consistent C) (telemetry_build_json E tm n)"
  "keeps (consistent C) (recover_if_silent E)" "keeps (consistent C) (settle_fix E f)"
  "keeps (consistent C) (wait_fix_opt E n')" "keeps (consistent C) (cycle_network E)"
  unfolding report_defs recover_if_silent_def
  by (intro hoare_rules; simp add: consistent_defs session_call_def)+

lemma consistent_fix [hoare_rules]:
  "keeps (consistent C) (cold_start_assist E b)" "keeps (consistent C) (fallback_fix E a)"
  "keeps (consistent C) (last_resort_fix E)" "keeps (consistent C) (acquire_fix E)"
  unfolding cold_start_assist_def fallback_fix_def last_resort_fix_def acquire_fix_def Let_def
  by (intro hoare_rules)+

text \<open>The battery sleep counts up to its bound.\<close>

lemma consistent_sleep [hoare_rules]:
  assumes "TRACKER_MOTION_SETTLE_CYCLES (cfg E) < 2 ^ 32"
  shows "keeps (consistent (cfg E)) (battery_sleep E)"
proof -
  let ?n = "word_of_nat (TRACKER_MOTION_SETTLE_CYCLES (cfg E)) :: u32"
  have "consistent (cfg E) (exec (battery_sleep E) w)" if w: "consistent (cfg E) w" for w
  proof -
    define arm where "arm = (?n \<le> battery_sleeps w)"
    define pre where "pre = do {
       watchdog_phase TRACKER_PHASE_LED_SLEEP;
       status_led_sleep E;
       watchdog_phase TRACKER_PHASE_MOTION_ARM;
       motion_set_armed E arm }"
    define v where "v = exec pre w"
    have "keeps (consistent (cfg E)) pre" unfolding pre_def by (intro hoare_rules)
    then have v: "consistent (cfg E) v" using w unfolding v_def by (rule keepsD)
    have same: "battery_sleeps v = battery_sleeps w"
      by (simp add: v_def pre_def run_simps motion_same [THEN advances_sameD])
    have "consistent (cfg E) (exec (when_do (\<not> arm) (modify (battery_sleeps_update (\<lambda>n. n + 1)))) v)"
    proof (cases arm)
      case False
      then have "unat (battery_sleeps v) < TRACKER_MOTION_SETTLE_CYCLES (cfg E)"
        using assms same by (simp add: arm_def word_le_nat_alt unat_of_nat)
      moreover from this have "unat (battery_sleeps v + 1) = unat (battery_sleeps v) + 1"
        using assms by (simp add: unat_word_ariths)
      ultimately show ?thesis using v False by (simp add: consistent_defs run_simps)
    qed (use v in \<open>simp add: run_simps\<close>)
    moreover have "keeps (consistent (cfg E)) (do {
        watchdog_phase TRACKER_PHASE_SLEEP; wake_wait E (TRACKER_SLEEP_SECONDS (cfg E)) })"
      by (intro hoare_rules)
    ultimately show ?thesis
      by (simp add: battery_sleep_def run_simps keeps_def v_def pre_def arm_def)
  qed
  then show ?thesis by (simp add: keeps_def)
qed

text \<open>The rest of main.c.\<close>

lemma consistent_report [hoare_rules]:
  assumes "\<not> TRACKER_OFFLINE_DEBUG (cfg E)"
  shows "keeps (consistent (cfg E)) (report_outcome E fx t r)"
proof -
  have "keeps (consistent (cfg E)) (report_fix E f t r)" for f
    unfolding report_fix_def send_payload_def
    by (intro hoare_rules; simp add: assms consistent_defs)
  then show ?thesis unfolding report_outcome_def by (intro hoare_rules)
qed

lemma consistent_loop [hoare_rules]:
  assumes "\<not> TRACKER_OFFLINE_DEBUG (cfg E)"
  shows "keeps (consistent (cfg E)) (frequent_loop fuel E mc t r)"
proof -
  have "keeps (consistent (cfg E)) (frequent_body E t r)"
    unfolding frequent_body_def
    by (intro hoare_rules; simp add: assms consistent_defs session_call_def)
  then show ?thesis
    by (induction fuel) (simp_all, (intro hoare_rules; assumption)+)
qed

lemma consistent_cycle:
  assumes "\<not> TRACKER_OFFLINE_DEBUG (cfg E)" "TRACKER_MOTION_SETTLE_CYCLES (cfg E) < 2 ^ 32"
  shows "keeps (consistent (cfg E)) (cycle fuel E r)"
proof -
  have sleep: "keeps (consistent (cfg E)) (sleep_until_wake E)"
    unfolding sleep_until_wake_def by (intro hoare_rules assms)
  have "keeps (consistent (cfg E)) (cycle_tracking fuel E t r)" for t
    unfolding cycle_tracking_def first_report_def frequent_reporting_def
    by (intro hoare_rules sleep assms)
  then have "keeps (consistent (cfg E)) (cycle_online fuel E t r)" for t
    unfolding cycle_online_def by (intro hoare_rules sleep assms)
  then show ?thesis
    unfolding cycle_def Let_def by (intro hoare_rules sleep) (simp_all add: consistent_defs)
qed

text \<open>During boot the link is down, so that the credentials may still change.\<close>

lemma unlinked_calls [hoare_rules]:
  assumes "\<not> session_call c" "\<And>b. c \<noteq> Board (Sensor_trigger_set b)"
  shows "keeps (unlinked C) (api E c)" "keeps (unlinked C) (api_rc E c)"
    "keeps (unlinked C) (api_flag E c)" "keeps (unlinked C) (api_do E c)"
  using consistent_calls [OF assms, of C] by (simp_all add: keeps_def unlinked_def run_simps)

lemma unlinked_boot: "keeps (unlinked C) (boot E)"
proof -
  have "keeps (unlinked C) (modem_lib_init E)" "keeps (unlinked C) (boot_peripherals E)"
    "keeps (unlinked C) (gnss_init E)" "keeps (unlinked C) (boot_network E)"
    unfolding cloud_init_defs boot_defs status_led_set_def stop_blink_def apply_led_def
    reschedule_blink_def status_led_report_def lte_is_registered_def led_pattern_def
    power_vbus_present_def power_read_def status_led_pattern_def
    by (intro hoare_rules; auto simp: unlinked_def consistent_defs session_call_def)+
  then show ?thesis unfolding boot_def by (intro hoare_rules)
qed

end

context tracker_runtime begin

text \<open>What holds at the head of the loop, whenever it is reached.\<close>

lemma loop_head_invariant:
  assumes "at_loop_head E w0 r w" "unlinked (cfg E) w0" "resting w0" "\<not> powered w0" "rx_sound (reply E)"
    and "\<not> TRACKER_OFFLINE_DEBUG (cfg E)" "TRACKER_MOTION_SETTLE_CYCLES (cfg E) < 2 ^ 32"
  shows "consistent (cfg E) w \<and> resting w"
  using assms(1)
proof (induction rule: at_loop_head.induct)
  case booted
  show ?case
    using keepsD [OF unlinked_boot assms(2)] boot_idle [of w0] issues_sleeps [OF awake_cycle(5), of w0] assms(3,4)
    by (simp add: unlinked_def resting_def)
next
  case (slept r w fuel r')
  then have "idle w" "resting w" "consistent (cfg E) w" by (simp_all add: resting_def)
  then show ?case
    using keepsD [OF consistent_cycle [OF assms(6,7)], of w fuel r] cycle_safe [OF assms(5), of w fuel r]
      cycle_rest [OF assms(5) _ slept(2)]
    by (simp add: resting_def safe_def)
qed

end

end
