(* ===== verification/Silence.thy ===== *)
theory Silence
  imports Reach
begin

text \<open>
  A tracker that cannot report: every cycle ends in a reboot or in a full sleep, so that the reboot
  comes after a number of cycles that the configured times fix.
\<close>

section \<open>Without a report\<close>

text \<open>Nothing was reported, and time did not go back.\<close>

definition unreported :: "'a tracker_state_scheme \<Rightarrow> 'a tracker_state_scheme \<Rightarrow> bool" where
  "unreported w w' \<longleftrightarrow> last_send_uptime w' = last_send_uptime w \<and> elapsed (hist w) \<le> elapsed (hist w')"

lemma unreported_order [simp]: "reflp unreported" "transp unreported"
  by (auto simp: unreported_def reflp_def transp_def)

text \<open>
  \<open>undisturbed\<close>: nothing ends the battery sleep early.  \<open>dozes T m\<close>: \<open>m\<close> ends in a sleep that the timer
  ends, at least \<open>T\<close> ms later, with nothing reported.
\<close>

definition undisturbed :: "(event list \<Rightarrow> call \<Rightarrow> resp) \<Rightarrow> bool" where
  "undisturbed R \<longleftrightarrow> (\<forall>h ms. rc (R h (Kern (K_sem_take Wake_sem ms))) \<noteq> 0 \<and>
     ms \<le> took (R h (Kern (K_sem_take Wake_sem ms))))"

definition dozes :: "nat \<Rightarrow> ('a tracker_state_scheme, cycle_result) state \<Rightarrow> bool" where
  "dozes T m \<longleftrightarrow> (\<forall>w. result m w = Slept TRACKER_WAKE_TIMER \<and>
     last_send_uptime (exec m w) = last_send_uptime w \<and> elapsed (hist w) + T \<le> elapsed (hist (exec m w)))"

named_theorems dozes_rules \<open>syntax-directed rules for dozes\<close>

lemma dozes_bind_result:
  assumes "advances unreported m" "\<And>w. P (result m w)" "\<And>x. P x \<Longrightarrow> dozes T (f x)"
  shows "dozes T (m \<bind> f)"
proof -
  have "result (m \<bind> f) w = Slept TRACKER_WAKE_TIMER \<and>
      last_send_uptime (exec (m \<bind> f) w) = last_send_uptime w \<and>
      elapsed (hist w) + T \<le> elapsed (hist (exec (m \<bind> f) w))" for w
  proof -
    have "unreported w (exec m w)" by (rule advancesD [OF assms(1)])
    moreover have "dozes T (f (result m w))" by (rule assms(3)) (rule assms(2))
    then have "result (f (result m w)) (exec m w) = Slept TRACKER_WAKE_TIMER \<and>
        last_send_uptime (exec (f (result m w)) (exec m w)) = last_send_uptime (exec m w) \<and>
        elapsed (hist (exec m w)) + T \<le> elapsed (hist (exec (f (result m w)) (exec m w)))"
      by (simp only: dozes_def)
    ultimately show ?thesis by (simp add: run_simps unreported_def)
  qed
  then show ?thesis by (simp add: dozes_def)
qed

lemma dozes_bind [dozes_rules]: "advances unreported m \<Longrightarrow> (\<And>x. dozes T (f x)) \<Longrightarrow> dozes T (m \<bind> f)"
  by (rule dozes_bind_result [where P = "\<lambda>_. True"]) simp_all

lemma dozes_if [dozes_rules]: "dozes T m \<Longrightarrow> dozes T n \<Longrightarrow> dozes T (if b then m else n)"
  by simp

context tracker_runtime begin

lemma unreported_api [advances_rules]:
  "advances unreported (api E c)" "advances unreported (api_rc E c)"
  "advances unreported (api_flag E c)" "advances unreported (api_do E c)"
proof -
  have "elapsed (hist w) \<le> elapsed (hist (exec (api E c) w))" for w
    using elapsed_api [of w c] by simp
  then show "advances unreported (api E c)" "advances unreported (api_rc E c)"
    "advances unreported (api_flag E c)" "advances unreported (api_do E c)"
    by (simp_all add: advances_def unreported_def run_simps)
qed

lemma unreported_loop: "advances unreported (modem_time_loop E waited)"
  by (rule modem_time_loop_advances) (simp_all add: advances_rules, simp add: unreported_def)

text \<open>Bottom up: everything but a report.\<close>

lemma unreported_leaves [advances_rules]:
  "advances unreported (k_uptime_get E)" "advances unreported (watchdog_feed E)"
  "advances unreported (watchdog_phase p)" "advances unreported (watchdog_guard_start E b)"
  "advances unreported (watchdog_guard_stop E)" "advances unreported (power_vbus_present E)"
  "advances unreported (power_read E)" "advances unreported (motion_last_event_uptime E)"
  "advances unreported (motion_set_armed E arm)"
  "advances unreported (status_led_set E st)" "advances unreported (status_led_pattern E pat)"
  "advances unreported (status_led_sleep E)" "advances unreported (lte_is_registered E)"
  "advances unreported (lte_ensure_connected E)"
  unfolding board_defs watchdog_feed_def motion_set_armed_def
  by (intro advances_rules; simp add: unreported_def)+

lemma unreported_cloud [advances_rules]:
  "advances unreported (cloud_send_telemetry E m)" "advances unreported (cloud_send_location E f)"
  "advances unreported (cloud_is_ready E)" "advances unreported (cloud_resume E)" "advances unreported (cloud_pause E)"
  unfolding send_defs link_defs
  by (intro advances_rules advances_case_provider unreported_loop; simp add: unreported_def)+

lemma unreported_receivers [advances_rules]:
  "advances unreported (gnss_start E)" "advances unreported (gnss_stop E)" "advances unreported (gnss_fallback E)"
  "advances unreported (gnss_fallback_available E)" "advances unreported (gnss_fix_timeout_seconds E)"
  "advances unreported (gnss_agnss_request_wait E t)" "advances unreported (gnss_wait_fix E t)"
  "advances unreported (agnss_fetch_and_inject E)" "advances unreported (agnss_wanted E)"
  unfolding receiver_defs assist_defs
  by (intro advances_rules; simp add: unreported_def)+

lemma unreported_cycle_parts [advances_rules]:
  "advances unreported (vbus_or_surge E mc)" "advances unreported (status_led_report E b)"
  "advances unreported (collect_telemetry E fx t r)" "advances unreported (telemetry_build_json E tm n)"
  "advances unreported (recover_if_silent E)" "advances unreported (wait_fix_opt E n')"
  "advances unreported (settle_fix E f)" "advances unreported (cycle_network E)"
  "advances unreported (send_payload E s)"
  unfolding report_defs recover_if_silent_def send_payload_def
  by (intro advances_rules; simp add: unreported_def)+

lemma unreported_fix [advances_rules]:
  "advances unreported (cold_start_assist E b)" "advances unreported (fallback_fix E a)"
  "advances unreported (last_resort_fix E)" "advances unreported (acquire_fix E)"
  unfolding cold_start_assist_def fallback_fix_def last_resort_fix_def acquire_fix_def Let_def
  by (intro advances_rules; simp)+

lemma unreported_boot: "advances unreported (boot E)"
proof -
  have "advances unreported (modem_lib_init E)" "advances unreported (boot_peripherals E)"
    "advances unreported (gnss_init E)" "advances unreported (boot_network E)"
    unfolding cloud_init_defs boot_defs
    by (intro advances_rules advances_case_provider; simp add: unreported_def)+
  then show ?thesis unfolding boot_def by (intro advances_rules; simp)
qed

section \<open>A cycle without a report\<close>

lemma unreported_report:
  assumes "\<And>s w. result (send_payload E s) w \<noteq> 0"
  shows "advances unreported (report_outcome E fx t r)"
proof -
  have "result (report_fix E f t r) w \<noteq> 0" for f w
    using assms by (simp add: report_fix_def run_simps ENOMEM_def split: prod.split)
  then have "last_send_uptime (exec (report_fix E f t r) w) = last_send_uptime w" for f w
    by (rule report_fix_failed)
  moreover have "elapsed (hist w) \<le> elapsed (hist (exec (report_fix E f t r) w))" for f w
    by (rule elapsed_rx) (rule report_fix_rx)
  ultimately have "advances unreported (report_fix E f t r)" for f
    by (simp add: advances_def unreported_def)
  then show ?thesis unfolding report_outcome_def by (intro advances_rules; simp)
qed

text \<open>Without external power and without a jolt the frequent loop is not entered.\<close>

lemma frequent_skipped:
  assumes "\<forall>w. \<not> result (power_vbus_present E) w"
  shows "result (frequent_reporting fuel E False t r) w" "advances unreported (frequent_reporting fuel E False t r)"
proof -
  have no: "\<not> result (vbus_or_surge E False) w" for w
    using assms by (simp add: vbus_or_surge_def surge_active_def run_simps)
  then show "result (frequent_reporting fuel E False t r) w" by (simp add: frequent_reporting_def run_simps)
  have "exec (frequent_reporting fuel E False t r) w = exec (vbus_or_surge E False) w" for w
    using no by (simp add: frequent_reporting_def run_simps)
  then show "advances unreported (frequent_reporting fuel E False t r)"
    using unreported_cycle_parts(1) by (simp add: advances_def)
qed

lemma sleep_dozes [dozes_rules]:
  assumes "undisturbed (reply E)" "\<not> in_isr E"
  shows "dozes (TRACKER_SLEEP_SECONDS (cfg E) * 1000) (sleep_until_wake E)"
proof -
  let ?ms = "TRACKER_SLEEP_SECONDS (cfg E) * 1000"
  let ?take = "api E (Kern (K_sem_take Wake_sem ?ms))"
  define pre where "pre = do {
     arm \<leftarrow> gets (\<lambda>w. battery_sleeps w \<ge> word_of_nat (TRACKER_MOTION_SETTLE_CYCLES (cfg E)));
     watchdog_phase TRACKER_PHASE_LED_SLEEP;
     status_led_sleep E;
     watchdog_phase TRACKER_PHASE_MOTION_ARM;
     motion_set_armed E arm;
     when_do (\<not> arm) (modify (battery_sleeps_update (\<lambda>n. n + 1)));
     watchdog_phase TRACKER_PHASE_SLEEP;
     atomic_set E Pending (wake_reason_val TRACKER_WAKE_TIMER) (pending_update (\<lambda>_. TRACKER_WAKE_TIMER));
     api_do E (Kern (K_sem_reset Wake_sem)) }"
  have "advances unreported pre"
    unfolding pre_def atomic_defs by (intro advances_rules; simp add: unreported_def)
  then have pre: "unreported w (exec pre w)" for w by (rule advancesD)
  have rc: "rc (result ?take v) \<noteq> 0" and took: "elapsed (hist v) + ?ms \<le> elapsed (hist (exec ?take v))" for v
  proof -
    have "?ms \<le> took (result ?take v)" "rc (result ?take v) \<noteq> 0"
      using assms(1) by (simp_all add: undisturbed_def result_api)
    then show "rc (result ?take v) \<noteq> 0" "elapsed (hist v) + ?ms \<le> elapsed (hist (exec ?take v))"
      using elapsed_api [of v "Kern (K_sem_take Wake_sem ?ms)"] assms(2) by simp_all
  qed
  have run: "result (sleep_until_wake E) w = Slept TRACKER_WAKE_TIMER"
    "exec (sleep_until_wake E) w = exec ?take (exec pre w)" for w
    using rc by (simp_all add: sleep_until_wake_def battery_sleep_def wake_wait_def wake_take_def pre_def run_simps)
  have "elapsed (hist w) + ?ms \<le> elapsed (hist (exec ?take (exec pre w)))" for w
    using pre [of w] took [of "exec pre w"] by (simp add: unreported_def)
  then show ?thesis
    unfolding dozes_def run using pre by (simp add: unreported_def)
qed

lemma cycle_dozes:
  assumes "undisturbed (reply E)" "\<not> in_isr E" "\<forall>w. \<not> result (power_vbus_present E) w"
    and "\<And>s w. result (send_payload E s) w \<noteq> 0" "r \<noteq> TRACKER_WAKE_MOTION"
  shows "dozes (TRACKER_SLEEP_SECONDS (cfg E) * 1000) (cycle_online fuel E t r)"
proof -
  note sleep = sleep_dozes [OF assms(1,2)]
  have "advances unreported (first_report E fx t r)" for fx
    unfolding first_report_def by (intro advances_rules unreported_report assms(4); simp)
  moreover have "dozes (TRACKER_SLEEP_SECONDS (cfg E) * 1000) (frequent_reporting fuel E False t r \<bind>
      (\<lambda>over. if \<not> over then return OutOfFuel else do {
         watchdog_phase TRACKER_PHASE_GNSS_STOP;
         gnss_stop E;
         watchdog_phase TRACKER_PHASE_CLOUD_PAUSE;
         cloud_pause E;
         sleep_until_wake E }))"
    by (rule dozes_bind_result [where P = "\<lambda>over. over", OF frequent_skipped(2,1)]; simp add: assms(3))
       (intro dozes_rules advances_rules sleep)
  ultimately have "dozes (TRACKER_SLEEP_SECONDS (cfg E) * 1000) (cycle_tracking fuel E t r)"
    unfolding cycle_tracking_def using assms(5) by (simp add: dozes_bind unreported_fix)
  then show ?thesis
    unfolding cycle_online_def by (intro dozes_rules advances_rules sleep)
qed

text \<open>A cycle reboots or sleeps; it reboots once the silence has lasted long enough.\<close>

lemma cycle_silent:
  assumes "undisturbed (reply E)" "\<not> in_isr E" "\<forall>w. \<not> result (power_vbus_present E) w"
    and "\<And>s w. result (send_payload E s) w \<noteq> 0" "r \<noteq> TRACKER_WAKE_MOTION" "\<not> TRACKER_SKIP_LTE (cfg E)"
    and "clock_sound (reply E)" "0 < TRACKER_MODEM_RECOVERY_MINUTES (cfg E)"
    and "TRACKER_MODEM_RECOVERY_MINUTES (cfg E) \<le> TRACKER_REBOOT_MINUTES (cfg E)"
  shows "result (cycle fuel E r) w = Rebooted \<or>
      result (cycle fuel E r) w = Slept TRACKER_WAKE_TIMER \<and>
      last_send_uptime (exec (cycle fuel E r) w) = last_send_uptime w \<and>
      elapsed (hist w) + TRACKER_SLEEP_SECONDS (cfg E) * 1000 \<le> elapsed (hist (exec (cycle fuel E r) w))"
    and "last_send_uptime w + int (TRACKER_REBOOT_MINUTES (cfg E)) * 60000 \<le> int (elapsed (hist w)) \<Longrightarrow>
      result (cycle fuel E r) w = Rebooted"
proof -
  define t where "t = to_u32 (result (k_uptime_get E) w)"
  define pre where "pre = do {
     now \<leftarrow> k_uptime_get E;
     when_do (r = TRACKER_WAKE_VBUS) (modify (\<lambda>w. w\<lparr>battery_sleeps := 0\<rparr>));
     watchdog_phase TRACKER_PHASE_WAKE;
     watchdog_feed E }"
  define v where "v = exec pre w"
  define u where "u = exec (recover_if_silent E) v"
  define rest where "rest = do {
     online \<leftarrow> cycle_network E;
     if \<not> online then do { status_led_set E TRACKER_STATUS_NO_LTE; sleep_until_wake E }
     else cycle_online fuel E t r }"
  have "advances unreported pre" unfolding pre_def by (intro advances_rules; simp add: unreported_def)
  then have v: "unreported w v" unfolding v_def by (rule advancesD)
  have u: "unreported v u" unfolding u_def by (rule advancesD) (rule unreported_cycle_parts)
  have run: "result (cycle fuel E r) w = (if result (recover_if_silent E) v then Rebooted else result rest u)"
    "exec (cycle fuel E r) w = (if result (recover_if_silent E) v then u else exec rest u)"
    using assms(6) by (simp_all add: cycle_def pre_def rest_def v_def u_def t_def Let_def run_simps)
  have "dozes (TRACKER_SLEEP_SECONDS (cfg E) * 1000) rest"
    unfolding rest_def
    by (intro dozes_rules advances_rules sleep_dozes [OF assms(1,2)] cycle_dozes [OF assms(1-5)])
  then have "result rest u = Slept TRACKER_WAKE_TIMER" "last_send_uptime (exec rest u) = last_send_uptime u"
    "elapsed (hist u) + TRACKER_SLEEP_SECONDS (cfg E) * 1000 \<le> elapsed (hist (exec rest u))"
    by (simp_all add: dozes_def)
  then show "result (cycle fuel E r) w = Rebooted \<or>
      result (cycle fuel E r) w = Slept TRACKER_WAKE_TIMER \<and>
      last_send_uptime (exec (cycle fuel E r) w) = last_send_uptime w \<and>
      elapsed (hist w) + TRACKER_SLEEP_SECONDS (cfg E) * 1000 \<le> elapsed (hist (exec (cycle fuel E r) w))"
    using v u unfolding run unreported_def by (simp split: if_split)
  assume late: "last_send_uptime w + int (TRACKER_REBOOT_MINUTES (cfg E)) * 60000 \<le> int (elapsed (hist w))"
  have "int (elapsed (hist v)) \<le> result (k_uptime_get E) v" by (rule uptime_elapsed [OF assms(7)])
  then have "result (recover_if_silent E) v"
    using late v by (simp add: recover_reboots [OF assms(8,9)] silence_ms_def unreported_def)
  then show "result (cycle fuel E r) w = Rebooted" unfolding run by simp
qed

text \<open>Each cycle but the last takes a full sleep, so the number of cycles is bounded.\<close>

lemma cycles_silent:
  assumes "undisturbed (reply E)" "\<not> in_isr E" "\<forall>w. \<not> result (power_vbus_present E) w"
    and "\<And>s w. result (send_payload E s) w \<noteq> 0" "\<not> TRACKER_SKIP_LTE (cfg E)"
    and "clock_sound (reply E)" "0 < TRACKER_MODEM_RECOVERY_MINUTES (cfg E)"
    and "TRACKER_MODEM_RECOVERY_MINUTES (cfg E) \<le> TRACKER_REBOOT_MINUTES (cfg E)"
    and "r \<noteq> TRACKER_WAKE_MOTION"
    and "last_send_uptime w + int (TRACKER_REBOOT_MINUTES (cfg E)) * 60000 \<le>
      int (elapsed (hist w)) + int n * (int (TRACKER_SLEEP_SECONDS (cfg E)) * 1000)"
  shows "result (cycles (Suc n) fuel E r) w = Rebooted"
  using assms(9,10)
proof (induction n arbitrary: r w)
  case 0
  then have "result (cycle fuel E r) w = Rebooted"
    by (intro cycle_silent(2) [OF assms(1-4) _ assms(5-8)]) simp_all
  then show ?case by (simp add: run_simps)
next
  case (Suc n)
  consider "result (cycle fuel E r) w = Rebooted" | "result (cycle fuel E r) w = Slept TRACKER_WAKE_TIMER"
    "last_send_uptime (exec (cycle fuel E r) w) = last_send_uptime w"
    "elapsed (hist w) + TRACKER_SLEEP_SECONDS (cfg E) * 1000 \<le> elapsed (hist (exec (cycle fuel E r) w))"
    using cycle_silent(1) [OF assms(1-4) Suc.prems(1) assms(5-8)] by blast
  then show ?case
  proof cases
    case 2
    have "result (cycles (Suc n) fuel E TRACKER_WAKE_TIMER) (exec (cycle fuel E r) w) = Rebooted"
      using 2(2,3) Suc.prems(2) by (intro Suc.IH) (simp_all add: algebra_simps)
    then show ?thesis using 2(1) by (subst cycles.simps) (simp add: run_simps del: cycles.simps)
  qed (simp add: run_simps)
qed

end

end
