(* ===== verification/Call_Types.thy ===== *)
theory Call_Types
  imports Silence
begin

text \<open>
  Which arguments the SDK calls of the firmware may have, and which of them need an earlier call: a
  channel that was installed, a socket that is open, a cJSON item that is alive.  \<open>typed\<close> says that
  every call so far, of the main thread and of the handlers, was such a call; every function keeps it,
  if the Kconfig options are within the ranges of app/Kconfig.
\<close>

section \<open>Options within their ranges\<close>

text \<open>The \<open>range\<close> lines of app/Kconfig, under the \<open>if\<close> they stand in.\<close>

definition kconfig_ranges :: "config \<Rightarrow> bool" where
  "kconfig_ranges C \<longleftrightarrow>
     (TRACKER_MOTION_WAKE C \<longrightarrow>
        16 \<le> TRACKER_MOTION_THRESHOLD_MG C \<and> TRACKER_MOTION_THRESHOLD_MG C \<le> 2000 \<and>
        TRACKER_MOTION_DURATION_SAMPLES C \<le> 127 \<and> TRACKER_MOTION_HP_CUTOFF C \<le> 3) \<and>
     TRACKER_MOTION_SETTLE_CYCLES C \<le> 20 \<and>
     (TRACKER_GNSS_EXTERNAL C \<longrightarrow> TRACKER_GNSS_EXT_POWER_PIN C \<le> 31) \<and>
     (TRACKER_STATUS_LED C \<longrightarrow>
        TRACKER_STATUS_LED_RED_INDEX C \<le> 2 \<and> TRACKER_STATUS_LED_GREEN_INDEX C \<le> 2 \<and>
        TRACKER_STATUS_LED_BLUE_INDEX C \<le> 2 \<and>
        50 \<le> TRACKER_STATUS_LED_BLINK_MS C \<and> TRACKER_STATUS_LED_BLINK_MS C \<le> 10000 \<and>
        20 \<le> TRACKER_STATUS_LED_FLASH_ON_MS C \<and> TRACKER_STATUS_LED_FLASH_ON_MS C \<le> 10000 \<and>
        100 \<le> TRACKER_STATUS_LED_FLASH_OFF_MS C \<and> TRACKER_STATUS_LED_FLASH_OFF_MS C \<le> 60000 \<and>
        50 \<le> TRACKER_STATUS_LED_FULL_PERCENT C \<and> TRACKER_STATUS_LED_FULL_PERCENT C \<le> 100)"

text \<open>The \<open>BUILD_ASSERT\<close> of hologram.c; its \<open>sizeof\<close> counts the NUL.\<close>

definition hologram_key_assert :: "config \<Rightarrow> bool" where
  "hologram_key_assert C \<longleftrightarrow> length (HOLOGRAM_DEVICE_KEY C) + 1 = 9"

definition builds :: "config \<Rightarrow> bool" where
  "builds C \<longleftrightarrow> kconfig_ranges C \<and> (TRACKER_CLOUD_PROVIDER C = HologramCloud \<longrightarrow> hologram_key_assert C)"

lemma kconfig_defaults_builds: "builds kconfig_defaults"
  by (simp add: builds_def kconfig_ranges_def kconfig_defaults_def)

lemmas builds_defs = builds_def kconfig_ranges_def hologram_key_assert_def

section \<open>The domain of each call\<close>

text \<open>
  \<open>wdt_started ch h\<close>: the driver gave out channel \<open>ch\<close>, and the watchdog was started.  \<open>json_live\<close>: the
  item was created, and neither deleted nor handed over to another item.
\<close>

fun wdt_installed :: "int \<Rightarrow> event list \<Rightarrow> bool" where
  "wdt_installed ch [] = False"
| "wdt_installed ch (e # h) =
     ((\<exists>t. ev_call e = Kern (Wdt_install_timeout t)) \<and> rc (ev_resp e) = ch \<or> wdt_installed ch h)"

definition wdt_started :: "int \<Rightarrow> event list \<Rightarrow> bool" where
  "wdt_started ch h \<longleftrightarrow> wdt_installed ch h \<and> wdt_on h"

fun json_live :: "cjson_item \<Rightarrow> event list \<Rightarrow> bool" where
  "json_live i [] = False"
| "json_live i (e # h) = (case ev_call e of
     Net CJSON_CreateObject \<Rightarrow> (if i = Cjson_root then flag (ev_resp e) else json_live i h)
   | Net CJSON_CreateArray \<Rightarrow> (if i = Cjson_topics then flag (ev_resp e) else json_live i h)
   | Net (CJSON_AddItemToObject _) \<Rightarrow> (if i = Cjson_topics \<and> flag (ev_resp e) then False else json_live i h)
   | Net (CJSON_Delete j) \<Rightarrow> (if i = j then False else json_live i h)
   | _ \<Rightarrow> json_live i h)"

definition kern_call_ok :: "event list \<Rightarrow> kern_call \<Rightarrow> bool" where
  "kern_call_ok h k = (case k of
     Wdt_feed ch \<Rightarrow> 0 \<le> ch \<and> wdt_started ch h
   | Atomic_set v x \<Rightarrow> 0 \<le> x \<and> (if v = Pending then x \<le> 3 else x < 2 ^ 32)
   | K_timer_start d p \<Rightarrow> d = 30000 \<and> p = 30000
   | K_work_reschedule t \<Rightarrow> (case t of K_MSEC ms \<Rightarrow> 20 \<le> ms \<and> ms \<le> 60000 | K_FOREVER \<Rightarrow> True)
   | _ \<Rightarrow> True)"

definition attr_ok :: "sensor_attribute \<Rightarrow> int \<Rightarrow> int \<Rightarrow> bool" where
  "attr_ok a v1 v2 = (case a of
     SENSOR_ATTR_CONFIGURATION \<Rightarrow> v1 \<in> {2, 18, 34, 50} \<and> v2 = 0
   | SENSOR_ATTR_SLOPE_TH \<Rightarrow> 0 \<le> v1 \<and> v1 \<le> 19 \<and> 0 \<le> v2 \<and> v2 < 1000000
   | SENSOR_ATTR_SLOPE_DUR \<Rightarrow> 0 \<le> v1 \<and> v1 \<le> 127 \<and> v2 = 0
   | _ \<Rightarrow> True)"

definition board_call_ok :: "config \<Rightarrow> board_call \<Rightarrow> bool" where
  "board_call_ok C b = (case b of
     Gpio_pin_configure p \<Rightarrow> TRACKER_GNSS_EXTERNAL C \<and> p \<le> 31
   | Gpio_pin_set p on \<Rightarrow> TRACKER_GNSS_EXTERNAL C \<and> p \<le> 31
   | Sensor_g_to_ms2 g \<Rightarrow> TRACKER_MOTION_WAKE C \<and> g = 2
   | Sensor_attr_set a v1 v2 \<Rightarrow> TRACKER_MOTION_WAKE C \<and> attr_ok a v1 v2
   | Sensor_trigger_set on \<Rightarrow> TRACKER_MOTION_WAKE C
   | Led_on ch \<Rightarrow> TRACKER_STATUS_LED C \<and> ch \<le> 2
   | Led_off ch \<Rightarrow> TRACKER_STATUS_LED C \<and> ch \<le> 2
   | _ \<Rightarrow> True)"

definition net_call_ok :: "event list \<Rightarrow> net_call \<Rightarrow> bool" where
  "net_call_ok h n = (case n of
     CJSON_AddStringToObject k s \<Rightarrow> json_live Cjson_root h \<and>
       (k = ''k'' \<longrightarrow> length s = 8) \<and> (k = ''d'' \<longrightarrow> length s < 256)
   | CJSON_AddItemToArray \<Rightarrow> json_live Cjson_topics h
   | CJSON_AddItemToObject k \<Rightarrow> json_live Cjson_root h \<and> json_live Cjson_topics h
   | CJSON_PrintPreallocated len \<Rightarrow> json_live Cjson_root h \<and> len = HOLOGRAM_ENVELOPE_MAX - 3
   | CJSON_Delete i \<Rightarrow> json_live i h
   | Connect fd port \<Rightarrow> fd \<in> set (open_fds h)
   | Setsockopt fd opt \<Rightarrow> fd \<in> set (open_fds h)
   | Send fd s \<Rightarrow> fd \<in> set (open_fds h)
   | Recv fd len \<Rightarrow> fd \<in> set (open_fds h) \<and> len = REPLY_MAX - 1
   | Close fd \<Rightarrow> fd \<in> set (open_fds h)
   | Freeaddrinfo \<Rightarrow> 0 < held_addrinfo h
   | _ \<Rightarrow> True)"

definition call_ok :: "config \<Rightarrow> event list \<Rightarrow> call \<Rightarrow> bool" where
  "call_ok C h c = (case c of
     Kern k \<Rightarrow> kern_call_ok h k
   | Board b \<Rightarrow> board_call_ok C b
   | Net n \<Rightarrow> net_call_ok h n
   | Cloud (Coap_json_message_send s) \<Rightarrow> length s < ENVELOPE_MAX
   | _ \<Rightarrow> True)"

lemmas call_ok_defs = call_ok_def kern_call_ok_def attr_ok_def board_call_ok_def net_call_ok_def

fun calls_ok :: "config \<Rightarrow> event list \<Rightarrow> bool" where
  "calls_ok C [] \<longleftrightarrow> True"
| "calls_ok C (e # h) \<longleftrightarrow> calls_ok C h \<and> call_ok C h (ev_call e)"

section \<open>The invariant\<close>

definition typed :: "config \<Rightarrow> 'a tracker_state_scheme \<Rightarrow> bool" where
  "typed C w \<longleftrightarrow> (builds C \<longrightarrow> calls_ok C (hist w) \<and>
     (0 \<le> wdt_channel w \<longrightarrow> wdt_started (wdt_channel w) (hist w)))"

text \<open>While the watchdog is being set up: nothing feeds it yet.\<close>

definition typed_idle :: "config \<Rightarrow> 'a tracker_state_scheme \<Rightarrow> bool" where
  "typed_idle C w \<longleftrightarrow> (builds C \<longrightarrow> calls_ok C (hist w)) \<and> \<not> timer_running (hist w)"

lemma wdt_started_Cons: "wdt_started ch h \<Longrightarrow> wdt_started ch (e # h)"
  by (simp add: wdt_started_def)

text \<open>While an address list, and a socket, are held.\<close>

definition typed_net :: "config \<Rightarrow> int option \<Rightarrow> 'a tracker_state_scheme \<Rightarrow> bool" where
  "typed_net C fd w \<longleftrightarrow> typed C w \<and> (builds C \<longrightarrow> 0 < held_addrinfo (hist w) \<and>
     (\<forall>d. fd = Some d \<longrightarrow> d \<in> set (open_fds (hist w))))"

lemma calls_ok_addrinfo: "calls_ok C h \<Longrightarrow> 0 \<le> held_addrinfo h"
  by (induction h) (auto simp: call_ok_defs split: call.splits net_call.splits)

text \<open>While items of the envelope are alive.\<close>

definition typed_json :: "config \<Rightarrow> bool \<Rightarrow> 'a tracker_state_scheme \<Rightarrow> bool" where
  "typed_json C topics w \<longleftrightarrow> typed C w \<and> json_live Cjson_root (hist w) \<and>
     (topics \<longrightarrow> json_live Cjson_topics (hist w))"

text \<open>A call keeps it if the call is in its domain.\<close>

locale typed_runtime = tracker_runtime E for E :: "('a tracker_state_scheme) env" +
  assumes intr_typed: "typed (cfg E) w \<Longrightarrow> typed (cfg E) (intr E c w)"
    and intr_typed_idle: "typed_idle (cfg E) w \<Longrightarrow> typed_idle (cfg E) (intr E c w)"
    and intr_net: "net_quiet E" "json_live i (hist (intr E c w)) = json_live i (hist w)"
begin

lemma typed_api:
  assumes "typed (cfg E) w" "builds (cfg E) \<Longrightarrow> call_ok (cfg E) (hist (intr E c w)) c"
  shows "typed (cfg E) (exec (api E c) w)"
  using intr_typed [OF assms(1), of c] assms(2) by (simp add: typed_def api_simps wdt_started_Cons)

lemma typed_calls [hoare_rules]:
  assumes "\<And>h. builds (cfg E) \<Longrightarrow> call_ok (cfg E) h c"
  shows "keeps (typed (cfg E)) (api E c)" "keeps (typed (cfg E)) (api_rc E c)"
    "keeps (typed (cfg E)) (api_flag E c)" "keeps (typed (cfg E)) (api_do E c)"
proof -
  have "keeps (typed (cfg E)) (api E c)"
    using assms by (simp add: keeps_def typed_api)
  then show "keeps (typed (cfg E)) (api E c)" "keeps (typed (cfg E)) (api_rc E c)"
    "keeps (typed (cfg E)) (api_flag E c)" "keeps (typed (cfg E)) (api_do E c)"
    by (simp_all add: keeps_api_variants)
qed

text \<open>The watchdog.\<close>

lemma typed_feed [hoare_rules]: "keeps (typed (cfg E)) (watchdog_feed E)"
proof -
  have "typed (cfg E) (exec (watchdog_feed E) w)" if w: "typed (cfg E) w" for w
  proof -
    let ?c = "Kern (Wdt_feed (wdt_channel w))"
    have "typed (cfg E) (exec (api E ?c) w)" if "0 \<le> wdt_channel w"
      using intr_typed [OF w, of ?c] that intr_watchdog(1)
      by (intro typed_api [OF w]) (simp add: typed_def call_ok_defs)
    then show ?thesis using w by (simp add: watchdog_feed_def run_simps)
  qed
  then show ?thesis by (simp add: keeps_def)
qed

lemma typed_fields [simp]:
  "typed C (w\<lparr>phase_current := p\<rparr>) = typed C w" "typed C (w\<lparr>guard_feeds_left := n\<rparr>) = typed C w"
  "typed C (w\<lparr>vbus_connected := b\<rparr>) = typed C w" "typed C (w\<lparr>pending := r\<rparr>) = typed C w"
  by (simp_all add: typed_def)

lemma typed_board [hoare_rules]:
  "keeps (typed (cfg E)) (k_uptime_get E)"
  "keeps (typed (cfg E)) (watchdog_phase p)" "keeps (typed (cfg E)) (watchdog_guard_start E b)"
  "keeps (typed (cfg E)) (watchdog_guard_stop E)" "keeps (typed (cfg E)) (power_vbus_present E)"
  "keeps (typed (cfg E)) (power_read E)" "keeps (typed (cfg E)) (motion_last_event_uptime E)"
  "keeps (typed (cfg E)) (motion_set_armed E arm)" "keeps (typed (cfg E)) (wake_wait E t)"
  unfolding k_uptime_get_def watchdog_phase_def watchdog_guard_start_def
    watchdog_guard_stop_def power_vbus_present_def read_vbus_present_def power_read_def
    motion_last_event_uptime_def motion_set_armed_def atomic_defs wake_wait_def wake_take_def Let_def
  by (intro hoare_rules; simp add: call_ok_defs typed_def WDT_GUARD_PERIOD_S_def)+

lemma typed_led [hoare_rules]:
  "keeps (typed (cfg E)) (status_led_set E st)" "keeps (typed (cfg E)) (status_led_pattern E pat)"
  "keeps (typed (cfg E)) (status_led_sleep E)" "keeps (typed (cfg E)) (status_led_init E)"
  unfolding status_led_set_def status_led_pattern_def status_led_sleep_def status_led_init_def
    stop_blink_def apply_led_def set_channel_def reschedule_blink_def Let_def
  by (intro hoare_rules; auto simp: call_ok_defs typed_def builds_defs phase_delay_def LED_RED_def LED_GREEN_def LED_BLUE_def
      split: tracker_led_pattern.splits)+

text \<open>The modem, the receivers and the assistance.\<close>

lemma typed_modem_time_loop [hoare_rules]: "keeps (typed (cfg E)) (modem_time_loop E waited)"
proof (induction "TRACKER_MODEM_TIME_WAIT_SECONDS (cfg E) - waited" arbitrary: waited rule: less_induct)
  case less
  show ?case
    by (subst modem_time_loop.simps)
       (intro hoare_rules less; simp add: typed_def call_ok_defs MODEM_TIME_POLL_S_def)
qed

lemma typed_receivers [hoare_rules]:
  "keeps (typed (cfg E)) (gnss_start E)" "keeps (typed (cfg E)) (gnss_stop E)" "keeps (typed (cfg E)) (gnss_fallback E)"
  "keeps (typed (cfg E)) (gnss_fallback_available E)" "keeps (typed (cfg E)) (gnss_fix_timeout_seconds E)"
  "keeps (typed (cfg E)) (gnss_agnss_request_wait E t)" "keeps (typed (cfg E)) (gnss_wait_fix E t)"
  "keeps (typed (cfg E)) (gnss_init E)"
  unfolding receiver_defs gnss_init_def gnss_modem_init_def gnss_ext_init_def
  by (intro hoare_rules; simp add: call_ok_defs typed_def builds_defs)+

lemma typed_cloud_nrf [hoare_rules]:
  "keeps (typed (cfg E)) (cloud_nrf_init E)" "keeps (typed (cfg E)) (cloud_nrf_resume E)"
  "keeps (typed (cfg E)) (cloud_nrf_pause E)" "keeps (typed (cfg E)) cloud_nrf_is_ready"
  "keeps (typed (cfg E)) (cloud_nrf_send_telemetry E m)" "keeps (typed (cfg E)) (cloud_nrf_send_location E f)"
  unfolding cloud_nrf_init_def cloud_nrf_resume_def cloud_nrf_connect_def modem_time_wait_def
    cloud_nrf_pause_def cloud_nrf_is_ready_def cloud_nrf_send_telemetry_def cloud_nrf_send_location_def
    credentials_ok_def Let_def
  by (intro hoare_rules; auto simp: call_ok_defs typed_def snprintf_def ENVELOPE_MAX_def)+

section \<open>Sockets\<close>

text \<open>The descriptor stays open, and the address list allocated, while the envelope is exchanged.\<close>

lemma net_fields:
  "open_fds (hist (intr E c w)) = open_fds (hist w)" "held_addrinfo (hist (intr E c w)) = held_addrinfo (hist w)"
  using intr_net(1) by (simp_all add: net_quiet_def)

lemma typed_net_calls [hoare_rules]:
  assumes "\<And>h. builds (cfg E) \<Longrightarrow> \<forall>d. fd = Some d \<longrightarrow> d \<in> set (open_fds h) \<Longrightarrow> call_ok (cfg E) h c"
    and "\<And>e h. ev_call e = c \<Longrightarrow> held_addrinfo (e # h) = held_addrinfo h \<and> open_fds (e # h) = open_fds h"
  shows "keeps (typed_net (cfg E) fd) (api E c)" "keeps (typed_net (cfg E) fd) (api_do E c)"
proof -
  have "typed_net (cfg E) fd (exec (api E c) w)" if w: "typed_net (cfg E) fd w" for w
  proof -
    have "typed (cfg E) (exec (api E c) w)"
      using w by (intro typed_api) (auto simp: typed_net_def net_fields intro!: assms(1))
    then show ?thesis
      using w assms(2) [of "Ev (in_isr E) c (result (api E c) w)" "hist (intr E c w)"]
      by (simp add: typed_net_def hist_api net_fields del: held_addrinfo.simps open_fds.simps)
  qed
  then show "keeps (typed_net (cfg E) fd) (api E c)" "keeps (typed_net (cfg E) fd) (api_do E c)"
    by (simp_all add: keeps_def run_simps)
qed

lemma typed_exchange:
  "keeps (typed_net (cfg E) (Some fd)) (exchange E fd s)"
  unfolding exchange_def by (intro hoare_rules; simp add: call_ok_defs)

text \<open>Taking and releasing them.\<close>

lemma typed_getaddrinfo:
  defines "v \<equiv> \<lambda>n w. exec (api E (Net (Getaddrinfo n))) w"
  assumes "typed (cfg E) w" "rc (result (api E (Net (Getaddrinfo n))) w) = 0" "flag (result (api E (Net (Getaddrinfo n))) w)"
  shows "typed_net (cfg E) None (v n w)"
proof -
  have "0 \<le> held_addrinfo (hist w)" if "builds (cfg E)"
    using assms(2) that by (intro calls_ok_addrinfo [where C = "cfg E"]) (simp add: typed_def)
  then show ?thesis
    using assms(3,4) typed_api [OF assms(2), of "Net (Getaddrinfo n)"]
    by (auto simp: v_def typed_net_def net_quiet_api [OF intr_net(1)] call_ok_defs)
qed

lemma typed_socket:
  assumes "typed_net (cfg E) None w"
  shows "typed_net (cfg E) None (exec (api E (Net Socket)) w)"
    "0 \<le> rc (result (api E (Net Socket)) w) \<Longrightarrow>
      typed_net (cfg E) (Some (rc (result (api E (Net Socket)) w))) (exec (api E (Net Socket)) w)"
  using assms typed_api [of w "Net Socket"]
  by (auto simp: typed_net_def net_quiet_api [OF intr_net(1)] call_ok_defs)

lemma typed_close:
  assumes "typed_net (cfg E) (Some fd) w"
  shows "typed_net (cfg E) None (exec (api_do E (Net (Close fd))) w)"
  using assms typed_api [of w "Net (Close fd)"]
  by (auto simp: typed_net_def run_simps net_quiet_api [OF intr_net(1)] call_ok_defs net_fields)

lemma typed_freeaddrinfo:
  assumes "typed_net (cfg E) None w"
  shows "typed (cfg E) (exec (api_do E (Net Freeaddrinfo)) w)"
  using assms typed_api [of w "Net Freeaddrinfo"]
  by (auto simp: typed_net_def run_simps call_ok_defs net_fields)

lemma typed_socket_send [hoare_rules]: "keeps (typed (cfg E)) (socket_send_envelope E s)"
proof -
  have "typed (cfg E) (exec (socket_send_envelope E s) w)" if w: "typed (cfg E) w" for w
  proof -
    define n where "n = HOLOGRAM_HOST (cfg E)"
    define g where "g = result (api E (Net (Getaddrinfo n))) w"
    define u where "u = exec (api E (Net (Getaddrinfo n))) w"
    define fd where "fd = rc (result (api E (Net Socket)) u)"
    define v where "v = exec (api E (Net Socket)) u"
    define dial where "dial = do {
        c \<leftarrow> api E (Net (Connect fd (HOLOGRAM_PORT (cfg E))));
        if rc c \<noteq> 0 then return (- i64 c) else exchange E fd s }"
    have u: "typed (cfg E) u" using w unfolding u_def by (intro typed_api) (auto simp: call_ok_defs)
    have run: "exec (socket_send_envelope E s) w = (if rc g \<noteq> 0 \<or> \<not> flag g then u
        else exec (api_do E (Net Freeaddrinfo)) (if fd < 0 then v else exec (api_do E (Net (Close fd))) (exec dial v)))"
      by (simp add: socket_send_envelope_def g_def n_def u_def fd_def v_def dial_def run_simps Let_def)
    have dial: "keeps (typed_net (cfg E) (Some fd)) dial"
      unfolding dial_def by (intro hoare_rules typed_exchange; simp add: call_ok_defs)
    show ?thesis
    proof (cases "rc g \<noteq> 0 \<or> \<not> flag g")
      case False
      then have "typed_net (cfg E) None u" using w unfolding g_def u_def by (intro typed_getaddrinfo) simp_all
      then have "typed_net (cfg E) None v" "0 \<le> fd \<Longrightarrow> typed_net (cfg E) (Some fd) v"
        unfolding v_def fd_def by (rule typed_socket)+
      then have "typed_net (cfg E) None (if fd < 0 then v else exec (api_do E (Net (Close fd))) (exec dial v))"
        using typed_close [OF keepsD [OF dial]] by simp
      then show ?thesis using False unfolding run by (simp only: if_False) (rule typed_freeaddrinfo)
    qed (use u run in simp)
  qed
  then show ?thesis by (simp add: keeps_def)
qed

section \<open>The envelope\<close>

lemma typed_json_calls [hoare_rules]:
  assumes "\<And>h. builds (cfg E) \<Longrightarrow> json_live Cjson_root h \<Longrightarrow> topics \<longrightarrow> json_live Cjson_topics h \<Longrightarrow> call_ok (cfg E) h c"
    and "\<And>i e h. ev_call e = c \<Longrightarrow> json_live i (e # h) = json_live i h"
  shows "keeps (typed_json (cfg E) topics) (api E c)" "keeps (typed_json (cfg E) topics) (api_flag E c)"
    "keeps (typed_json (cfg E) topics) (api_do E c)"
proof -
  have "typed_json (cfg E) topics (exec (api E c) w)" if w: "typed_json (cfg E) topics w" for w
  proof -
    have "typed (cfg E) (exec (api E c) w)"
      using w by (intro typed_api) (auto simp: typed_json_def intr_net intro!: assms(1))
    then show ?thesis
      using w assms(2) by (simp add: typed_json_def hist_api intr_net del: json_live.simps)
  qed
  then show "keeps (typed_json (cfg E) topics) (api E c)" "keeps (typed_json (cfg E) topics) (api_flag E c)"
    "keeps (typed_json (cfg E) topics) (api_do E c)"
    by (simp_all add: keeps_def run_simps)
qed

lemma typed_create_root:
  "typed (cfg E) w \<Longrightarrow> flag (result (api E (Net CJSON_CreateObject)) w) \<Longrightarrow>
   typed_json (cfg E) False (exec (api E (Net CJSON_CreateObject)) w)"
  using typed_api [of w "Net CJSON_CreateObject"] by (simp add: typed_json_def hist_api call_ok_defs)

lemma typed_create_topics:
  "typed_json (cfg E) False w \<Longrightarrow>
   typed_json (cfg E) (flag (result (api E (Net CJSON_CreateArray)) w)) (exec (api E (Net CJSON_CreateArray)) w)"
  using typed_api [of w "Net CJSON_CreateArray"] by (simp add: typed_json_def hist_api call_ok_defs intr_net)

lemma typed_attach:
  "typed_json (cfg E) True w \<Longrightarrow> typed_json (cfg E) False (exec (api E (Net (CJSON_AddItemToObject k))) w)"
  using typed_api [of w "Net (CJSON_AddItemToObject k)"]
  by (simp add: typed_json_def hist_api call_ok_defs intr_net)

lemma typed_delete_topics:
  "typed_json (cfg E) t w \<Longrightarrow>
   typed_json (cfg E) False (exec (when_do t (api_do E (Net (CJSON_Delete Cjson_topics)))) w)"
  using typed_api [of w "Net (CJSON_Delete Cjson_topics)"]
  by (simp add: typed_json_def run_simps hist_api call_ok_defs intr_net)

lemma typed_delete_root:
  "typed_json (cfg E) t w \<Longrightarrow> typed (cfg E) (exec (api E (Net (CJSON_Delete Cjson_root))) w)"
  using typed_api [of w "Net (CJSON_Delete Cjson_root)"]
  by (simp add: typed_json_def call_ok_defs intr_net)

lemma typed_build_envelope:
  assumes "length s < 256" "TRACKER_CLOUD_PROVIDER (cfg E) = HologramCloud"
  shows "keeps (typed (cfg E)) (build_envelope E s HOLOGRAM_ENVELOPE_MAX)"
proof -
  have add: "keeps (typed_json (cfg E) t) (add_strings E t s)" for t
    unfolding add_strings_def using assms by (intro hoare_rules; simp add: call_ok_defs builds_defs)
  have no: "\<not> result (add_strings E False s) w" for w
    by (simp add: add_strings_def)
  define fill where "fill = do {
      api_do E (Net (CJSON_CreateString (HOLOGRAM_TOPIC (cfg E))));
      api_do E (Net CJSON_AddItemToArray) }"
  have fill: "keeps (typed_json (cfg E) True) fill"
    unfolding fill_def by (intro hoare_rules; simp add: call_ok_defs)
  have print: "keeps (typed_json (cfg E) False) (api E (Net (CJSON_PrintPreallocated (HOLOGRAM_ENVELOPE_MAX - 3))))"
    by (intro hoare_rules; simp add: call_ok_defs)
  have "typed (cfg E) (exec (build_envelope E s HOLOGRAM_ENVELOPE_MAX) w)" if w: "typed (cfg E) w" for w
  proof -
    define u where "u = exec (api E (Net CJSON_CreateObject)) w"
    define t where "t = flag (result (api E (Net CJSON_CreateArray)) u)"
    define v where "v = exec (add_strings E t s) (exec (api E (Net CJSON_CreateArray)) u)"
    define ok where "ok = result (add_strings E t s) (exec (api E (Net CJSON_CreateArray)) u)"
    have run: "exec (build_envelope E s HOLOGRAM_ENVELOPE_MAX) w =
      (if \<not> flag (result (api E (Net CJSON_CreateObject)) w) then u
       else if \<not> ok then exec (api E (Net (CJSON_Delete Cjson_root)))
         (exec (when_do t (api_do E (Net (CJSON_Delete Cjson_topics)))) v)
       else exec (api E (Net (CJSON_Delete Cjson_root)))
         (exec (api E (Net (CJSON_PrintPreallocated (HOLOGRAM_ENVELOPE_MAX - 3))))
           (exec (api E (Net (CJSON_AddItemToObject ''t''))) (exec fill v))))"
      by (simp add: build_envelope_def u_def t_def v_def ok_def fill_def run_simps Let_def)
    have v: "typed_json (cfg E) t v" if "flag (result (api E (Net CJSON_CreateObject)) w)"
      using typed_create_root [OF w that] keepsD [OF add] typed_create_topics
      unfolding u_def [symmetric] v_def t_def by blast
    have "ok \<Longrightarrow> t" using no unfolding ok_def by (cases t) auto
    then show ?thesis
      using v typed_api [OF w, of "Net CJSON_CreateObject"] unfolding run u_def [symmetric]
      by (auto simp: call_ok_defs intro!: typed_delete_root typed_delete_topics keepsD [OF print] typed_attach keepsD [OF fill])
  qed
  then show ?thesis by (simp add: keeps_def)
qed

lemma typed_hologram:
  assumes "length s < 256" "TRACKER_CLOUD_PROVIDER (cfg E) = HologramCloud"
  shows "keeps (typed (cfg E)) (hologram_send E s)"
  unfolding hologram_send_def by (intro hoare_rules typed_build_envelope assms)

section \<open>The functions of main.c\<close>

lemma typed_cloud [hoare_rules]:
  "length s < 256 \<Longrightarrow> keeps (typed (cfg E)) (cloud_send_telemetry E s)"
  "keeps (typed (cfg E)) (cloud_send_location E f)" "keeps (typed (cfg E)) (cloud_is_ready E)"
  "keeps (typed (cfg E)) (cloud_init E)" "keeps (typed (cfg E)) (cloud_resume E)" "keeps (typed (cfg E)) (cloud_pause E)"
  unfolding cloud_send_telemetry_def cloud_send_location_def cloud_is_ready_def cloud_init_def cloud_resume_def
    cloud_pause_def cloud_hologram_send_telemetry_def cloud_hologram_send_location_def cloud_hologram_is_ready_def
    cloud_hologram_init_def cloud_hologram_resume_def cloud_hologram_pause_def
  by (intro hoare_rules typed_hologram; assumption)+

lemma typed_assist [hoare_rules]:
  "keeps (typed (cfg E)) (agnss_fetch_and_inject E)" "keeps (typed (cfg E)) (agnss_wanted E)"
  unfolding assist_defs gnss_modem_start_def gnss_modem_stop_def
  by (intro hoare_rules; simp add: call_ok_defs typed_def)+

lemma typed_reports [hoare_rules]:
  "keeps (typed (cfg E)) (lte_is_registered E)" "keeps (typed (cfg E)) (lte_ensure_connected E)"
  "keeps (typed (cfg E)) (vbus_or_surge E mc)" "keeps (typed (cfg E)) (status_led_report E b)"
  "keeps (typed (cfg E)) (collect_telemetry E fx t r)" "keeps (typed (cfg E)) (telemetry_build_json E tm n)"
  "keeps (typed (cfg E)) (recover_if_silent E)" "keeps (typed (cfg E)) (settle_fix E f)"
  "keeps (typed (cfg E)) (wait_fix_opt E n')" "keeps (typed (cfg E)) (cycle_network E)"
  unfolding report_defs lte_is_registered_def lte_ensure_connected_def recover_if_silent_def
  by (intro hoare_rules; simp add: call_ok_defs typed_def)+

lemma typed_fix [hoare_rules]:
  "keeps (typed (cfg E)) (cold_start_assist E b)" "keeps (typed (cfg E)) (fallback_fix E a)"
  "keeps (typed (cfg E)) (last_resort_fix E)" "keeps (typed (cfg E)) (acquire_fix E)"
  unfolding cold_start_assist_def fallback_fix_def last_resort_fix_def acquire_fix_def Let_def
  by (intro hoare_rules)+

text \<open>The payload that is sent is the one that was built, and fits its buffer.\<close>

lemma typed_report [hoare_rules]: "keeps (typed (cfg E)) (report_outcome E fx t r)"
proof -
  have short: "length (snd (result (telemetry_build_json E tm 256) w)) < 256" for tm w
    by (simp add: telemetry_build_json_def run_simps snprintf_def Let_def)
  have "keeps (typed (cfg E)) (report_fix E f t r)" for f
    unfolding report_fix_def send_payload_def
    by (rule keeps_bind, rule typed_reports, rule keeps_bind, rule typed_board)
       (rule keeps_bind_result [where P = "\<lambda>p. length (snd p) < 256"], rule typed_reports, rule short,
         intro hoare_rules; simp add: typed_def)
  then show ?thesis unfolding report_outcome_def by (intro hoare_rules)
qed

lemma typed_loop [hoare_rules]: "keeps (typed (cfg E)) (frequent_loop fuel E mc t r)"
proof -
  have "keeps (typed (cfg E)) (frequent_body E t r)"
    unfolding frequent_body_def by (intro hoare_rules; simp add: call_ok_defs typed_def)
  then show ?thesis
    by (induction fuel) (simp_all, (intro hoare_rules; assumption)+)
qed

lemma typed_cycle [hoare_rules]: "keeps (typed (cfg E)) (cycle fuel E r)"
proof -
  have sleep: "keeps (typed (cfg E)) (sleep_until_wake E)"
    unfolding sleep_until_wake_def battery_sleep_def by (intro hoare_rules) (simp add: typed_def)
  have "keeps (typed (cfg E)) (cycle_tracking fuel E t r)" for t
    unfolding cycle_tracking_def first_report_def frequent_reporting_def
    by (intro hoare_rules sleep)
  then have "keeps (typed (cfg E)) (cycle_online fuel E t r)" for t
    unfolding cycle_online_def by (intro hoare_rules sleep)
  then show ?thesis
    unfolding cycle_def Let_def by (intro hoare_rules sleep) (simp_all add: typed_def)
qed

text \<open>Boot: the watchdog is set up before anything feeds it.\<close>

lemma typed_idle_calls [hoare_rules]:
  assumes "\<And>h. builds (cfg E) \<Longrightarrow> call_ok (cfg E) h c" "\<And>d p. c \<noteq> Kern (K_timer_start d p)"
  shows "keeps (typed_idle (cfg E)) (api E c)" "keeps (typed_idle (cfg E)) (api_rc E c)"
    "keeps (typed_idle (cfg E)) (api_flag E c)" "keeps (typed_idle (cfg E)) (api_do E c)"
proof -
  have "typed_idle (cfg E) (exec (api E c) w)" if "typed_idle (cfg E) w" for w
    using intr_typed_idle [OF that, of c] assms
    by (auto simp: typed_idle_def api_simps split: call.splits kern_call.splits)
  then have "keeps (typed_idle (cfg E)) (api E c)" by (simp add: keeps_def)
  then show "keeps (typed_idle (cfg E)) (api E c)" "keeps (typed_idle (cfg E)) (api_rc E c)"
    "keeps (typed_idle (cfg E)) (api_flag E c)" "keeps (typed_idle (cfg E)) (api_do E c)"
    by (simp_all add: keeps_api_variants)
qed

lemma wdt_installed_append: "wdt_installed ch h \<Longrightarrow> wdt_installed ch (es @ h)"
  by (induction es) simp_all

lemma typed_idle_typed: "typed_idle C w \<Longrightarrow> wdt_channel w < 0 \<Longrightarrow> typed C w"
  by (simp add: typed_idle_def typed_def)

lemma typed_watchdog_init:
  assumes "typed_idle (cfg E) w" "wdt_channel w < 0"
  shows "typed (cfg E) (exec (watchdog_init E) w)"
proof -
  let ?install = "Kern (Wdt_install_timeout (WDT_TIMEOUT_MS (cfg E)))"
  define pre where "pre = do { phase_init; api_flag E (Kern (Device_is_ready Dev_wdt)) }"
  define u where "u = exec pre w"
  define v where "v = exec (api E ?install) u"
  define ch where "ch = rc (result (api E ?install) u)"
  define x where "x = exec (api E (Kern Wdt_setup)) (v\<lparr>wdt_channel := ch\<rparr>)"
  define err where "err = rc (result (api E (Kern Wdt_setup)) (v\<lparr>wdt_channel := ch\<rparr>))"
  have "keeps (typed_idle (cfg E)) pre"
    unfolding pre_def phase_init_def by (intro hoare_rules; simp add: call_ok_defs typed_idle_def)
  then have u: "typed_idle (cfg E) u" using assms(1) unfolding u_def by (rule keepsD)
  have "keeps (typed_idle (cfg E)) (api E ?install)" by (intro hoare_rules; simp add: call_ok_defs)
  then have v: "typed_idle (cfg E) v" using u unfolding v_def by (rule keepsD)
  then have set: "typed_idle (cfg E) (v\<lparr>wdt_channel := ch\<rparr>)" by (simp add: typed_idle_def)
  have "keeps (typed_idle (cfg E)) (api E (Kern Wdt_setup))" by (intro hoare_rules; simp add: call_ok_defs)
  then have x: "typed_idle (cfg E) x" using set unfolding x_def by (rule keepsD)
  have chan: "wdt_channel u = wdt_channel w" "wdt_channel x = ch"
    by (simp_all add: u_def pre_def phase_init_def x_def run_simps api_simps intr_watchdog)
  have "wdt_installed ch (hist v)" unfolding v_def ch_def by (simp add: hist_api)
  then have "wdt_started ch (hist x)" if "err = 0"
    using that intr_appends [of "Kern Wdt_setup" "v\<lparr>wdt_channel := ch\<rparr>"]
    by (auto simp: wdt_started_def x_def err_def hist_api wdt_installed_append)
  then have "typed (cfg E) x" if "err = 0"
    using that x chan(2) unfolding typed_def typed_idle_def by simp
  moreover have "typed (cfg E) u" using u chan(1) assms(2) by (intro typed_idle_typed) simp_all
  moreover have "typed (cfg E) (v\<lparr>wdt_channel := ch\<rparr>)" if "ch < 0"
    using v that unfolding typed_def typed_idle_def by simp
  moreover have "typed (cfg E) (x\<lparr>wdt_channel := -1\<rparr>)"
    using x unfolding typed_def typed_idle_def by simp
  moreover have "exec (watchdog_init E) w = (if \<not> result pre w then u
      else if ch < 0 then v\<lparr>wdt_channel := ch\<rparr> else if err \<noteq> 0 then x\<lparr>wdt_channel := -1\<rparr> else x)"
    by (simp add: watchdog_init_def pre_def u_def v_def ch_def x_def err_def run_simps)
  ultimately show ?thesis by simp
qed

lemma motion_attrs_ok:
  assumes "builds C" "TRACKER_MOTION_WAKE C"
  shows "attr_ok SENSOR_ATTR_CONFIGURATION (uint (LIS2DH_CTRL2_VALUE C)) 0"
    "attr_ok SENSOR_ATTR_SLOPE_TH (c_div (threshold_ums2 C) 1000000) (c_rem (threshold_ums2 C) 1000000)"
    "attr_ok SENSOR_ATTR_SLOPE_DUR (int (TRACKER_MOTION_DURATION_SAMPLES C)) 0"
proof -
  consider "TRACKER_MOTION_HP_CUTOFF C = 0" | "TRACKER_MOTION_HP_CUTOFF C = 1"
    | "TRACKER_MOTION_HP_CUTOFF C = 2" | "TRACKER_MOTION_HP_CUTOFF C = 3"
    using assms unfolding builds_defs by linarith
  then show "attr_ok SENSOR_ATTR_CONFIGURATION (uint (LIS2DH_CTRL2_VALUE C)) 0"
    by cases (simp_all add: attr_ok_def LIS2DH_CTRL2_VALUE_def LIS2DH_CTRL2_HPIS2_def BIT_def)
  have t: "0 \<le> threshold_ums2 C" by (simp add: threshold_ums2_def)
  have "int (TRACKER_MOTION_THRESHOLD_MG C) * 980665 < 20000000 * 100"
    using assms by (simp add: builds_defs)
  then have "threshold_ums2 C < 20000000" by (simp add: threshold_ums2_def c_div_less_iff del: c_div_nonneg)
  then have "c_div (threshold_ums2 C) 1000000 < 20" by (simp add: c_div_less_iff del: c_div_nonneg)
  then show "attr_ok SENSOR_ATTR_SLOPE_TH (c_div (threshold_ums2 C) 1000000) (c_rem (threshold_ums2 C) 1000000)"
    using t by (simp add: attr_ok_def pos_imp_zdiv_nonneg_iff)
  show "attr_ok SENSOR_ATTR_SLOPE_DUR (int (TRACKER_MOTION_DURATION_SAMPLES C)) 0"
    using assms by (simp add: attr_ok_def builds_defs)
qed

lemma typed_motion_init [hoare_rules]: "keeps (typed (cfg E)) (motion_init E)"
  unfolding motion_init_def set_attr_def Let_def
  by (intro hoare_rules; simp add: call_ok_def board_call_ok_def kern_call_ok_def typed_def motion_attrs_ok)
     (simp_all add: attr_ok_def)

lemma typed_boot:
  assumes "typed_idle (cfg E) w" "wdt_channel w < 0"
  shows "typed (cfg E) (exec (boot E) w)"
proof -
  have lib: "keeps (typed_idle (cfg E)) (modem_lib_init E)"
    unfolding modem_lib_init_def on_modem_lib_init_def by (intro hoare_rules; simp add: call_ok_defs)
  have "wdt_channel (exec (modem_lib_init E) w) = wdt_channel w"
    by (simp add: modem_lib_init_def on_modem_lib_init_def run_simps api_simps intr_watchdog)
  then have w: "typed (cfg E) (exec (modem_lib_init E) w)" "typed (cfg E) (exec (watchdog_init E) (exec (modem_lib_init E) w))"
    using keepsD [OF lib assms(1)] assms(2) by (intro typed_idle_typed typed_watchdog_init; simp)+
  define rest where "rest = do {
      api_do E (Modem Modem_info_init);
      ignore (power_init E);
      ignore (motion_init E);
      ignore (status_led_init E);
      err2 \<leftarrow> gnss_init E;
      if err2 \<noteq> 0 then return (Some (- EIO)) else boot_network E }"
  have "keeps (typed (cfg E)) rest"
    unfolding rest_def boot_network_def power_init_def read_vbus_present_def
    by (intro hoare_rules; simp add: call_ok_defs typed_def)
  moreover have "exec (boot E) w = (if result (modem_lib_init E) w \<noteq> 0 then exec (modem_lib_init E) w
      else exec rest (exec (watchdog_init E) (exec (modem_lib_init E) w)))"
    by (simp add: boot_def boot_peripherals_def rest_def run_simps)
  ultimately show ?thesis using w by (simp add: keepsD)
qed

lemma typed_main:
  assumes "typed_idle (cfg E) w" "wdt_channel w < 0"
  shows "typed (cfg E) (exec (main n fuel E) w)"
proof -
  have "keeps (typed (cfg E)) (cycles n fuel E r)" for r
    by (rule keeps_cycles) (rule typed_cycle)
  then show ?thesis
    using typed_boot [OF assms] by (auto simp: main_def run_simps keepsD split: option.split)
qed

end

section \<open>The handlers\<close>

lemma isr_net_quiet: "net_quiet (isr_env E)"
  by (simp add: net_quiet_def)

interpretation isr_typed: typed_runtime "isr_env E" for E
  by unfold_locales (simp_all add: isr_net_quiet reflpD [OF reflp_ext_step] reflpD [OF reflp_pvt_step])

lemmas isr_typed_calls = isr_typed.typed_calls [unfolded isr_env_simps]
  isr_typed.typed_idle_calls [unfolded isr_env_simps] isr_typed.typed_feed [unfolded isr_env_simps]

text \<open>The LED's work apart, whose calls are in their domain where it is compiled in.\<close>

definition other_handler :: "('a tracker_state_scheme) env \<Rightarrow> bool \<Rightarrow> interrupt \<Rightarrow> ('a tracker_state_scheme, unit) state" where
  "other_handler E guard i = (case i of
     Int_gnss ev \<Rightarrow> gnss_event_handler E ev
   | Int_gnss_data d \<Rightarrow> gnss_data_handler E d
   | Int_lte evt \<Rightarrow> lte_handler E evt
   | Int_pmic pins \<Rightarrow> event_callback E pins
   | Int_motion \<Rightarrow> motion_handler E
   | Int_guard \<Rightarrow> when_do guard (guard_expiry E)
   | Int_blink \<Rightarrow> skip)"

lemma keeps_typed_handlers:
  "keeps (typed (cfg E)) (other_handler (isr_env E) guard i)"
  "keeps (typed_idle (cfg E)) (other_handler (isr_env E) False i)"
  unfolding other_handler_def gnss_event_handler_def gnss_data_handler_def lte_handler_def
    event_callback_def motion_handler_def guard_expiry_def wake_signal_def k_uptime_get_def
    locked_def atomic_defs Let_def when_do_False
  by (intro hoare_rules isr_typed_calls;
      auto simp: call_ok_defs typed_def typed_idle_def uint_to_u32)+

lemma keeps_typed_blink:
  assumes "TRACKER_STATUS_LED (cfg E)"
  shows "keeps (typed (cfg E)) (blink_work_handler (isr_env E))"
    "keeps (typed_idle (cfg E)) (blink_work_handler (isr_env E))"
  unfolding blink_work_handler_def apply_led_def set_channel_def reschedule_blink_def
  using assms
  by (intro hoare_rules isr_typed_calls;
      auto simp: call_ok_defs typed_def typed_idle_def builds_defs phase_delay_def LED_RED_def LED_GREEN_def
        split: tracker_led_pattern.splits)+

lemma handler_cases:
  assumes "can_fire (cfg E) w i"
  shows "handler (isr_env E) i = (if i = Int_blink then blink_work_handler (isr_env E)
      else other_handler (isr_env E) (timer_running (hist w)) i)"
    "i = Int_blink \<Longrightarrow> TRACKER_STATUS_LED (cfg E)"
  using assms by (cases i; simp add: handler_def other_handler_def can_fire_def)+

lemma typed_deliver:
  "typed (cfg E) w \<Longrightarrow> typed (cfg E) (deliver E i w)"
  "typed_idle (cfg E) w \<Longrightarrow> typed_idle (cfg E) (deliver E i w)"
proof -
  note handlers = keeps_typed_handlers [THEN keepsD] keeps_typed_blink [THEN keepsD]
  have "timer_running (hist w) = False" if "typed_idle (cfg E) w"
    using that by (simp add: typed_idle_def)
  then show "typed (cfg E) w \<Longrightarrow> typed (cfg E) (deliver E i w)"
    "typed_idle (cfg E) w \<Longrightarrow> typed_idle (cfg E) (deliver E i w)"
    unfolding deliver_def by (auto simp: handler_cases intro!: handlers)
qed

lemma typed_deliver_all:
  "typed (cfg E) w \<Longrightarrow> typed (cfg E) (fold (deliver E) is w)"
  "typed_idle (cfg E) w \<Longrightarrow> typed_idle (cfg E) (fold (deliver E) is w)"
  by (induction "is" arbitrary: w) (simp_all add: typed_deliver)

lemma json_others:
  "\<forall>e \<in> set es. handler_call (ev_call e) \<Longrightarrow> json_live i (es @ h) = json_live i h"
  by (induction es) (auto dest: handler_call_net split: call.splits)

interpretation typed: typed_runtime "tracker_env C S R when_int" for C S R when_int
proof
  fix c i and w :: "'a tracker_state_scheme"
  let ?E = "tracker_env C S R when_int :: ('a tracker_state_scheme) env"
  show "typed (cfg ?E) w \<Longrightarrow> typed (cfg ?E) (intr ?E c w)"
    "typed_idle (cfg ?E) w \<Longrightarrow> typed_idle (cfg ?E) (intr ?E c w)"
    using typed_deliver_all [of "isr_base C S R"] by simp_all
  show "net_quiet ?E" by (rule tracker_net_quiet)
  have "handler_step C S w (intr ?E c w)" by (rule tracker_intr)
  then obtain es where "hist (intr ?E c w) = es @ hist w" "\<forall>e \<in> set es. ev_isr e \<and> handler_call (ev_call e)"
    unfolding handler_step_def handler_events_def by blast
  then show "json_live i (hist (intr ?E c w)) = json_live i (hist w)"
    by (simp add: json_others del: tracker_env_simps(5))
qed

end
