(* ===== verification/Recovery.thy ===== *)
theory Recovery
  imports Call_Types
begin

text \<open>
  Recovery from silence: the check at the head of each cycle, as a decision and what it makes of it,
  and what follows for whole runs: between two restarts of the modem the cloud accepted a report.
\<close>

section \<open>Accepted reports and restarts\<close>

text \<open>The answer by which the cloud accepts a report.\<close>

definition accepts :: "config \<Rightarrow> event \<Rightarrow> bool" where
  "accepts C e = (case TRACKER_CLOUD_PROVIDER C of
     NrfCloud \<Rightarrow> (\<exists>s. ev_call e = Cloud (Coap_json_message_send s)) \<and> rc (ev_resp e) = 0
   | HologramCloud \<Rightarrow> acked e)"

abbreviation offline_call :: call where
  "offline_call \<equiv> Modem (Lte_lc_func_mode_set LTE_LC_FUNC_MODE_OFFLINE)"

text \<open>\<open>restarted h\<close>: the modem was restarted after the last accepted report.\<close>

fun restarted :: "config \<Rightarrow> event list \<Rightarrow> bool" where
  "restarted C [] = False"
| "restarted C (e # h) =
     (if accepts C e then False else if ev_call e = offline_call then True else restarted C h)"

fun restarts_separated :: "config \<Rightarrow> event list \<Rightarrow> bool" where
  "restarts_separated C [] = True"
| "restarts_separated C (e # h) \<longleftrightarrow> restarts_separated C h \<and> (ev_call e = offline_call \<longrightarrow> \<not> restarted C h)"

lemma restarted_accepted:
  "\<exists>e \<in> set es. accepts C e \<Longrightarrow> \<forall>e \<in> set es. ev_call e \<noteq> offline_call \<Longrightarrow> \<not> restarted C (es @ h)"
  by (induction es) auto

lemma handler_not_accepts: "handler_call (ev_call e) \<Longrightarrow> \<not> accepts C e"
  by (auto simp: accepts_def acked_def handler_call_def split: cloud_provider.splits)

lemma restarts_others:
  assumes "\<forall>e \<in> set es. handler_call (ev_call e)"
  shows "restarted C (es @ h) = restarted C h" "restarts_separated C (es @ h) = restarts_separated C h"
  using assms by (induction es) (auto simp: handler_not_accepts handler_call_def)

definition no_restart :: "'a platform_scheme \<Rightarrow> 'a platform_scheme \<Rightarrow> bool" where
  "no_restart w w' \<longleftrightarrow> (\<exists>es. hist w' = es @ hist w \<and> (\<forall>e \<in> set es. ev_call e \<noteq> offline_call))"

lemma no_restart_order [simp]:
  "reflp no_restart" "transp (no_restart :: 'a platform_scheme \<Rightarrow> 'a platform_scheme \<Rightarrow> bool)"
proof -
  show "reflp no_restart" by (rule reflpI) (simp add: no_restart_def)
  show "transp (no_restart :: 'a platform_scheme \<Rightarrow> 'a platform_scheme \<Rightarrow> bool)"
  proof (rule transpI)
    fix u v w :: "'a platform_scheme"
    assume "no_restart u v" "no_restart v w"
    then obtain es fs where "hist v = es @ hist u" "\<forall>e \<in> set es. ev_call e \<noteq> offline_call"
      "hist w = fs @ hist v" "\<forall>e \<in> set fs. ev_call e \<noteq> offline_call"
      unfolding no_restart_def by blast
    then show "no_restart u w" unfolding no_restart_def by (intro exI [of _ "fs @ es"]) auto
  qed
qed

section \<open>The invariant\<close>

text \<open>
  A restart without a report since is remembered, and the silence still lasts, so that the mark is not
  cleared.
\<close>

definition restarts_ok :: "config \<Rightarrow> 'a tracker_state_scheme \<Rightarrow> bool" where
  "restarts_ok C w \<longleftrightarrow> restarts_separated C (hist w) \<and> last_send_uptime w \<le> int (elapsed (hist w)) \<and> (restarted C (hist w) \<longrightarrow> modem_bounced w \<and>
     last_send_uptime w + int (TRACKER_MODEM_RECOVERY_MINUTES C) * 60000 \<le> int (elapsed (hist w)))"

text \<open>The main thread, whose handlers make calls of their own kind only.\<close>

locale main_runtime = tracker_runtime E for E :: "('a tracker_state_scheme) env" +
  assumes main_thread: "\<not> in_isr E"
    and intr_handler_calls: "\<exists>es. hist (intr E c w) = es @ hist w \<and> (\<forall>e \<in> set es. ev_isr e \<and> handler_call (ev_call e))"
begin

lemma intr_restarts:
  "restarted C (hist (intr E c w)) = restarted C (hist w)"
  "restarts_separated C (hist (intr E c w)) = restarts_separated C (hist w)"
  using intr_handler_calls [of c w] by (auto simp: restarts_others)

lemma restarts_api:
  assumes "restarts_ok C w" "c = offline_call \<longrightarrow> \<not> restarted C (hist w) \<and> modem_bounced w \<and>
    last_send_uptime w + int (TRACKER_MODEM_RECOVERY_MINUTES C) * 60000 \<le> int (elapsed (hist w))"
  shows "restarts_ok C (exec (api E c) w)"
proof -
  have "elapsed (hist w) \<le> elapsed (hist (exec (api E c) w))" using elapsed_api [of w c] by simp
  then have later: "last_send_uptime w + x \<le> int (elapsed (hist w)) \<Longrightarrow>
      last_send_uptime w + x \<le> int (elapsed (hist (exec (api E c) w)))" for x by simp
  have "last_send_uptime (exec (api E c) w) = last_send_uptime w"
    "modem_bounced (exec (api E c) w) = modem_bounced w"
    by (simp_all add: api_simps intr_tracker)
  moreover have "restarts_separated C (hist (exec (api E c) w))" "restarted C (hist (exec (api E c) w)) \<Longrightarrow>
      restarted C (hist w) \<or> c = offline_call"
    using assms by (auto simp: restarts_ok_def hist_api intr_restarts split: if_splits)
  ultimately show ?thesis using assms later later [of 0] unfolding restarts_ok_def by auto
qed

lemma restarts_calls [hoare_rules]:
  assumes "c \<noteq> offline_call"
  shows "keeps (restarts_ok C) (api E c)" "keeps (restarts_ok C) (api_rc E c)"
    "keeps (restarts_ok C) (api_flag E c)" "keeps (restarts_ok C) (api_do E c)"
proof -
  have "keeps (restarts_ok C) (api E c)" using assms by (simp add: keeps_def restarts_api)
  then show "keeps (restarts_ok C) (api E c)" "keeps (restarts_ok C) (api_rc E c)"
    "keeps (restarts_ok C) (api_flag E c)" "keeps (restarts_ok C) (api_do E c)"
    by (simp_all add: keeps_api_variants)
qed

lemma restarts_field [simp]:
  "restarts_ok C (w\<lparr>phase_current := p\<rparr>) = restarts_ok C w"
  "restarts_ok C (w\<lparr>guard_feeds_left := n\<rparr>) = restarts_ok C w"
  by (simp_all add: restarts_ok_def)

lemma restarts_board [hoare_rules]:
  "keeps (restarts_ok C) (k_uptime_get E)" "keeps (restarts_ok C) (watchdog_feed E)"
  "keeps (restarts_ok C) (watchdog_phase p)" "keeps (restarts_ok C) (watchdog_guard_start E b)"
  "keeps (restarts_ok C) (watchdog_guard_stop E)" "keeps (restarts_ok C) (power_vbus_present E)"
  "keeps (restarts_ok C) (power_read E)" "keeps (restarts_ok C) (motion_last_event_uptime E)"
  "keeps (restarts_ok C) (motion_set_armed E arm)"
  "keeps (restarts_ok C) (status_led_set E st)" "keeps (restarts_ok C) (status_led_pattern E pat)"
  "keeps (restarts_ok C) (status_led_sleep E)" "keeps (restarts_ok C) (lte_is_registered E)"
  "keeps (restarts_ok C) (lte_ensure_connected E)" "keeps (restarts_ok C) (wake_wait E t)"
  unfolding board_defs watchdog_feed_def motion_set_armed_def
  by (intro hoare_rules; simp add: restarts_ok_def)+

lemma restarts_modem_time_loop [hoare_rules]: "keeps (restarts_ok C) (modem_time_loop E waited)"
proof (induction "TRACKER_MODEM_TIME_WAIT_SECONDS (cfg E) - waited" arbitrary: waited rule: less_induct)
  case less
  show ?case
    by (subst modem_time_loop.simps)
       (intro hoare_rules less; simp add: restarts_ok_def MODEM_TIME_POLL_S_def)
qed

lemma restarts_cloud [hoare_rules]:
  "keeps (restarts_ok C) (cloud_send_telemetry E m)" "keeps (restarts_ok C) (cloud_send_location E f)"
  "keeps (restarts_ok C) (cloud_is_ready E)" "keeps (restarts_ok C) (cloud_resume E)"
  "keeps (restarts_ok C) (cloud_pause E)" "keeps (restarts_ok C) (cloud_init E)"
  unfolding send_defs link_defs cloud_init_defs
  by (intro hoare_rules; simp add: restarts_ok_def)+

lemma restarts_receivers [hoare_rules]:
  "keeps (restarts_ok C) (gnss_start E)" "keeps (restarts_ok C) (gnss_stop E)" "keeps (restarts_ok C) (gnss_fallback E)"
  "keeps (restarts_ok C) (gnss_fallback_available E)" "keeps (restarts_ok C) (gnss_fix_timeout_seconds E)"
  "keeps (restarts_ok C) (gnss_agnss_request_wait E t)" "keeps (restarts_ok C) (gnss_wait_fix E t)"
  "keeps (restarts_ok C) (agnss_fetch_and_inject E)" "keeps (restarts_ok C) (agnss_wanted E)"
  unfolding receiver_defs assist_defs
  by (intro hoare_rules; simp add: restarts_ok_def)+

lemma restarts_reports [hoare_rules]:
  "keeps (restarts_ok C) (vbus_or_surge E mc)" "keeps (restarts_ok C) (status_led_report E b)"
  "keeps (restarts_ok C) (collect_telemetry E fx t r)" "keeps (restarts_ok C) (telemetry_build_json E tm n)"
  "keeps (restarts_ok C) (settle_fix E f)" "keeps (restarts_ok C) (wait_fix_opt E n')"
  "keeps (restarts_ok C) (cycle_network E)" "keeps (restarts_ok C) (send_payload E s)"
  unfolding report_defs send_payload_def
  by (intro hoare_rules; simp add: restarts_ok_def)+

lemma restarts_fix [hoare_rules]:
  "keeps (restarts_ok C) (cold_start_assist E b)" "keeps (restarts_ok C) (fallback_fix E a)"
  "keeps (restarts_ok C) (last_resort_fix E)" "keeps (restarts_ok C) (acquire_fix E)"
  unfolding cold_start_assist_def fallback_fix_def last_resort_fix_def acquire_fix_def Let_def
  by (intro hoare_rules)+

lemma restarts_boot: "keeps (restarts_ok C) (boot E)"
proof -
  have "keeps (restarts_ok C) (modem_lib_init E)" "keeps (restarts_ok C) (boot_peripherals E)"
    "keeps (restarts_ok C) (gnss_init E)" "keeps (restarts_ok C) (boot_network E)"
    unfolding boot_defs
    by (intro hoare_rules; simp add: restarts_ok_def)+
  then show ?thesis unfolding boot_def by (intro hoare_rules)
qed

text \<open>A report that counts as sent was accepted, and nothing restarted the modem since.\<close>

lemma no_restart_calls [advances_rules]:
  assumes "c \<noteq> offline_call"
  shows "advances no_restart (api E c)" "advances no_restart (api_flag E c)" "advances no_restart (api_do E c)"
proof -
  have "no_restart w (exec (api E c) w)" for w
  proof -
    obtain es where es: "hist (intr E c w) = es @ hist w" "\<forall>e \<in> set es. ev_isr e \<and> handler_call (ev_call e)"
      using intr_handler_calls by blast
    then show ?thesis
      using assms unfolding no_restart_def
      by (intro exI [of _ "Ev (in_isr E) c (result (api E c) w) # es"]) (auto simp: hist_api handler_call_def)
  qed
  then show "advances no_restart (api E c)" "advances no_restart (api_flag E c)" "advances no_restart (api_do E c)"
    by (simp_all add: advances_def run_simps)
qed

lemma sent_not_restarted:
  assumes "errno_sound (reply E)" "\<not> TRACKER_OFFLINE_DEBUG (cfg E)" "result (cloud_send_telemetry E s) w = 0"
  shows "\<not> restarted (cfg E) (hist (exec (cloud_send_telemetry E s) w))"
proof (cases "TRACKER_CLOUD_PROVIDER (cfg E)")
  case NrfCloud
  then show ?thesis
    using assms(2,3)
    by (auto simp: cloud_send_telemetry_def cloud_nrf_send_telemetry_def run_simps Let_def hist_api accepts_def
        normalize_def EIO_def ENOMEM_def snprintf_def split: if_splits)
next
  case HologramCloud
  let ?w = "exec (hologram_send E s) w"
  have "result (hologram_send E s) w = 0"
    using HologramCloud assms(3) by (simp add: cloud_send_telemetry_def cloud_hologram_send_telemetry_def)
  then obtain es where es: "hist ?w = es @ hist w" "\<exists>e \<in> set es. acked e"
    using hologram_send_acked [OF assms(1,2)] unfolding acked_between_def by blast
  have "advances no_restart (hologram_send E s)"
    unfolding hologram_send_def build_envelope_def add_strings_def socket_send_envelope_def exchange_def Let_def
    by (intro advances_rules; simp)
  then have "\<forall>e \<in> set es. ev_call e \<noteq> offline_call"
    using es(1) advancesD [of no_restart _ w] by (fastforce simp: no_restart_def)
  then have "\<not> restarted (cfg E) (hist ?w)"
    using es HologramCloud by (simp add: restarted_accepted accepts_def)
  then show ?thesis
    using HologramCloud by (simp add: cloud_send_telemetry_def cloud_hologram_send_telemetry_def)
qed

lemma payload_not_restarted:
  assumes "errno_sound (reply E)" "\<not> TRACKER_OFFLINE_DEBUG (cfg E)" "result (send_payload E s) w = 0"
  shows "\<not> restarted (cfg E) (hist (exec (send_payload E s) w))"
  using assms(3) sent_not_restarted [OF assms(1,2)]
  by (auto simp: send_payload_def run_simps link_stale_def EACCES_def ENOTCONN_def split: if_splits)

text \<open>The end of a report: the mark of the last one is set once a report was accepted.\<close>

lemma restarts_record:
  assumes "clock_sound (reply E)" "\<not> restarted C (hist w)" "restarts_ok C w"
  shows "restarts_ok C (exec (do { now \<leftarrow> k_uptime_get E; modify (\<lambda>w. w\<lparr>last_send_uptime := now\<rparr>) }) w)"
  using assms(2,3) uptime_elapsed_after [OF assms(1) main_thread, of w] keepsD [OF restarts_board(1) assms(3)]
  by (simp add: k_uptime_get_def run_simps restarts_ok_def hist_api intr_restarts)

lemma restarts_report [hoare_rules]:
  assumes "clock_sound (reply E)" "errno_sound (reply E)" "\<not> TRACKER_OFFLINE_DEBUG (cfg E)"
  shows "keeps (restarts_ok (cfg E)) (report_outcome E fx t r)"
proof -
  have send: "keeps (restarts_ok (cfg E)) (do {
       err \<leftarrow> send_payload E s;
       when_do (err = 0) (do { now \<leftarrow> k_uptime_get E; modify (\<lambda>w. w\<lparr>last_send_uptime := now\<rparr>) });
       f err })" if "\<And>err. keeps (restarts_ok (cfg E)) (f err)" for s and f :: "int \<Rightarrow> ('a tracker_state_scheme, int) state"
  proof -
    have "restarts_ok (cfg E) (exec (when_do (result (send_payload E s) w = 0)
        (do { now \<leftarrow> k_uptime_get E; modify (\<lambda>w. w\<lparr>last_send_uptime := now\<rparr>) })) (exec (send_payload E s) w))"
      if "restarts_ok (cfg E) w" for w
      using restarts_record [OF assms(1) payload_not_restarted [OF assms(2,3)]] keepsD [OF restarts_reports(8) that]
      by (simp add: exec_when_do)
    then show ?thesis using that by (simp add: keeps_def exec_bind)
  qed
  have "keeps (restarts_ok (cfg E)) (report_fix E f t r)" for f
    unfolding report_fix_def by (intro hoare_rules send)
  then show ?thesis unfolding report_outcome_def by (intro hoare_rules)
qed

section \<open>The check\<close>

lemma restarts_recover [hoare_rules]:
  assumes "clock_sound (reply E)"
  shows "keeps (restarts_ok (cfg E)) (recover_if_silent E)"
proof -
  let ?C = "cfg E"
  let ?m = "int (TRACKER_MODEM_RECOVERY_MINUTES ?C)"
  have "restarts_ok ?C (exec (recover_if_silent E) w)" if w: "restarts_ok ?C w" for w
  proof -
    define now where "now = result (k_uptime_get E) w"
    define quiet where "quiet = c_div (now - last_send_uptime w) 60000"
    define u where "u = exec (k_uptime_get E) w"
    have u: "restarts_ok ?C u" using w unfolding u_def by (intro keepsD [OF restarts_board(1)])
    have same: "last_send_uptime u = last_send_uptime w" "modem_bounced u = modem_bounced w"
      by (simp_all add: u_def k_uptime_get_def run_simps api_simps intr_tracker)
    have now: "int (elapsed (hist w)) \<le> now" "now \<le> int (elapsed (hist u))"
      unfolding now_def u_def using uptime_elapsed [OF assms] uptime_elapsed_after [OF assms main_thread] by simp_all
    have old: "restarted ?C (hist u) \<Longrightarrow> restarted ?C (hist w)"
      by (simp add: u_def k_uptime_get_def run_simps hist_api intr_restarts split: if_splits)
    define script where "script = do {
      api_do E offline_call;
      api_do E (Kern (K_sleep 1000));
      api_do E (Modem (Lte_lc_func_mode_set LTE_LC_FUNC_MODE_NORMAL)) }"
    have run: "exec (recover_if_silent E) w =
      (if quiet < ?m then u\<lparr>modem_bounced := False\<rparr>
       else if quiet \<ge> int (TRACKER_REBOOT_MINUTES ?C) then
         exec (do { watchdog_phase TRACKER_PHASE_NO_NETWORK; api_do E (Kern (K_sleep 200)); api_do E (Kern Sys_reboot) }) u
       else if modem_bounced u then u else exec script (u\<lparr>modem_bounced := True\<rparr>))"
      by (simp add: recover_if_silent_def script_def now_def [symmetric] quiet_def u_def run_simps Let_def same [unfolded u_def])
    have "\<not> restarted ?C (hist u)" if "quiet < ?m"
    proof
      assume "restarted ?C (hist u)"
      then have "?m * 60000 \<le> now - last_send_uptime w"
        using old w now(1) by (simp add: restarts_ok_def)
      moreover have "0 \<le> ?m * 60000" by simp
      ultimately have "?m \<le> quiet" unfolding quiet_def by (simp add: zdiv_mono1 [of "?m * 60000", simplified])
      then show False using that by simp
    qed
    then have "restarts_ok ?C (u\<lparr>modem_bounced := False\<rparr>)" if "quiet < ?m"
      using u that by (simp add: restarts_ok_def)
    moreover have "restarts_ok ?C (exec script (u\<lparr>modem_bounced := True\<rparr>))" if m: "?m \<le> quiet" "\<not> modem_bounced u"
    proof -
      have nonneg: "0 \<le> now - last_send_uptime w" using w now(1) by (simp add: restarts_ok_def)
      then have "?m * 60000 \<le> now - last_send_uptime w"
        using m(1) int_div_less_iff [of 60000 "now - last_send_uptime w" ?m] unfolding quiet_def by simp
      then have "restarts_ok ?C (exec (api E offline_call) (u\<lparr>modem_bounced := True\<rparr>))"
        using u m(2) now(2) same by (intro restarts_api) (auto simp: restarts_ok_def)
      moreover have "keeps (restarts_ok ?C) (do {
          api_do E (Kern (K_sleep 1000));
          api_do E (Modem (Lte_lc_func_mode_set LTE_LC_FUNC_MODE_NORMAL)) })"
        by (intro hoare_rules; simp)
      ultimately show ?thesis by (simp add: script_def run_simps keeps_def)
    qed
    moreover have "keeps (restarts_ok ?C) (do {
        watchdog_phase TRACKER_PHASE_NO_NETWORK; api_do E (Kern (K_sleep 200)); api_do E (Kern Sys_reboot) })"
      by (intro hoare_rules; simp)
    ultimately show ?thesis using u unfolding run by (simp add: keepsD)
  qed
  then show ?thesis by (simp add: keeps_def)
qed

section \<open>Whole runs\<close>

lemma restarts_loop [hoare_rules]:
  assumes "clock_sound (reply E)" "errno_sound (reply E)" "\<not> TRACKER_OFFLINE_DEBUG (cfg E)"
  shows "keeps (restarts_ok (cfg E)) (frequent_loop fuel E mc t r)"
proof -
  have "keeps (restarts_ok (cfg E)) (frequent_body E t r)"
    unfolding frequent_body_def by (intro hoare_rules assms; simp add: restarts_ok_def)
  then show ?thesis
    by (induction fuel) (simp_all, (intro hoare_rules; assumption)+)
qed

lemma restarts_cycle:
  assumes "clock_sound (reply E)" "errno_sound (reply E)" "\<not> TRACKER_OFFLINE_DEBUG (cfg E)"
  shows "keeps (restarts_ok (cfg E)) (cycle fuel E r)"
proof -
  have sleep: "keeps (restarts_ok (cfg E)) (sleep_until_wake E)"
    unfolding sleep_until_wake_def battery_sleep_def by (intro hoare_rules) (simp add: restarts_ok_def)
  have "keeps (restarts_ok (cfg E)) (cycle_tracking fuel E t r)" for t
    unfolding cycle_tracking_def first_report_def frequent_reporting_def
    by (intro hoare_rules sleep assms)
  then have "keeps (restarts_ok (cfg E)) (cycle_online fuel E t r)" for t
    unfolding cycle_online_def by (intro hoare_rules sleep assms)
  then show ?thesis
    unfolding cycle_def Let_def by (intro hoare_rules sleep assms) (simp_all add: restarts_ok_def)
qed

lemma restarts_main:
  assumes "clock_sound (reply E)" "errno_sound (reply E)" "\<not> TRACKER_OFFLINE_DEBUG (cfg E)"
  shows "keeps (restarts_ok (cfg E)) (main n fuel E)"
proof -
  have "keeps (restarts_ok (cfg E)) (cycles n fuel E r)" for r
    by (rule keeps_cycles) (rule restarts_cycle [OF assms])
  then show ?thesis unfolding main_def by (intro hoare_rules restarts_boot)
qed

end

interpretation main: main_runtime "tracker_env C S R when_int" for C S R when_int
proof
  fix c and w :: "'a tracker_state_scheme"
  let ?E = "tracker_env C S R when_int :: ('a tracker_state_scheme) env"
  show "\<not> in_isr ?E" by simp
  have "handler_step C S w (intr ?E c w)" by (rule tracker_intr)
  then show "\<exists>es. hist (intr ?E c w) = es @ hist w \<and> (\<forall>e \<in> set es. ev_isr e \<and> handler_call (ev_call e))"
    unfolding handler_step_def handler_events_def by blast
qed

section \<open>The decision\<close>

text \<open>
  What the check decides, from the time since the last report in ms and the restart mark, and the calls
  by which each decision is carried out.
\<close>

datatype recovery = Carry_on | Restart_modem | Reboot_device

definition decide :: "config \<Rightarrow> int \<Rightarrow> bool \<Rightarrow> recovery" where
  "decide C silence bounced =
    (if silence < int (TRACKER_MODEM_RECOVERY_MINUTES C) * 60000 then Carry_on
     else if int (TRACKER_REBOOT_MINUTES C) * 60000 \<le> silence then Reboot_device
     else if bounced then Carry_on else Restart_modem)"

definition next_mark :: "config \<Rightarrow> int \<Rightarrow> bool \<Rightarrow> bool" where
  "next_mark C silence bounced =
    (int (TRACKER_MODEM_RECOVERY_MINUTES C) * 60000 \<le> silence \<and>
     (bounced \<or> decide C silence bounced = Restart_modem))"

fun recovery_calls :: "recovery \<Rightarrow> call list" where
  "recovery_calls Carry_on = []"
| "recovery_calls Restart_modem = [offline_call, Kern (K_sleep 1000),
     Modem (Lte_lc_func_mode_set LTE_LC_FUNC_MODE_NORMAL)]"
| "recovery_calls Reboot_device = [Kern (K_sleep 200), Kern Sys_reboot]"

text \<open>The calls of the main thread, newest first.\<close>

fun own_calls :: "event list \<Rightarrow> call list" where
  "own_calls [] = []"
| "own_calls (e # h) = (if ev_isr e then own_calls h else ev_call e # own_calls h)"

lemma own_calls_isr: "\<forall>e \<in> set es. ev_isr e \<Longrightarrow> own_calls (es @ h) = own_calls h"
  by (induction es) simp_all

context main_runtime begin

lemma own_calls_api: "own_calls (hist (exec (api E c) w)) = c # own_calls (hist w)"
proof -
  obtain es where "hist (intr E c w) = es @ hist w" "\<forall>e \<in> set es. ev_isr e"
    using intr_appends by blast
  then show ?thesis using main_thread by (simp add: hist_api own_calls_isr)
qed

lemma fields:
  "modem_bounced (exec (api E c) w) = modem_bounced w" "phase_current (exec (api E c) w) = phase_current w"
  "last_send_uptime (exec (api E c) w) = last_send_uptime w"
  by (simp_all add: api_simps intr_tracker intr_watchdog)

text \<open>The check carries out the decision.\<close>

lemma recover_decides:
  defines "d \<equiv> \<lambda>w. decide (cfg E) (silence_ms E w) (modem_bounced w)"
  assumes "0 \<le> silence_ms E w"
  shows "result (recover_if_silent E) w \<longleftrightarrow> d w = Reboot_device"
    and "modem_bounced (exec (recover_if_silent E) w) = next_mark (cfg E) (silence_ms E w) (modem_bounced w)"
    and "own_calls (hist (exec (recover_if_silent E) w)) =
      rev (recovery_calls (d w)) @ Kern K_uptime_get # own_calls (hist w)"
    and "phase_current (exec (recover_if_silent E) w) =
      (if d w = Reboot_device then phase_val TRACKER_PHASE_NO_NETWORK else phase_current w)"
proof -
  define now where "now = result (k_uptime_get E) w"
  define u where "u = exec (k_uptime_get E) w"
  define m where "m = int (TRACKER_MODEM_RECOVERY_MINUTES (cfg E))"
  define b where "b = int (TRACKER_REBOOT_MINUTES (cfg E))"
  have same: "last_send_uptime u = last_send_uptime w" "modem_bounced u = modem_bounced w"
    "phase_current u = phase_current w" "own_calls (hist u) = Kern K_uptime_get # own_calls (hist w)"
    by (simp_all add: u_def k_uptime_get_def run_simps fields own_calls_api)
  have less: "c_div (now - last_send_uptime w) 60000 < n \<longleftrightarrow> silence_ms E w < n * 60000" for n
    using assms(2) by (simp add: int_div_less_iff silence_ms_def now_def)
  then have le: "n \<le> c_div (now - last_send_uptime w) 60000 \<longleftrightarrow> n * 60000 \<le> silence_ms E w" for n
    by (simp only: not_less [symmetric])
  define reboot where "reboot = do {
    watchdog_phase TRACKER_PHASE_NO_NETWORK; api_do E (Kern (K_sleep 200)); api_do E (Kern Sys_reboot) }"
  define restart where "restart = do {
    modify (\<lambda>w. w\<lparr>modem_bounced := True\<rparr>); api_do E offline_call; api_do E (Kern (K_sleep 1000));
    api_do E (Modem (Lte_lc_func_mode_set LTE_LC_FUNC_MODE_NORMAL)) }"
  have run: "exec (recover_if_silent E) w =
      (if silence_ms E w < m * 60000 then u\<lparr>modem_bounced := False\<rparr>
       else if b * 60000 \<le> silence_ms E w then exec reboot u
       else if modem_bounced w then u else exec restart u)"
    "result (recover_if_silent E) w \<longleftrightarrow> m * 60000 \<le> silence_ms E w \<and> b * 60000 \<le> silence_ms E w"
    unfolding less [symmetric] le [symmetric] using same
    by (auto simp: recover_if_silent_def run_simps now_def u_def reboot_def restart_def m_def b_def Let_def)
  have ends: "modem_bounced (exec reboot u) = modem_bounced w" "modem_bounced (exec restart u)"
    "own_calls (hist (exec reboot u)) = rev (recovery_calls Reboot_device) @ own_calls (hist u)"
    "own_calls (hist (exec restart u)) = rev (recovery_calls Restart_modem) @ own_calls (hist u)"
    "phase_current (exec reboot u) = phase_val TRACKER_PHASE_NO_NETWORK" "phase_current (exec restart u) = phase_current w"
    by (simp_all add: reboot_def restart_def run_simps own_calls_api watchdog_phase_def fields same)
  show "result (recover_if_silent E) w \<longleftrightarrow> d w = Reboot_device"
    "modem_bounced (exec (recover_if_silent E) w) = next_mark (cfg E) (silence_ms E w) (modem_bounced w)"
    "own_calls (hist (exec (recover_if_silent E) w)) =
      rev (recovery_calls (d w)) @ Kern K_uptime_get # own_calls (hist w)"
    "phase_current (exec (recover_if_silent E) w) =
      (if d w = Reboot_device then phase_val TRACKER_PHASE_NO_NETWORK else phase_current w)"
    unfolding run d_def decide_def next_mark_def m_def [symmetric] b_def [symmetric]
    using ends same by auto
qed

end

section \<open>The frequent loop\<close>

text \<open>The check is not made in the frequent loop, and nothing else restarts the modem or reboots.\<close>

abbreviation no_recovery :: "call \<Rightarrow> bool" where
  "no_recovery c \<equiv> c \<noteq> offline_call \<and> c \<noteq> Kern Sys_reboot"

lemma issues_case_provider [issues_rules]:
  "issues A m \<Longrightarrow> issues A n \<Longrightarrow> issues A (case p of NrfCloud \<Rightarrow> m | HologramCloud \<Rightarrow> n)"
  by (cases p) simp_all

context tracker_runtime begin

lemma modem_time_loop_no_recovery [issues_rules]: "issues no_recovery (modem_time_loop E waited)"
proof (induction "TRACKER_MODEM_TIME_WAIT_SECONDS (cfg E) - waited" arbitrary: waited rule: less_induct)
  case less
  show ?case
    by (subst modem_time_loop.simps, unfold watchdog_feed_def) (intro issues_rules less; simp add: MODEM_TIME_POLL_S_def)
qed

lemma frequent_loop_no_recovery: "issues no_recovery (frequent_loop fuel E mc t r)"
proof -
  have parts: "issues no_recovery (cloud_resume E)" "issues no_recovery (cloud_send_telemetry E s)"
    "issues no_recovery (cloud_send_location E f)" "issues no_recovery (power_vbus_present E)"
    "issues no_recovery (gnss_wait_fix E t)" "issues no_recovery (vbus_or_surge E mc)"
    "issues no_recovery (status_led_report E b)" "issues no_recovery (collect_telemetry E fx tt rr)"
    "issues no_recovery (telemetry_build_json E tm n)" "issues no_recovery (watchdog_guard_start E bb)"
    "issues no_recovery (watchdog_guard_stop E)" "issues no_recovery (watchdog_feed E)"
    "issues no_recovery (motion_set_armed E arm)" for s f b t mc fx tt rr tm n bb arm
    unfolding link_defs send_defs board_defs receiver_defs report_defs watchdog_feed_def motion_set_armed_def
    by (intro issues_rules; simp)+
  have "issues no_recovery (report_fix E f t r)" for f
    unfolding report_fix_def send_payload_def k_uptime_get_def watchdog_phase_def by (intro issues_rules parts; simp)
  then have "issues no_recovery (frequent_body E t r)"
    unfolding frequent_body_def report_outcome_def wait_fix_opt_def watchdog_phase_def
    by (intro issues_rules parts; simp)
  then show ?thesis
    by (induction fuel) (simp_all add: issues_return, intro issues_rules parts, simp_all)
qed

end

end
