(* ===== verification/Parking.thy ===== *)
theory Parking
  imports Recovery
begin

text \<open>
  The cloud session while the tracker sleeps: never left connected, so that the DTLS connection id is
  saved before the modem's link is torn down.
\<close>

fun sleeps_parked :: "event list \<Rightarrow> bool" where
  "sleeps_parked [] \<longleftrightarrow> True"
| "sleeps_parked (e # h) \<longleftrightarrow> sleeps_parked h \<and>
     (if \<not> ev_isr e \<and> sleep_call (ev_call e) then session h \<noteq> LINK_CONNECTED else True)"

text \<open>The modem keeps the socket of a session open, and lets it be paused, while it is connected.\<close>

definition pause_works :: "(event list \<Rightarrow> call \<Rightarrow> resp) \<Rightarrow> bool" where
  "pause_works R \<longleftrightarrow> (\<forall>h. session h = LINK_CONNECTED \<longrightarrow>
     flag (R h (Cloud Coap_keepopen_is_supported)) \<and> rc (R h (Cloud Coap_pause)) = 0)"

definition link_parked :: "'a tracker_state_scheme \<Rightarrow> bool" where
  "link_parked w \<longleftrightarrow> sleeps_parked (hist w) \<and> session (hist w) \<noteq> LINK_CONNECTED"

lemma parked_append:
  "\<forall>e \<in> set es. ev_isr e \<or> \<not> sleep_call (ev_call e) \<Longrightarrow> sleeps_parked (es @ h) = sleeps_parked h"
  by (induction es) auto

lemma issues_parked:
  "issues awake_call m \<Longrightarrow> sleeps_parked (hist (exec m w)) = sleeps_parked (hist w)"
  using parked_append unfolding issues_def by metis

text \<open>Between the head of the loop and the sleep the session may be connected.\<close>

definition on_the_way :: "config \<Rightarrow> 'a tracker_state_scheme \<Rightarrow> bool" where
  "on_the_way C w \<longleftrightarrow> consistent C w \<and> sleeps_parked (hist w)"

definition at_home :: "config \<Rightarrow> 'a tracker_state_scheme \<Rightarrow> bool" where
  "at_home C w \<longleftrightarrow> consistent C w \<and> link_parked w"

lemma at_home_on_the_way: "at_home C w \<Longrightarrow> on_the_way C w"
  by (simp add: at_home_def on_the_way_def link_parked_def)

definition parking :: "('a platform_scheme) env \<Rightarrow> bool" where
  "parking E \<longleftrightarrow> pause_works (reply E) \<and> TRACKER_CLOUD_PROVIDER (cfg E) = NrfCloud \<and>
     \<not> TRACKER_OFFLINE_DEBUG (cfg E) \<and> TRACKER_MOTION_SETTLE_CYCLES (cfg E) < 2 ^ 32"

context tracker_runtime begin

lemma intr_parked: "sleeps_parked (hist (intr E c w)) = sleeps_parked (hist w)"
proof -
  obtain es where "hist (intr E c w) = es @ hist w" "\<forall>e \<in> set es. ev_isr e" using intr_appends by blast
  then show ?thesis by (simp add: parked_append)
qed

lemma parked_calls [hoare_rules]:
  assumes "\<not> session_call c"
  shows "keeps link_parked (api E c)" "keeps link_parked (api_rc E c)" "keeps link_parked (api_flag E c)" "keeps link_parked (api_do E c)"
proof -
  have "keeps link_parked (api E c)"
    using assms by (simp add: keeps_def link_parked_def session_api) (simp add: hist_api intr_parked intr_session)
  then show "keeps link_parked (api E c)" "keeps link_parked (api_rc E c)" "keeps link_parked (api_flag E c)" "keeps link_parked (api_do E c)"
    by (simp_all add: keeps_api_variants)
qed

lemma parked_parts [hoare_rules]:
  "keeps link_parked (k_uptime_get E)" "keeps link_parked (watchdog_feed E)" "keeps link_parked (watchdog_phase p)"
  "keeps link_parked (recover_if_silent E)" "keeps link_parked (cycle_network E)" "keeps link_parked (status_led_set E st)"
  "keeps link_parked (sleep_until_wake E)"
  unfolding board_defs watchdog_feed_def recover_if_silent_def cycle_network_def sleep_until_wake_def
    battery_sleep_def motion_set_armed_def
  by (intro hoare_rules; simp add: link_parked_def session_call_def)+

text \<open>A pause parks the session.\<close>

lemma cloud_pause_parks:
  assumes "pause_works (reply E)" "TRACKER_CLOUD_PROVIDER (cfg E) = NrfCloud" "\<not> TRACKER_OFFLINE_DEBUG (cfg E)"
    and "link_current w" "sleeps_parked (hist w)"
  shows "link_parked (exec (cloud_pause E) w)"
proof -
  have "issues awake_call (cloud_pause E)" by (intro issues_rules)
  then have "sleeps_parked (hist (exec (cloud_pause E) w))" using assms(5) by (simp add: issues_parked)
  moreover have "session (hist (exec (cloud_pause E) w)) \<noteq> LINK_CONNECTED"
    using assms(1-4) by (auto simp: cloud_calls cloud_nrf_pause_def run_simps link_current_def pause_works_def
        session_after intr_session result_api session_call_def)
  ultimately show ?thesis by (simp add: link_parked_def)
qed

section \<open>Every sleep of a run\<close>

lemma keeps_on_the_way:
  "keeps (consistent (cfg E)) m \<Longrightarrow> issues awake_call m \<Longrightarrow> keeps (on_the_way (cfg E)) m"
  by (simp add: keeps_def on_the_way_def issues_parked)

lemma keeps_at_home: "keeps (consistent (cfg E)) m \<Longrightarrow> keeps link_parked m \<Longrightarrow> keeps (at_home (cfg E)) m"
  by (simp add: keeps_def at_home_def)

lemma consistent_sleep_until [hoare_rules]:
  "parking E \<Longrightarrow> keeps (consistent (cfg E)) (sleep_until_wake E)"
  unfolding sleep_until_wake_def parking_def by (intro hoare_rules) simp

lemma pause_and_sleep_home:
  assumes "parking E" "on_the_way (cfg E) w"
  shows "at_home (cfg E) (exec (do { cloud_pause E; sleep_until_wake E }) w)"
proof -
  have "link_parked (exec (cloud_pause E) w)"
    using assms by (intro cloud_pause_parks) (simp_all add: parking_def on_the_way_def consistent_def)
  moreover have "consistent (cfg E) (exec (cloud_pause E) w)"
    using assms by (intro keepsD [OF consistent_resume(2)]) (simp_all add: parking_def on_the_way_def)
  ultimately have "at_home (cfg E) (exec (cloud_pause E) w)" by (simp add: at_home_def)
  moreover have "keeps (at_home (cfg E)) (sleep_until_wake E)"
    by (intro keeps_at_home hoare_rules assms(1))
  ultimately show ?thesis by (simp add: run_simps keepsD)
qed

lemma cycle_tracking_parks:
  assumes "parking E" "on_the_way (cfg E) w"
  shows "on_the_way (cfg E) (exec (cycle_tracking fuel E t r) w) \<and>
    (\<forall>r'. result (cycle_tracking fuel E t r) w = Slept r' \<longrightarrow> at_home (cfg E) (exec (cycle_tracking fuel E t r) w))"
proof -
  define pre where "pre = do {
     fx \<leftarrow> acquire_fix E;
     first_report E fx t r;
     frequent_reporting fuel E (r = TRACKER_WAKE_MOTION) t r }"
  define stop where "stop = do {
     watchdog_phase TRACKER_PHASE_GNSS_STOP; gnss_stop E; watchdog_phase TRACKER_PHASE_CLOUD_PAUSE }"
  have debug: "\<not> TRACKER_OFFLINE_DEBUG (cfg E)" using assms(1) by (simp add: parking_def)
  have "keeps (consistent (cfg E)) pre"
    unfolding pre_def first_report_def frequent_reporting_def by (intro hoare_rules debug)
  moreover have "issues awake_call pre" unfolding pre_def by (intro issues_rules)
  ultimately have pre: "on_the_way (cfg E) (exec pre w)" using keeps_on_the_way assms(2) by (blast dest: keepsD)
  have "keeps (consistent (cfg E)) stop" unfolding stop_def by (intro hoare_rules)
  moreover have "issues awake_call stop" unfolding stop_def by (intro issues_rules; simp)
  ultimately have "on_the_way (cfg E) (exec stop (exec pre w))" using keeps_on_the_way pre by (blast dest: keepsD)
  then have home: "at_home (cfg E) (exec (do { cloud_pause E; sleep_until_wake E }) (exec stop (exec pre w)))"
    by (rule pause_and_sleep_home [OF assms(1)])
  have run: "exec (cycle_tracking fuel E t r) w = (if result pre w
      then exec (do { cloud_pause E; sleep_until_wake E }) (exec stop (exec pre w)) else exec pre w)"
    "result (cycle_tracking fuel E t r) w = Slept r' \<Longrightarrow> result pre w" for r'
    by (simp_all add: cycle_tracking_def pre_def stop_def run_simps split: if_splits)
  show ?thesis
    using pre home at_home_on_the_way [OF home] run by (simp split: if_split)
qed

lemma cycle_online_parks:
  assumes "parking E" "on_the_way (cfg E) w"
  shows "on_the_way (cfg E) (exec (cycle_online fuel E t r) w) \<and>
    (\<forall>r'. result (cycle_online fuel E t r) w = Slept r' \<longrightarrow> at_home (cfg E) (exec (cycle_online fuel E t r) w))"
proof -
  define pre where "pre = do {
     watchdog_phase TRACKER_PHASE_CLOUD_RESUME;
     watchdog_guard_start E (word_of_nat (TRACKER_CLOUD_CONNECT_BUDGET_SECONDS (cfg E)));
     ignore (cloud_resume E);
     watchdog_guard_stop E;
     status_led_report E False;
     watchdog_phase TRACKER_PHASE_GNSS_START;
     gnss_start E }"
  have debug: "\<not> TRACKER_OFFLINE_DEBUG (cfg E)" using assms(1) by (simp add: parking_def)
  have "keeps (consistent (cfg E)) pre" unfolding pre_def by (intro hoare_rules debug)
  moreover have "issues awake_call pre" unfolding pre_def by (intro issues_rules; simp)
  ultimately have pre: "on_the_way (cfg E) (exec pre w)" using keeps_on_the_way assms(2) by (blast dest: keepsD)
  note home = pause_and_sleep_home [OF assms(1) pre]
  have run: "exec (cycle_online fuel E t r) w = (if result pre w = 0 then exec (cycle_tracking fuel E t r) (exec pre w)
      else exec (do { cloud_pause E; sleep_until_wake E }) (exec pre w))"
    "result (cycle_online fuel E t r) w = (if result pre w = 0 then result (cycle_tracking fuel E t r) (exec pre w)
      else result (do { cloud_pause E; sleep_until_wake E }) (exec pre w))"
    by (simp_all add: cycle_online_def pre_def run_simps)
  show ?thesis
    using home at_home_on_the_way [OF home] cycle_tracking_parks [OF assms(1) pre] unfolding run
    by (simp split: if_split)
qed

lemma cycle_parks:
  assumes "parking E" "at_home (cfg E) w"
  shows "on_the_way (cfg E) (exec (cycle fuel E r) w) \<and>
    (\<forall>r'. result (cycle fuel E r) w = Slept r' \<longrightarrow> at_home (cfg E) (exec (cycle fuel E r) w))"
proof -
  define t where "t = to_u32 (result (k_uptime_get E) w)"
  define pre where "pre = do {
     now \<leftarrow> k_uptime_get E;
     when_do (r = TRACKER_WAKE_VBUS) (modify (\<lambda>w. w\<lparr>battery_sleeps := 0\<rparr>));
     watchdog_phase TRACKER_PHASE_WAKE;
     watchdog_feed E;
     if TRACKER_SKIP_LTE (cfg E) then return False else recover_if_silent E }"
  define u where "u = exec (cycle_network E) (exec pre w)"
  have "keeps (at_home (cfg E)) pre"
    unfolding pre_def by (intro keeps_at_home hoare_rules; simp add: consistent_defs link_parked_def)
  then have v: "at_home (cfg E) (exec pre w)" using assms(2) by (rule keepsD)
  have "keeps (at_home (cfg E)) (cycle_network E)" by (intro keeps_at_home hoare_rules)
  then have u: "at_home (cfg E) u" using v unfolding u_def by (rule keepsD)
  have "keeps (at_home (cfg E)) (do { status_led_set E TRACKER_STATUS_NO_LTE; sleep_until_wake E })"
    by (intro keeps_at_home hoare_rules assms(1))
  then have off: "at_home (cfg E) (exec (do { status_led_set E TRACKER_STATUS_NO_LTE; sleep_until_wake E }) u)"
    using u by (rule keepsD)
  have run: "exec (cycle fuel E r) w = (if result pre w then exec pre w
      else if result (cycle_network E) (exec pre w) then exec (cycle_online fuel E t r) u
      else exec (do { status_led_set E TRACKER_STATUS_NO_LTE; sleep_until_wake E }) u)"
    "result (cycle fuel E r) w = (if result pre w then Rebooted
      else if result (cycle_network E) (exec pre w) then result (cycle_online fuel E t r) u
      else result (do { status_led_set E TRACKER_STATUS_NO_LTE; sleep_until_wake E }) u)"
    by (simp_all add: cycle_def pre_def u_def t_def Let_def run_simps)
  show ?thesis
    using v off at_home_on_the_way [OF v] at_home_on_the_way [OF off]
      cycle_online_parks [OF assms(1) at_home_on_the_way [OF u]] unfolding run
    by (simp split: if_split)
qed

lemma cycles_park:
  assumes "parking E" "at_home (cfg E) w"
  shows "sleeps_parked (hist (exec (cycles n fuel E r) w))"
  using assms(2)
proof (induction n arbitrary: w r)
  case (Suc n)
  note step = cycle_parks [OF assms(1) Suc.prems, of fuel r]
  then show ?case
    using Suc.IH
    by (cases "result (cycle fuel E r) w") (simp_all add: run_simps on_the_way_def)
qed (simp add: at_home_def link_parked_def)

lemma main_parks:
  assumes "parking E" "unlinked (cfg E) w" "sleeps_parked (hist w)"
  shows "sleeps_parked (hist (exec (main n fuel E) w))"
proof -
  have "unlinked (cfg E) (exec (boot E) w)" using unlinked_boot assms(2) by (rule keepsD)
  moreover have "sleeps_parked (hist (exec (boot E) w))"
    using assms(3) issues_parked [OF awake_cycle(5)] by simp
  ultimately have "at_home (cfg E) (exec (boot E) w)"
    by (auto simp: at_home_def link_parked_def unlinked_def consistent_def link_current_def)
  then show ?thesis
    using cycles_park [OF assms(1)] by (auto simp: main_def run_simps at_home_def link_parked_def split: option.split)
qed

end

end
