(* ===== verification/Jolts.thy ===== *)
theory Jolts
  imports Handlers
begin

text \<open>
  When the tracker takes its last jolt to have been: what the sensor's handler stores, and that it
  never decreases from call to call, when handlers run in the calls of the main thread.
\<close>

section \<open>The time of the last jolt\<close>

lemma handler_elapsed: "elapsed (hist (deliver E i w)) = elapsed (hist (w :: 'a tracker_state_scheme))"
proof -
  have "handler_step (cfg E) (sdk E) w (deliver E i w)" by (rule deliver_step)
  then obtain es where "hist (deliver E i w) = es @ hist w" "\<forall>e \<in> set es. ev_isr e"
    unfolding handler_step_def handler_events_def by blast
  moreover from this(2) have "elapsed es = 0" by (induction es) auto
  ultimately show ?thesis by (simp add: elapsed_append)
qed

lemma deliver_last_jolt:
  fixes w :: "'a tracker_state_scheme"
  assumes "clock_sound R" "elapsed (hist w) < 2 ^ 64"
  shows "last_jolt (deliver (isr_base C S R) i w) = last_jolt w \<or>
    last_jolt (deliver (isr_base C S R) i w) = int (elapsed (hist w))"
proof (cases "i = Int_motion")
  case True
  have "i64 (R (hist w) (Kern K_uptime_get)) = int (elapsed (hist w))" using assms(1) by (simp add: clock_sound_def)
  then show ?thesis
    using True split_halves [of "int (elapsed (hist w))"] assms(2)
    by (simp add: deliver_def handler_def motion_handler_def wake_signal_def atomic_defs k_uptime_get_def
        run_simps api_simps Let_def last_jolt_def)
next
  case False
  then show ?thesis using deliver_jolts [of "[i]" "isr_base C S R" w] by (simp add: last_jolt_def)
qed

lemma intr_last_jolt:
  fixes w :: "'a tracker_state_scheme"
  defines "v \<equiv> \<lambda>C S R when_int c. intr (tracker_env C S R when_int) c w"
  assumes "clock_sound R" "elapsed (hist w) < 2 ^ 64"
  shows "last_jolt (v C S R when_int c) = last_jolt w \<or> last_jolt (v C S R when_int c) = int (elapsed (hist w))"
    and "elapsed (hist (v C S R when_int c)) = elapsed (hist w)"
proof -
  have "(last_jolt (fold (deliver (isr_base C S R)) is w) = last_jolt w \<or>
      last_jolt (fold (deliver (isr_base C S R)) is w) = int (elapsed (hist w))) \<and>
      elapsed (hist (fold (deliver (isr_base C S R)) is w)) = elapsed (hist w)" for "is"
    using assms(3)
  proof (induction "is" arbitrary: w)
    case (Cons i "is")
    show ?case
      using Cons.IH [of "deliver (isr_base C S R) i w"] Cons.prems
        deliver_last_jolt [OF assms(2) Cons.prems, of C S i] by (auto simp: handler_elapsed)
  qed simp
  then show "last_jolt (v C S R when_int c) = last_jolt w \<or> last_jolt (v C S R when_int c) = int (elapsed (hist w))"
    and "elapsed (hist (v C S R when_int c)) = elapsed (hist w)"
    unfolding v_def by simp_all
qed

lemma api_elapsed:
  "elapsed (hist w) \<le> elapsed (hist (exec (api (tracker_env C S R when_int) c) (w :: 'a tracker_state_scheme)))"
  using tracker.elapsed_api [where C = C and S = S and R = R and when_int = when_int and c = c and w = w] by simp

text \<open>A call: a jolt that arrives in it is stored with the time at which the call began.\<close>

lemma api_last_jolt:
  fixes w :: "'a tracker_state_scheme"
  defines "v \<equiv> \<lambda>C S R when_int c. exec (api (tracker_env C S R when_int) c) w"
  assumes "clock_sound R" "elapsed (hist w) < 2 ^ 64" "last_jolt w \<le> int (elapsed (hist w))"
  shows "last_jolt w \<le> last_jolt (v C S R when_int c)"
    and "last_jolt (v C S R when_int c) \<le> int (elapsed (hist w))"
proof -
  have "last_jolt (v C S R when_int c) = last_jolt (intr (tracker_env C S R when_int) c w)"
    by (simp add: v_def api_simps last_jolt_def)
  then show "last_jolt w \<le> last_jolt (v C S R when_int c)"
    and "last_jolt (v C S R when_int c) \<le> int (elapsed (hist w))"
    using intr_last_jolt(1) [OF assms(2,3), of C S when_int c] assms(4) by auto
qed

lemma last_jolt_hi: "uint (last_event_ms_hi w) = last_jolt w div 2 ^ 32"
  using uint_lt2p [of "last_event_ms_lo w"] by (simp add: last_jolt_def event_time_def)

end
