(* ===== verification/Breadcrumbs.thy ===== *)
theory Breadcrumbs
  imports Reach
begin

text \<open>
  What the phase marker of watchdog.h says about the call a reset interrupts.  An auxiliary field
  records the marker as it stands in retained RAM whenever the main thread enters a call; no function
  of the firmware can read it.  Which phases a call may be made in, that every function of main.c stays
  within them, and that a whole run does.
\<close>

section \<open>The places of a call\<close>

text \<open>
  The phases in which the firmware makes a call that may block: the enumerators of
  \<open>enum tracker_phase\<close> and their comments.  Calls that end at once may be made anywhere (\<open>[]\<close>).
\<close>

definition kern_phases :: "kern_call \<Rightarrow> tracker_phase list" where
  "kern_phases k = (case k of
     K_sleep ms \<Rightarrow> [TRACKER_PHASE_WAKE, TRACKER_PHASE_CLOUD_RESUME, TRACKER_PHASE_GNSS_START, TRACKER_PHASE_FIX,
       TRACKER_PHASE_REPORT, TRACKER_PHASE_FREQUENT, TRACKER_PHASE_NO_NETWORK]
   | Sys_reboot \<Rightarrow> [TRACKER_PHASE_NO_NETWORK]
   | K_sem_take s t \<Rightarrow> (case s of
       Wake_sem \<Rightarrow> [TRACKER_PHASE_SLEEP]
     | Lte_connected_sem \<Rightarrow> [TRACKER_PHASE_LTE]
     | Agnss_req_sem \<Rightarrow> [TRACKER_PHASE_GNSS_START, TRACKER_PHASE_FIX]
     | _ \<Rightarrow> [TRACKER_PHASE_FIX, TRACKER_PHASE_FREQUENT])
   | _ \<Rightarrow> [])"

definition board_phases :: "board_call \<Rightarrow> tracker_phase list" where
  "board_phases b = (case b of
     Sensor_trigger_set on \<Rightarrow> TRACKER_PHASE_MOTION_ARM # (if on then [] else [TRACKER_PHASE_FREQUENT])
   | Pm_device_action_run d a \<Rightarrow> (case a of
       PM_DEVICE_ACTION_RESUME \<Rightarrow> [TRACKER_PHASE_GNSS_START]
     | PM_DEVICE_ACTION_SUSPEND \<Rightarrow>
         [TRACKER_PHASE_NONE, TRACKER_PHASE_GNSS_START, TRACKER_PHASE_FIX, TRACKER_PHASE_GNSS_STOP])
   | _ \<Rightarrow> [])"

definition modem_phases :: "modem_call \<Rightarrow> tracker_phase list" where
  "modem_phases m = (case m of
     Lte_lc_connect_async \<Rightarrow> [TRACKER_PHASE_LTE]
   | Lte_lc_func_mode_set f \<Rightarrow>
       (if f = LTE_LC_FUNC_MODE_ACTIVATE_GNSS then [TRACKER_PHASE_NONE] else [TRACKER_PHASE_WAKE])
   | Gnss_start \<Rightarrow> [TRACKER_PHASE_GNSS_START, TRACKER_PHASE_AGNSS, TRACKER_PHASE_FIX]
   | Gnss_stop \<Rightarrow> [TRACKER_PHASE_AGNSS, TRACKER_PHASE_FIX, TRACKER_PHASE_GNSS_STOP]
   | _ \<Rightarrow> [])"

definition cloud_phases :: "cloud_call \<Rightarrow> tracker_phase list" where
  "cloud_phases c = (case c of
     Coap_init \<Rightarrow> [TRACKER_PHASE_NONE]
   | Coap_connect \<Rightarrow> [TRACKER_PHASE_CLOUD_RESUME, TRACKER_PHASE_REPORT]
   | Coap_resume \<Rightarrow> [TRACKER_PHASE_CLOUD_RESUME, TRACKER_PHASE_REPORT]
   | Coap_disconnect \<Rightarrow> [TRACKER_PHASE_CLOUD_RESUME, TRACKER_PHASE_REPORT]
   | Coap_pause \<Rightarrow> [TRACKER_PHASE_GNSS_START, TRACKER_PHASE_CLOUD_PAUSE]
   | Coap_json_message_send s \<Rightarrow> [TRACKER_PHASE_REPORT]
   | Coap_location_send g \<Rightarrow> [TRACKER_PHASE_REPORT]
   | Coap_agnss_data_get r \<Rightarrow> [TRACKER_PHASE_AGNSS, TRACKER_PHASE_FIX]
   | Agnss_process bs \<Rightarrow> [TRACKER_PHASE_AGNSS, TRACKER_PHASE_FIX]
   | _ \<Rightarrow> [])"

definition phases_of :: "call \<Rightarrow> tracker_phase list" where
  "phases_of c = (case c of
     Kern k \<Rightarrow> kern_phases k
   | Board b \<Rightarrow> board_phases b
   | Modem m \<Rightarrow> modem_phases m
   | Cloud x \<Rightarrow> cloud_phases x
   | Net n \<Rightarrow> [TRACKER_PHASE_REPORT])"

lemmas place_defs = phases_of_def kern_phases_def board_phases_def modem_phases_def cloud_phases_def

section \<open>Recording the marker\<close>

record crumb_state = tracker_state +
  crumbs :: "(u32 \<times> u32 \<times> call) list"

text \<open>The environment that records it, as the last thing before a call is answered.\<close>

definition traced :: "('a crumb_state_scheme) env \<Rightarrow> ('a crumb_state_scheme) env" where
  "traced E = E\<lparr>intr := (\<lambda>c w. let v = intr E c w in
     v\<lparr>crumbs := (phase_magic v, phase_current v, c) # crumbs v\<rparr>)\<rparr>"

lemma traced_simps:
  "intr (traced E) c w = (intr E c w)\<lparr>crumbs := (phase_magic (intr E c w), phase_current (intr E c w), c) # crumbs (intr E c w)\<rparr>"
  "cfg (traced E) = cfg E" "sdk (traced E) = sdk E" "reply (traced E) = reply E" "in_isr (traced E) = in_isr E"
  by (simp_all add: traced_def Let_def)

definition well_placed :: "(u32 \<times> u32 \<times> call) list \<Rightarrow> bool" where
  "well_placed cs \<longleftrightarrow> (\<forall>(m, q, c) \<in> set cs. phases_of c \<noteq> [] \<longrightarrow>
     m = PHASE_MAGIC \<and> q \<in> phase_val ` set (phases_of c))"

text \<open>The marker is valid and names one of the phases \<open>P\<close>, and all calls so far were in their places.\<close>

definition placed :: "tracker_phase set \<Rightarrow> 'a crumb_state_scheme \<Rightarrow> bool" where
  "placed P w \<longleftrightarrow> phase_magic w = PHASE_MAGIC \<and> phase_current w \<in> phase_val ` P \<and> well_placed (crumbs w)"

definition moves :: "tracker_phase set \<Rightarrow> ('a crumb_state_scheme, 'b) state \<Rightarrow> tracker_phase set \<Rightarrow> bool" where
  "moves P m Q \<longleftrightarrow> (\<forall>w. placed P w \<longrightarrow> placed Q (exec m w))"

lemma placed_mono: "placed P w \<Longrightarrow> P \<subseteq> Q \<Longrightarrow> placed Q w"
  by (auto simp: placed_def)

lemma keeps_moves: "keeps (placed P) m \<Longrightarrow> P \<subseteq> Q \<Longrightarrow> moves P m Q"
  unfolding keeps_def moves_def using placed_mono by blast

lemma moves_keeps: "moves P m P \<Longrightarrow> keeps (placed P) m"
  by (simp add: keeps_def moves_def)

lemma moves_weaken: "moves P' m Q' \<Longrightarrow> P \<subseteq> P' \<Longrightarrow> Q' \<subseteq> Q \<Longrightarrow> moves P m Q"
  unfolding moves_def using placed_mono by blast

lemma moves_bind: "moves P m Q \<Longrightarrow> (\<And>x. moves Q (f x) R) \<Longrightarrow> moves P (m \<bind> f) R"
  by (simp add: moves_def run_simps)

text \<open>First a part that stays in its phases; then announcing the next.\<close>

lemma moves_after: "keeps (placed P) m \<Longrightarrow> (\<And>x. moves P (f x) R) \<Longrightarrow> moves P (m \<bind> f) R"
  by (simp add: keeps_def moves_def run_simps)

lemma moves_phase: "(\<And>x. moves {q} (f x) R) \<Longrightarrow> moves P (watchdog_phase q \<bind> f) R"
  by (simp add: moves_def watchdog_phase_def run_simps placed_def)

lemma moves_into: "(\<And>x. keeps (placed {q}) (f x)) \<Longrightarrow> moves P (watchdog_phase q \<bind> f) {q}"
  by (intro moves_phase keeps_moves) auto

lemma moves_if: "moves P m Q \<Longrightarrow> moves P n Q \<Longrightarrow> moves P (if b then m else n) Q"
  by simp

lemma moves_return: "P \<subseteq> Q \<Longrightarrow> moves P (return x) Q"
  by (intro keeps_moves hoare_rules)

locale crumb_runtime = runtime E for E :: "('a crumb_state_scheme) env" +
  assumes intr_crumbs: "crumbs (intr E c w) = (phase_magic w, phase_current w, c) # crumbs w"
      "phase_magic (intr E c w) = phase_magic w" "phase_current (intr E c w) = phase_current w"
begin

lemma placed_api:
  assumes "phases_of c = [] \<or> P \<subseteq> set (phases_of c)" "placed P w"
  shows "placed P (exec (api E c) w)"
  using assms by (auto simp: placed_def well_placed_def api_simps intr_crumbs)

lemma placed_calls [hoare_rules]:
  assumes "phases_of c = [] \<or> P \<subseteq> set (phases_of c)"
  shows "keeps (placed P) (api E c)" "keeps (placed P) (api_rc E c)"
    "keeps (placed P) (api_flag E c)" "keeps (placed P) (api_do E c)"
proof -
  have "keeps (placed P) (api E c)" using placed_api [OF assms] by (simp add: keeps_def)
  then show "keeps (placed P) (api E c)" "keeps (placed P) (api_rc E c)"
    "keeps (placed P) (api_flag E c)" "keeps (placed P) (api_do E c)"
    by (simp_all add: keeps_api_variants)
qed

section \<open>Functions that stay where they are\<close>

text \<open>What may be done anywhere.\<close>

lemma placed_board [hoare_rules]:
  "keeps (placed P) (k_uptime_get E)" "keeps (placed P) (watchdog_feed E)"
  "keeps (placed P) (watchdog_guard_start E b)" "keeps (placed P) (watchdog_guard_stop E)"
  "keeps (placed P) (power_vbus_present E)" "keeps (placed P) (power_read E)"
  "keeps (placed P) (motion_last_event_uptime E)" "keeps (placed P) (status_led_set E st)"
  "keeps (placed P) (status_led_pattern E pat)" "keeps (placed P) (status_led_sleep E)"
  "keeps (placed P) (lte_is_registered E)"
  unfolding board_defs watchdog_feed_def
  by (intro hoare_rules; simp add: place_defs placed_def)+

lemma placed_decisions [hoare_rules]:
  "keeps (placed P) (vbus_or_surge E mc)" "keeps (placed P) (status_led_report E b)"
  "keeps (placed P) (collect_telemetry E fx t r)" "keeps (placed P) (telemetry_build_json E tm n)"
  "keeps (placed P) (agnss_wanted E)" "keeps (placed P) (cloud_is_ready E)"
  "keeps (placed P) (gnss_fallback_available E)" "keeps (placed P) (gnss_fix_timeout_seconds E)"
  unfolding report_defs send_defs agnss_wanted_def gnss_active_source_def gnss_fallback_available_def
    gnss_fix_timeout_seconds_def
  by (intro hoare_rules; simp add: place_defs placed_def)+

text \<open>The network and the cloud.\<close>

lemma placed_network [hoare_rules]:
  "P \<subseteq> {TRACKER_PHASE_LTE} \<Longrightarrow> keeps (placed P) (lte_ensure_connected E)"
  unfolding board_defs by (intro hoare_rules; auto simp: place_defs)

lemma placed_modem_time [hoare_rules]:
  assumes "P \<subseteq> {TRACKER_PHASE_CLOUD_RESUME, TRACKER_PHASE_REPORT}"
  shows "keeps (placed P) (modem_time_loop E waited)"
proof (induction "TRACKER_MODEM_TIME_WAIT_SECONDS (cfg E) - waited" arbitrary: waited rule: less_induct)
  case less
  show ?case
    by (subst modem_time_loop.simps)
       (intro hoare_rules less; use assms in \<open>auto simp: place_defs placed_def MODEM_TIME_POLL_S_def\<close>)
qed

lemma placed_cloud [hoare_rules]:
  "P \<subseteq> {TRACKER_PHASE_CLOUD_RESUME, TRACKER_PHASE_REPORT} \<Longrightarrow> keeps (placed P) (cloud_resume E)"
  "P \<subseteq> {TRACKER_PHASE_GNSS_START, TRACKER_PHASE_CLOUD_PAUSE} \<Longrightarrow> keeps (placed P) (cloud_pause E)"
  "P \<subseteq> {TRACKER_PHASE_REPORT} \<Longrightarrow> keeps (placed P) (cloud_send_telemetry E m)"
  "P \<subseteq> {TRACKER_PHASE_REPORT} \<Longrightarrow> keeps (placed P) (cloud_send_location E f)"
  "P \<subseteq> {TRACKER_PHASE_REPORT} \<Longrightarrow> keeps (placed P) (send_payload E s)"
  subgoal unfolding link_defs by (intro hoare_rules; auto simp: place_defs placed_def)
  subgoal unfolding link_defs by (intro hoare_rules; auto simp: place_defs placed_def)
  subgoal unfolding send_defs by (intro hoare_rules; auto simp: place_defs)
  subgoal unfolding send_defs by (intro hoare_rules; auto simp: place_defs)
  subgoal unfolding send_payload_def send_defs link_defs by (intro hoare_rules; auto simp: place_defs placed_def)
  done

text \<open>The receivers.\<close>

lemma placed_receivers [hoare_rules]:
  "P \<subseteq> {TRACKER_PHASE_GNSS_START} \<Longrightarrow> keeps (placed P) (gnss_start E)"
  "P \<subseteq> {TRACKER_PHASE_FIX, TRACKER_PHASE_GNSS_STOP} \<Longrightarrow> keeps (placed P) (gnss_stop E)"
  "P \<subseteq> {TRACKER_PHASE_FIX} \<Longrightarrow> keeps (placed P) (gnss_fallback E)"
  "P \<subseteq> {TRACKER_PHASE_GNSS_START, TRACKER_PHASE_FIX} \<Longrightarrow> keeps (placed P) (gnss_agnss_request_wait E t)"
  "P \<subseteq> {TRACKER_PHASE_FIX, TRACKER_PHASE_FREQUENT} \<Longrightarrow> keeps (placed P) (gnss_wait_fix E t)"
  "P \<subseteq> {TRACKER_PHASE_AGNSS, TRACKER_PHASE_FIX} \<Longrightarrow> keeps (placed P) (agnss_fetch_and_inject E)"
  unfolding receiver_defs assist_defs by (intro hoare_rules; auto simp: place_defs placed_def)+

lemma placed_waits [hoare_rules]:
  "P \<subseteq> {TRACKER_PHASE_FIX, TRACKER_PHASE_FREQUENT} \<Longrightarrow> keeps (placed P) (wait_fix_opt E t)"
  "P \<subseteq> {TRACKER_PHASE_FIX} \<Longrightarrow> keeps (placed P) (settle_fix E f)"
  "P \<subseteq> {TRACKER_PHASE_FIX} \<Longrightarrow> keeps (placed P) (cold_start_assist E False)"
  "P \<subseteq> {TRACKER_PHASE_FIX} \<Longrightarrow> keeps (placed P) (fallback_fix E a)"
  "P \<subseteq> {TRACKER_PHASE_FIX} \<Longrightarrow> keeps (placed P) (last_resort_fix E)"
  unfolding wait_fix_opt_def settle_fix_def cold_start_assist_def fallback_fix_def last_resort_fix_def when_do_False
  by (intro hoare_rules; auto simp: place_defs)+

section \<open>Functions that move on\<close>

lemma report_fix_moves: "moves P (report_fix E fx t r) {TRACKER_PHASE_REPORT}"
  unfolding report_fix_def
  by (rule moves_after [OF placed_decisions(3)], rule moves_phase, rule keeps_moves [OF _ subset_refl])
     (intro hoare_rules; simp add: placed_def)

lemma placed_outcome [hoare_rules]:
  assumes "TRACKER_PHASE_REPORT \<in> P"
  shows "keeps (placed P) (report_outcome E fx t r)"
proof -
  have "keeps (placed P) (report_fix E f t r)" for f
    using assms by (intro moves_keeps moves_weaken [OF report_fix_moves]) auto
  then show ?thesis unfolding report_outcome_def by (intro hoare_rules)
qed

lemma acquire_moves: "moves {TRACKER_PHASE_GNSS_START} (acquire_fix E) {TRACKER_PHASE_FIX}"
proof -
  let ?P = "{TRACKER_PHASE_GNSS_START, TRACKER_PHASE_AGNSS}"
  have fetch: "keeps (placed {TRACKER_PHASE_AGNSS}) (do { err \<leftarrow> agnss_fetch_and_inject E; return (Some (err = 0)) })"
    by (intro hoare_rules) simp
  have "moves {TRACKER_PHASE_GNSS_START} (cold_start_assist E True) ?P"
    unfolding cold_start_assist_def when_do_True
    by (rule moves_after [OF placed_decisions(5)], rule moves_if, rule moves_return, simp,
        rule moves_after [OF placed_receivers(4)], simp, rule moves_if, rule moves_return, simp,
        rule moves_phase, rule keeps_moves [OF fetch], simp)
  then show ?thesis
    unfolding acquire_fix_def Let_def
    by (rule moves_bind, intro moves_into hoare_rules) simp_all
qed

text \<open>The phases in which reports are made.\<close>

abbreviation reporting :: "tracker_phase set" where
  "reporting \<equiv> {TRACKER_PHASE_FIX, TRACKER_PHASE_REPORT, TRACKER_PHASE_FREQUENT}"

lemma placed_body [hoare_rules]: "keeps (placed reporting) (frequent_body E t r)"
proof -
  let ?P = "{TRACKER_PHASE_FREQUENT}"
  have disarm: "keeps (placed ?P) (when_do p (do { motion_set_armed E False; modify (\<lambda>w. w\<lparr>battery_sleeps := 0\<rparr>) }))" for p
    unfolding motion_set_armed_def by (intro hoare_rules; simp add: place_defs placed_def)
  have outcome: "moves ?P (report_outcome E fx t r) reporting" for fx
    by (rule moves_weaken [where P' = reporting and Q' = reporting, OF keeps_moves]) (intro hoare_rules, simp_all)
  show ?thesis
    unfolding frequent_body_def
    by (intro moves_keeps moves_phase moves_after [OF placed_board(5)] moves_after [OF disarm]
          moves_after [OF placed_calls(4)] moves_after [OF placed_board(2)] moves_after [OF placed_waits(1)] outcome)
       (simp_all add: place_defs)
qed

lemma placed_loop [hoare_rules]: "keeps (placed reporting) (frequent_loop fuel E mc t r)"
  by (induction fuel) (simp_all, (intro hoare_rules; assumption)+)

lemma sleep_moves: "moves P (sleep_until_wake E) {TRACKER_PHASE_SLEEP}"
proof -
  have arm: "keeps (placed {TRACKER_PHASE_MOTION_ARM}) (motion_set_armed E b)" for b
    unfolding motion_set_armed_def by (intro hoare_rules; simp add: place_defs placed_def)
  have wait: "keeps (placed {TRACKER_PHASE_SLEEP}) (wake_wait E s)" for s
    unfolding board_defs by (intro hoare_rules; simp add: place_defs placed_def)
  have "moves P (battery_sleep E) {TRACKER_PHASE_SLEEP}"
    unfolding battery_sleep_def
    by (intro moves_after [OF keeps_gets] moves_phase moves_after [OF placed_board(10)] moves_after [OF arm]
          moves_after [OF keeps_when_do [OF keeps_modify]] keeps_moves [OF wait])
       (simp_all add: placed_def)
  then show ?thesis
    unfolding sleep_until_wake_def by (rule moves_bind) (simp add: moves_return)
qed

section \<open>Whole runs\<close>

lemma tracking_moves: "moves {TRACKER_PHASE_GNSS_START} (cycle_tracking fuel E t r) UNIV"
proof -
  have settle: "keeps (placed {TRACKER_PHASE_FIX}) (case fx of None \<Rightarrow> return None
      | Some f \<Rightarrow> do { g \<leftarrow> settle_fix E f; return (Some g) })" for fx
    by (intro hoare_rules) simp
  have outcome: "moves {TRACKER_PHASE_FIX} (report_outcome E fx t r) reporting" for fx
    by (rule moves_weaken [where P' = reporting and Q' = reporting, OF keeps_moves]) (intro hoare_rules, simp_all)
  have first: "moves {TRACKER_PHASE_FIX} (first_report E fx t r) reporting" for fx
    unfolding first_report_def
    by (intro moves_after [OF settle] moves_bind [OF outcome] keeps_moves [OF placed_board(2)]) simp
  have frequent: "keeps (placed reporting) (frequent_reporting fuel E mc t r)" for mc
    unfolding frequent_reporting_def by (intro hoare_rules)
  have sleep: "moves P (sleep_until_wake E) UNIV" for P
    by (rule moves_weaken [OF sleep_moves]) auto
  show ?thesis
    unfolding cycle_tracking_def
    by (intro moves_bind [OF acquire_moves] moves_bind [OF first] moves_after [OF frequent] moves_if moves_return moves_phase
         moves_after [OF placed_receivers(2)] moves_after [OF placed_cloud(2)] sleep) simp_all
qed

lemma online_moves: "moves P (cycle_online fuel E t r) UNIV"
proof -
  have sleep: "moves Q (sleep_until_wake E) UNIV" for Q
    by (rule moves_weaken [OF sleep_moves]) auto
  have resume: "keeps (placed {TRACKER_PHASE_CLOUD_RESUME}) (ignore (cloud_resume E))"
    by (intro hoare_rules) simp
  show ?thesis
    unfolding cycle_online_def
    by (intro moves_phase moves_after [OF placed_board(3)] moves_after [OF resume] moves_after [OF placed_board(4)]
         moves_after [OF placed_decisions(2)] moves_after [OF placed_receivers(1)] moves_if
         moves_after [OF placed_cloud(2)] sleep tracking_moves) simp_all
qed

lemma recover_moves: "moves {TRACKER_PHASE_WAKE} (recover_if_silent E) UNIV"
proof -
  have restart: "keeps (placed {TRACKER_PHASE_WAKE}) (do {
         modify (\<lambda>w. w\<lparr>modem_bounced := True\<rparr>);
         api_do E (Modem (Lte_lc_func_mode_set LTE_LC_FUNC_MODE_OFFLINE));
         api_do E (Kern (K_sleep 1000));
         api_do E (Modem (Lte_lc_func_mode_set LTE_LC_FUNC_MODE_NORMAL));
         return False })"
    by (intro hoare_rules; simp add: place_defs placed_def)
  have reboot: "keeps (placed {TRACKER_PHASE_NO_NETWORK}) (do {
         api_do E (Kern (K_sleep 200)); api_do E (Kern Sys_reboot); return True })"
    by (intro hoare_rules; simp add: place_defs)
  have quiet: "keeps (placed {TRACKER_PHASE_WAKE}) (do { modify (\<lambda>w. w\<lparr>modem_bounced := False\<rparr>); return False })"
    by (intro hoare_rules; simp add: placed_def)
  show ?thesis
    unfolding recover_if_silent_def Let_def
    by (intro moves_after [OF placed_board(1)] moves_after [OF keeps_gets] moves_if moves_phase moves_return
         keeps_moves [OF restart] keeps_moves [OF reboot] keeps_moves [OF quiet]) simp_all
qed

lemma network_moves: "moves P (cycle_network E) UNIV"
proof -
  have "keeps (placed {TRACKER_PHASE_LTE}) (do { err \<leftarrow> lte_ensure_connected E; return (err = 0) })"
    by (intro hoare_rules) simp
  then show ?thesis
    unfolding cycle_network_def by (intro moves_if moves_return moves_phase keeps_moves) simp_all
qed

lemma placed_cycle: "keeps (placed UNIV) (cycle fuel E r)"
proof -
  have sleep: "moves UNIV (sleep_until_wake E) UNIV" by (rule moves_weaken [OF sleep_moves]) auto
  have count: "keeps (placed UNIV) (when_do b (modify (\<lambda>w. w\<lparr>battery_sleeps := 0\<rparr>)))" for b
    by (intro hoare_rules) (simp add: placed_def)
  have "moves {TRACKER_PHASE_WAKE} (if b then return False else recover_if_silent E) UNIV" for b
    by (intro moves_if moves_return recover_moves) simp
  note recover = moves_bind [OF this]
  show ?thesis
    unfolding cycle_def Let_def
    by (intro moves_keeps moves_after [OF placed_board(1)] moves_after [OF count] moves_phase moves_after [OF placed_board(2)]
         recover moves_if moves_return moves_bind [OF network_moves] moves_after [OF placed_board(8)] sleep online_moves)
       simp_all
qed

text \<open>Boot: only calls that may be made anywhere come before the marker is started.\<close>

lemma watchdog_init_places: "well_placed (crumbs w) \<Longrightarrow> placed {TRACKER_PHASE_NONE} (exec (watchdog_init E) w)"
proof -
  assume "well_placed (crumbs w)"
  then have "placed {TRACKER_PHASE_NONE} (exec phase_init w)"
    by (simp add: phase_init_def run_simps placed_def)
  moreover define rest where "rest = do {
     ready \<leftarrow> api_flag E (Kern (Device_is_ready Dev_wdt));
     if \<not> ready then return (- ENODEV)
     else do {
       ch \<leftarrow> api_rc E (Kern (Wdt_install_timeout (WDT_TIMEOUT_MS (cfg E))));
       modify (\<lambda>w. w\<lparr>wdt_channel := ch\<rparr>);
       if ch < 0 then return ch
       else do {
         err \<leftarrow> api_rc E (Kern Wdt_setup);
         if err \<noteq> 0 then do { modify (\<lambda>w. w\<lparr>wdt_channel := -1\<rparr>); return err } else return 0 } } }"
  have "keeps (placed {TRACKER_PHASE_NONE}) rest"
    unfolding rest_def by (intro hoare_rules; simp add: place_defs placed_def)
  ultimately show ?thesis
    by (simp add: watchdog_init_def rest_def [symmetric] exec_bind keepsD)
qed

lemma boot_places:
  assumes "well_placed (crumbs w)"
  shows "well_placed (crumbs (exec (boot E) w)) \<and>
    (result (boot E) w = None \<longrightarrow> placed {TRACKER_PHASE_NONE} (exec (boot E) w))"
proof -
  define rest where "rest = do {
      api_do E (Modem Modem_info_init);
      ignore (power_init E);
      ignore (motion_init E);
      ignore (status_led_init E);
      err2 \<leftarrow> gnss_init E;
      if err2 \<noteq> 0 then return (Some (- EIO)) else boot_network E }"
  have "keeps (\<lambda>w. well_placed (crumbs w)) (api E c)" if "phases_of c = []" for c
    using that by (simp add: keeps_def api_simps intr_crumbs well_placed_def)
  note calls = this keeps_api_variants [OF this]
  have "keeps (\<lambda>w. well_placed (crumbs w)) (modem_lib_init E)"
    unfolding modem_lib_init_def on_modem_lib_init_def by (intro hoare_rules calls; simp add: place_defs)
  then have lib: "well_placed (crumbs (exec (modem_lib_init E) w))" using assms by (rule keepsD)
  have "keeps (placed {TRACKER_PHASE_NONE}) rest"
    unfolding rest_def boot_defs cloud_init_defs by (intro hoare_rules; simp add: place_defs placed_def)
  then have "placed {TRACKER_PHASE_NONE} (exec rest (exec (watchdog_init E) (exec (modem_lib_init E) w)))"
    using watchdog_init_places [OF lib] by (rule keepsD)
  moreover have "exec (boot E) w = (if result (modem_lib_init E) w \<noteq> 0 then exec (modem_lib_init E) w
      else exec rest (exec (watchdog_init E) (exec (modem_lib_init E) w)))"
    "result (boot E) w = None \<Longrightarrow> result (modem_lib_init E) w = 0"
    by (simp_all add: boot_def boot_peripherals_def rest_def run_simps split: if_splits)
  ultimately show ?thesis using lib by (simp add: placed_def)
qed

lemma main_places:
  assumes "well_placed (crumbs w)"
  shows "well_placed (crumbs (exec (main n fuel E) w))"
proof -
  have "keeps (placed UNIV) (cycles n fuel E r)" for r
    by (rule keeps_cycles) (rule placed_cycle)
  moreover have "placed UNIV (exec (boot E) w)" if "result (boot E) w = None"
    using boot_places [OF assms] that placed_mono by blast
  ultimately show ?thesis
    using boot_places [OF assms] by (auto simp: main_def run_simps keeps_def placed_def split: option.split)
qed

end

section \<open>The firmware's handlers\<close>

text \<open>They neither read nor change what was recorded.\<close>

lemma api_crumbs:
  "advances (same crumbs) (api (isr_env E) c)" "advances (same crumbs) (api_do (isr_env E) c)"
  by (intro advances_api_same; simp add: api_simps)+

lemma handler_crumbs: "advances (same crumbs) (handler (isr_env E) i)"
  unfolding handler_def handler_defs
  by (intro advances_rules api_crumbs; simp add: same_def)

lemma intr_keeps_crumbs: "crumbs (intr (tracker_env C S R when_int) c w) = crumbs w"
proof -
  have "crumbs (fold (deliver E) is w) = crumbs w" for E :: "('a crumb_state_scheme) env" and "is" w
    by (induction "is" arbitrary: w) (simp_all add: deliver_def advances_sameD [OF handler_crumbs])
  then show ?thesis by simp
qed

interpretation crumbed: crumb_runtime "traced (tracker_env C S R when_int)" for C S R when_int
proof
  fix c and w :: "'a crumb_state_scheme"
  let ?E = "tracker_env C S R when_int :: ('a crumb_state_scheme) env"
  show "\<exists>es. hist (intr (traced ?E) c w) = es @ hist w \<and> (\<forall>e \<in> set es. ev_isr e)"
    using tracker.intr_appends [of C S R when_int c w] by (simp add: traced_simps)
  show "crumbs (intr (traced ?E) c w) = (phase_magic w, phase_current w, c) # crumbs w"
    "phase_magic (intr (traced ?E) c w) = phase_magic w" "phase_current (intr (traced ?E) c w) = phase_current w"
    by (simp_all add: traced_simps intr_keeps_crumbs tracker_owned del: tracker_env_simps(5))
qed

end
