(* ===== verification/Longest_Silence.thy ===== *)
theory Longest_Silence
  imports Silence
begin

text \<open>
  How long the tracker can go without a report: the threshold for a reboot, and the longest cycle.  The
  times of the functions are those of Timing; the time of the last report never goes back.
\<close>

section \<open>The longest cycle\<close>

definition report_ms :: "config \<Rightarrow> nat \<Rightarrow> nat \<Rightarrow> nat" where
  "report_ms C q s = modem_time_ms C q + 14 * s + 76 * q"

text \<open>One pass of the frequent loop, and a cycle with at most \<open>n\<close> of them.\<close>

definition pass_ms :: "config \<Rightarrow> nat \<Rightarrow> nat \<Rightarrow> nat" where
  "pass_ms C q s = TRACKER_CHARGING_INTERVAL_SECONDS C * 1000 + 10000 + report_ms C q s + 14 * q"

definition cycle_ms :: "config \<Rightarrow> nat \<Rightarrow> nat \<Rightarrow> nat \<Rightarrow> nat" where
  "cycle_ms C q s n = TRACKER_LTE_CONNECT_TIMEOUT_SECONDS C * 1000 + TRACKER_GNSS_EXT_WARMUP_MS C + acquire_ms C +
     TRACKER_GNSS_EXTRA_FIX_SECONDS C * 1000 + TRACKER_SLEEP_SECONDS C * 1000 + 6200 +
     modem_time_ms C q + report_ms C q s + n * pass_ms C q s + 12 * s + 210 * q"

context timed_runtime begin

lemma costs_guard [costs_rules]:
  "costs (2 * q) (watchdog_guard_start E b)" "costs (2 * q) (watchdog_guard_stop E)"
  unfolding watchdog_guard_start_def watchdog_guard_stop_def
  by ((rule costs_mono, (rule costs_rules | (simp add: call_times; fail))+)[1])+

lemma costs_fetch [costs_rules]: "costs (2 * s + 20 * q) (agnss_fetch_and_inject E)"
  unfolding agnss_fetch_and_inject_def Let_def
  by (rule costs_mono, (rule costs_rules | (simp add: call_times; fail))+)

lemma costs_cold_start [costs_rules]:
  "costs (TRACKER_AGNSS_PROACTIVE_WAIT_SECONDS (cfg E) * 1000 + 2 * s + 21 * q) (cold_start_assist E b)"
  unfolding cold_start_assist_def
  by (rule costs_mono, (rule costs_rules | (simp add: call_times; fail))+)

lemma costs_window:
  assumes "\<And>fx. costs b (f fx)"
  shows "costs (fix_window (cfg E) * 1000 + 4 * q + b) (gnss_fix_timeout_seconds E \<bind> (\<lambda>t. wait_fix_opt E t \<bind> f))"
proof -
  have "costs (fix_window (cfg E) * 1000 + 4 * q + b) ((gnss_fix_timeout_seconds E \<bind> wait_fix_opt E) \<bind> f)"
    by (rule costs_bind [OF costs_gnss_fix assms])
  then show ?thesis by (simp add: costs_def run_simps)
qed

lemma costs_fallback [costs_rules]:
  "costs (TRACKER_AGNSS_PROACTIVE_WAIT_SECONDS (cfg E) * 1000 + fix_window (cfg E) * 1000 + 2 * s + 35 * q) (fallback_fix E a)"
  unfolding fallback_fix_def
  by (rule costs_mono, (rule costs_window | rule costs_rules | (simp add: call_times; fail))+)

lemma costs_last_resort [costs_rules]:
  "costs (TRACKER_AGNSS_FIX_TIMEOUT_SECONDS (cfg E) * 1000 + 2 * s + 24 * q) (last_resort_fix E)"
  unfolding last_resort_fix_def
  by (rule costs_mono, (rule costs_rules | (simp add: call_times; fail))+)

lemma costs_acquire [costs_rules]: "costs (acquire_ms (cfg E) + 6 * s + 85 * q) (acquire_fix E)"
  unfolding acquire_fix_def Let_def
  by (rule costs_mono, (rule costs_window | rule costs_rules | (simp add: call_times; fail))+) (simp add: acquire_ms_def)

lemma costs_send [costs_rules]: "costs (modem_time_ms (cfg E) q + 13 * s + 46 * q) (send_payload E m)"
  unfolding send_payload_def
  by (rule costs_mono, (rule costs_rules | (simp add: call_times; fail))+)

lemma costs_report_fix: "costs (modem_time_ms (cfg E) q + 14 * s + 54 * q) (report_fix E fx t r)"
  unfolding report_fix_def
  by (rule costs_mono, (rule costs_rules | (simp add: call_times; fail))+)

lemma costs_outcome [costs_rules]: "costs (report_ms (cfg E) q s) (report_outcome E fx t r)"
proof -
  have "costs (modem_time_ms (cfg E) q + 14 * s + 54 * q + 22 * q) (report_outcome E fx t r)"
    unfolding report_outcome_def
    by (cases fx; simp only: option.case; intro costs_bind costs_ignore costs_when_do costs_report_fix costs_status)
  then show ?thesis by (rule costs_mono) (simp add: report_ms_def)
qed

lemma costs_first [costs_rules]:
  "costs (TRACKER_GNSS_EXTRA_FIX_SECONDS (cfg E) * 1000 + 5000 + report_ms (cfg E) q s + 6 * q) (first_report E fx t r)"
  unfolding first_report_def
  by (rule costs_mono, (rule costs_rules | (simp add: call_times; fail))+)

lemma costs_body: "costs (pass_ms (cfg E) q s - 5 * q) (frequent_body E t r)"
  unfolding frequent_body_def
  by (rule costs_mono, (rule costs_rules | (simp add: call_times; fail))+) (simp add: pass_ms_def)

lemma costs_loop [costs_rules]: "costs (n * pass_ms (cfg E) q s) (frequent_loop n E mc t r)"
proof (induction n)
  case 0
  then show ?case by (simp add: costs_return)
next
  case (Suc n)
  have "costs (5 * q + (0 + (pass_ms (cfg E) q s - 5 * q + n * pass_ms (cfg E) q s))) (frequent_loop (Suc n) E mc t r)"
    unfolding frequent_loop.simps
    by (intro costs_bind costs_status costs_if costs_return costs_body Suc)
  then show ?case by (rule costs_mono) (simp add: pass_ms_def)
qed

lemma costs_frequent [costs_rules]: "costs (n * pass_ms (cfg E) q s + 7 * q) (frequent_reporting n E mc t r)"
  unfolding frequent_reporting_def
  by (rule costs_mono, (rule costs_rules | (simp add: call_times; fail))+)

text \<open>From the check for silence to the end of the sleep.\<close>

lemma costs_tracking [costs_rules]:
  "costs (acquire_ms (cfg E) + TRACKER_GNSS_EXTRA_FIX_SECONDS (cfg E) * 1000 + 5000 + report_ms (cfg E) q s +
     n * pass_ms (cfg E) q s + TRACKER_SLEEP_SECONDS (cfg E) * 1000 + 7 * s + 113 * q) (cycle_tracking n E t r)"
  unfolding cycle_tracking_def
  by (rule costs_mono, (rule costs_rules | (simp add: call_times; fail))+)

lemma costs_online: "costs (cycle_ms (cfg E) q s n - TRACKER_LTE_CONNECT_TIMEOUT_SECONDS (cfg E) * 1000 -
     1200 - 2 * s - 30 * q) (cycle_online n E t r)"
proof -
  let ?T = "acquire_ms (cfg E) + TRACKER_GNSS_EXTRA_FIX_SECONDS (cfg E) * 1000 + 5000 + report_ms (cfg E) q s +
     n * pass_ms (cfg E) q s + TRACKER_SLEEP_SECONDS (cfg E) * 1000 + 7 * s + 113 * q"
  have "costs (s + q + (TRACKER_SLEEP_SECONDS (cfg E) * 1000 + 11 * q)) (do { cloud_pause E; sleep_until_wake E })"
    by (intro costs_bind costs_cloud costs_sleep)
  then have "costs ?T (do { cloud_pause E; sleep_until_wake E })" by (rule costs_mono) simp
  then have "costs ?T (if err \<noteq> 0 then do { cloud_pause E; sleep_until_wake E } else cycle_tracking n E t r)" for err :: int
    by (intro costs_either costs_tracking)
  note rest = this
  show ?thesis
    unfolding cycle_online_def
    by (rule costs_mono, (rule rest | rule costs_rules | (simp add: call_times; fail))+) (simp add: cycle_ms_def)
qed

text \<open>Boot, which starts the watchdog, call by call.\<close>

lemma elapsed_call: "elapsed (hist (exec (api E c) w)) \<le> elapsed (hist w) + time_limit q s c"
proof -
  obtain es where es: "hist (intr E c w) = es @ hist w" "\<forall>e \<in> set es. ev_isr e"
    using intr_appends by blast
  moreover have "took (result (api E c) w) \<le> time_limit q s c"
    using prompt by (simp add: prompt_def result_api)
  ultimately show ?thesis using main_thread by (simp add: hist_api elapsed_append elapsed_isr)
qed

lemma costs_elapsed: "costs T m \<Longrightarrow> elapsed (hist (exec m w)) \<le> elapsed (hist w) + T"
  unfolding costs_def by (metis add.commute add_le_cancel_left elapsed_append)

lemma boot_elapsed: "elapsed (hist (exec (boot E) w)) \<le> elapsed (hist w) + 2 * s + 60 * q"
proof -
  define rest where "rest = do {
     api_do E (Modem Modem_info_init);
     ignore (power_init E);
     ignore (motion_init E);
     ignore (status_led_init E);
     err2 \<leftarrow> gnss_init E;
     if err2 \<noteq> 0 then return (Some (- EIO)) else boot_network E }"
  define v where "v = exec (modem_lib_init E) w"
  define u where "u = exec (watchdog_init E) v"
  have "costs (2 * q) (modem_lib_init E)"
    unfolding modem_lib_init_def on_modem_lib_init_def
    by (rule costs_mono, (rule costs_rules | (simp add: call_times; fail))+)
  then have v: "elapsed (hist v) \<le> elapsed (hist w) + 2 * q" unfolding v_def by (rule costs_elapsed)
  define pre where "pre = do { phase_init; api_flag E (Kern (Device_is_ready Dev_wdt)) }"
  have pre: "costs q pre"
    unfolding pre_def phase_init_def
    by (rule costs_mono, (rule costs_rules | (simp add: call_times; fail))+)
  define install where "install = api E (Kern (Wdt_install_timeout (WDT_TIMEOUT_MS (cfg E))))"
  define ch where "ch = rc (result install (exec pre v))"
  define set where "set = (exec install (exec pre v))\<lparr>wdt_channel := ch\<rparr>"
  have "hist u \<in> {hist (exec pre v), hist set, hist (exec (api E (Kern Wdt_setup)) set)}"
    by (simp add: u_def watchdog_init_def pre_def install_def ch_def set_def run_simps)
  moreover have "elapsed (hist (exec pre v)) \<le> elapsed (hist v) + q" using pre by (rule costs_elapsed)
  moreover have "elapsed (hist set) \<le> elapsed (hist (exec pre v)) + q"
    using elapsed_call [of "Kern (Wdt_install_timeout (WDT_TIMEOUT_MS (cfg E)))" "exec pre v"]
    by (simp add: set_def install_def call_times)
  moreover have "elapsed (hist (exec (api E (Kern Wdt_setup)) set)) \<le> elapsed (hist set) + q"
    using elapsed_call [of "Kern Wdt_setup" set] by (simp add: call_times)
  ultimately have u: "elapsed (hist u) \<le> elapsed (hist v) + 3 * q" by auto
  have "costs (2 * s + 55 * q) rest"
    unfolding rest_def by (rule costs_mono, (rule costs_rules | (simp add: call_times; fail))+)
  then have "elapsed (hist (exec rest u)) \<le> elapsed (hist u) + (2 * s + 55 * q)"
    by (rule costs_elapsed)
  moreover have "exec (boot E) w = (if result (modem_lib_init E) w \<noteq> 0 then v else exec rest u)"
    by (simp add: boot_def boot_peripherals_def rest_def u_def v_def run_simps)
  ultimately show ?thesis using u v by simp
qed

end

section \<open>The time of the last report\<close>

text \<open>The last report is the one it was, or was made meanwhile.\<close>

definition heard :: "'a tracker_state_scheme \<Rightarrow> 'a tracker_state_scheme \<Rightarrow> bool" where
  "heard w w' \<longleftrightarrow> elapsed (hist w) \<le> elapsed (hist w') \<and>
     (last_send_uptime w' = last_send_uptime w \<or> int (elapsed (hist w)) \<le> last_send_uptime w')"

lemma heard_order [simp]: "reflp heard" "transp heard"
  by (auto simp: heard_def reflp_def transp_def)

lemma unreported_heard: "advances unreported m \<Longrightarrow> advances heard m"
  by (auto simp: advances_def unreported_def heard_def)

lemma heard_silence:
  assumes "heard w w'" "elapsed (hist w') \<le> elapsed (hist w) + T"
  shows "int (elapsed (hist w')) - last_send_uptime w' \<le>
    max 0 (int (elapsed (hist w)) - last_send_uptime w) + int T"
  using assms by (auto simp: heard_def)

context tracker_runtime begin

lemma heard_report:
  assumes "clock_sound (reply E)" "\<not> in_isr E"
  shows "advances heard (report_fix E fx t r)"
proof -
  have "heard w (exec (report_fix E fx t r) w)" for w
    using report_fix_sent(1) [OF assms, of fx t r w] report_fix_failed [of fx t r w]
      elapsed_rx [OF report_fix_rx, of w fx t r]
    by (cases "result (report_fix E fx t r) w = 0") (simp_all add: heard_def)
  then show ?thesis by (simp add: advances_def)
qed

text \<open>The sleep reports nothing.\<close>

lemma unreported_sleep [advances_rules]: "advances unreported (sleep_until_wake E)"
  unfolding sleep_until_wake_def battery_sleep_def wake_wait_def wake_take_def atomic_defs
  by (intro advances_rules; simp add: unreported_def)

lemmas heard_leaves = unreported_leaves [THEN unreported_heard] unreported_cloud [THEN unreported_heard]
  unreported_receivers [THEN unreported_heard] unreported_cycle_parts [THEN unreported_heard]
  unreported_fix [THEN unreported_heard] unreported_sleep [THEN unreported_heard]

lemma heard_rest:
  assumes "clock_sound (reply E)" "\<not> in_isr E"
  shows "advances heard (do {
     online \<leftarrow> cycle_network E;
     if \<not> online then do { status_led_set E TRACKER_STATUS_NO_LTE; sleep_until_wake E }
     else cycle_online n E t r })"
proof -
  have api: "advances heard (api_do E c)" for c
    by (rule unreported_heard) (rule unreported_api)
  have outcome: "advances heard (report_outcome E fx t r)" for fx
    unfolding report_outcome_def by (intro advances_rules heard_leaves heard_report assms; simp)
  have body: "advances heard (frequent_body E t r)"
    unfolding frequent_body_def
    by (intro advances_rules heard_leaves outcome api; simp add: heard_def)
  have "advances heard (frequent_loop n E mc t r)" for mc
    by (induction n) (simp_all add: advances_return advances_bind advances_if body heard_leaves)
  then show ?thesis
    unfolding cycle_online_def cycle_tracking_def first_report_def frequent_reporting_def
    by (intro advances_rules heard_leaves outcome; simp)
qed

end

context timed_runtime begin

text \<open>A cycle that sleeps found a silence below the threshold, and adds its own time at most.\<close>

lemma cycle_silence:
  assumes "clock_sound (reply E)" "\<not> TRACKER_SKIP_LTE (cfg E)"
    and "0 < TRACKER_MODEM_RECOVERY_MINUTES (cfg E)"
    and "TRACKER_MODEM_RECOVERY_MINUTES (cfg E) \<le> TRACKER_REBOOT_MINUTES (cfg E)"
    and "result (cycle n E r) w = Slept r'"
  shows "int (elapsed (hist (exec (cycle n E r) w))) - last_send_uptime (exec (cycle n E r) w) \<le>
    int (TRACKER_REBOOT_MINUTES (cfg E)) * 60000 + int (cycle_ms (cfg E) q s n)"
proof -
  define t where "t = to_u32 (result (k_uptime_get E) w)"
  define pre where "pre = do {
     now \<leftarrow> k_uptime_get E;
     when_do (r = TRACKER_WAKE_VBUS) (modify (\<lambda>w. w\<lparr>battery_sleeps := 0\<rparr>));
     watchdog_phase TRACKER_PHASE_WAKE;
     watchdog_feed E }"
  define v where "v = exec pre w"
  define u where "u = exec (recover_if_silent E) v"
  define rest where "rest = do {
     online \<leftarrow> cycle_network E;
     if \<not> online then do { status_led_set E TRACKER_STATUS_NO_LTE; sleep_until_wake E }
     else cycle_online n E t r }"
  have run: "result (cycle n E r) w = (if result (recover_if_silent E) v then Rebooted else result rest u)"
    "exec (cycle n E r) w = (if result (recover_if_silent E) v then u else exec rest u)"
    using assms(2) by (simp_all add: cycle_def pre_def rest_def v_def u_def t_def Let_def run_simps)
  then have stay: "\<not> result (recover_if_silent E) v" using assms(5) by auto
  have "int (elapsed (hist v)) \<le> result (k_uptime_get E) v" by (rule uptime_elapsed [OF assms(1)])
  then have quiet: "int (elapsed (hist v)) - last_send_uptime v < int (TRACKER_REBOOT_MINUTES (cfg E)) * 60000"
    using stay by (simp add: recover_reboots [OF assms(3,4)] silence_ms_def)
  have "heard v u" unfolding u_def by (rule advancesD) (rule heard_leaves)
  moreover have "heard u (exec rest u)" unfolding rest_def by (rule advancesD) (rule heard_rest [OF assms(1) main_thread])
  ultimately have heard: "heard v (exec rest u)" using heard_order(2) by (meson transpD)
  have "costs (2 * s + 1200 + 4 * q) (recover_if_silent E)" by (rule costs_rules)
  then have u: "elapsed (hist u) \<le> elapsed (hist v) + (2 * s + 1200 + 4 * q)"
    unfolding u_def by (rule costs_elapsed)
  let ?X = "cycle_ms (cfg E) q s n - TRACKER_LTE_CONNECT_TIMEOUT_SECONDS (cfg E) * 1000 - 1200 - 2 * s - 30 * q"
  have "costs (6 * q + (TRACKER_SLEEP_SECONDS (cfg E) * 1000 + 11 * q)) (do { status_led_set E TRACKER_STATUS_NO_LTE; sleep_until_wake E })"
    by (intro costs_bind costs_board costs_sleep)
  then have "costs ?X (do { status_led_set E TRACKER_STATUS_NO_LTE; sleep_until_wake E })"
    by (rule costs_mono) (simp add: cycle_ms_def)
  then have "costs (TRACKER_LTE_CONNECT_TIMEOUT_SECONDS (cfg E) * 1000 + 4 * q + ?X) rest"
    unfolding rest_def by (intro costs_bind costs_network costs_either costs_online)
  then have "costs (cycle_ms (cfg E) q s n - 1200 - 2 * s - 4 * q) rest"
    by (rule costs_mono) (simp add: cycle_ms_def)
  then have "elapsed (hist (exec rest u)) \<le> elapsed (hist u) + (cycle_ms (cfg E) q s n - 1200 - 2 * s - 4 * q)"
    by (rule costs_elapsed)
  moreover have "1200 + 2 * s + 4 * q \<le> cycle_ms (cfg E) q s n" by (simp add: cycle_ms_def)
  ultimately have "elapsed (hist (exec rest u)) \<le> elapsed (hist v) + cycle_ms (cfg E) q s n"
    using u by linarith
  from heard_silence [OF heard this] quiet stay run(2) show ?thesis by simp
qed

lemma cycles_silence:
  assumes "clock_sound (reply E)" "\<not> TRACKER_SKIP_LTE (cfg E)"
    and "0 < TRACKER_MODEM_RECOVERY_MINUTES (cfg E)"
    and "TRACKER_MODEM_RECOVERY_MINUTES (cfg E) \<le> TRACKER_REBOOT_MINUTES (cfg E)"
    and "result (cycles n fuel E r) w = Slept r'"
    and "int (elapsed (hist w)) - last_send_uptime w \<le>
      int (TRACKER_REBOOT_MINUTES (cfg E)) * 60000 + int (cycle_ms (cfg E) q s fuel)"
  shows "int (elapsed (hist (exec (cycles n fuel E r) w))) - last_send_uptime (exec (cycles n fuel E r) w) \<le>
    int (TRACKER_REBOOT_MINUTES (cfg E)) * 60000 + int (cycle_ms (cfg E) q s fuel)"
  using assms(5,6)
proof (induction n arbitrary: r w)
  case (Suc n)
  then obtain reason where slept: "result (cycle fuel E r) w = Slept reason"
    by (cases "result (cycle fuel E r) w") (simp_all add: run_simps)
  with Suc show ?case
    using cycle_silence [OF assms(1-4) slept] by (simp add: run_simps)
qed simp

lemma main_silence:
  assumes "clock_sound (reply E)" "\<not> TRACKER_SKIP_LTE (cfg E)"
    and "0 < TRACKER_MODEM_RECOVERY_MINUTES (cfg E)"
    and "TRACKER_MODEM_RECOVERY_MINUTES (cfg E) \<le> TRACKER_REBOOT_MINUTES (cfg E)"
    and "result (main n fuel E) w = Inr (Slept r')" "hist w = []" "last_send_uptime w = 0"
  shows "int (elapsed (hist (exec (main n fuel E) w))) - last_send_uptime (exec (main n fuel E) w) \<le>
    int (TRACKER_REBOOT_MINUTES (cfg E)) * 60000 + int (cycle_ms (cfg E) q s fuel)"
proof -
  let ?v = "exec (boot E) w"
  have booted: "result (boot E) w = None" "result (cycles n fuel E TRACKER_WAKE_BOOT) ?v = Slept r'"
    "exec (main n fuel E) w = exec (cycles n fuel E TRACKER_WAKE_BOOT) ?v"
    using assms(5) by (auto simp: main_def run_simps split: option.splits)
  have boot: "2 * s + 60 * q \<le> cycle_ms (cfg E) q s fuel" by (simp add: cycle_ms_def)
  have "unreported w ?v" by (rule advancesD) (rule unreported_boot)
  then have "int (elapsed (hist ?v)) - last_send_uptime ?v \<le> int (cycle_ms (cfg E) q s fuel)"
    using boot_elapsed [of w] assms(6,7) boot by (simp add: unreported_def)
  then show ?thesis
    using cycles_silence [OF assms(1-4) booted(2)] booted(3) by simp
qed

end

end
