(* ===== verification/Good_Conditions.thy ===== *)
theory Good_Conditions
  imports Longest_Silence
begin

text \<open>
  A tracker for which everything works: the network registers it, a receiver gets its fixes, the cloud
  takes its reports.  Every cycle then reports, so that the silence stays below a sleep and a report.
  For that a payload has to fit its buffer, which it does if the fixes are in the ranges that the
  receivers report in.
\<close>

section \<open>Fixes in range\<close>

definition fix_ok :: "tracker_fix \<Rightarrow> bool" where
  "fix_ok f \<longleftrightarrow> \<bar>longitude f\<bar> \<le> 180 \<and> \<bar>latitude f\<bar> \<le> 90 \<and> 0 \<le> hdop f \<and> hdop f \<le> 999"

text \<open>What the modem and the module report.\<close>

definition sources_ok :: "config \<Rightarrow> sdk_consts \<Rightarrow> (event list \<Rightarrow> call \<Rightarrow> resp) \<Rightarrow> schedule \<Rightarrow> bool" where
  "sources_ok C S R when_int \<longleftrightarrow>
     (\<forall>h. fix_ok (modem_fix S (pvt (R h (Modem (Gnss_read NRF_MODEM_GNSS_DATA_PVT)))))) \<and>
     (\<forall>h c d. Int_gnss_data d \<in> set (when_int h c) \<longrightarrow> fix_ok (ext_fix C S d))"

text \<open>The last data of both receivers, if their sources are in range.\<close>

definition data_ok :: "bool \<Rightarrow> sdk_consts \<Rightarrow> 'a tracker_state_scheme \<Rightarrow> bool" where
  "data_ok G S w \<longleftrightarrow> (G \<longrightarrow> fix_ok (modem_fix S (last_pvt w)) \<and> fix_ok (last_fix w))"

lemma data_ok_hist [simp]: "data_ok G S (w\<lparr>hist := h\<rparr>) = data_ok G S w"
  by (simp add: data_ok_def)

locale data_runtime = tracker_runtime E for E :: "('a tracker_state_scheme) env" +
  fixes G :: bool
  assumes intr_data: "data_ok G (sdk E) w \<Longrightarrow> data_ok G (sdk E) (intr E c w)"
begin

lemma data_calls [hoare_rules]:
  "keeps (data_ok G (sdk E)) (api E c)" "keeps (data_ok G (sdk E)) (api_rc E c)"
  "keeps (data_ok G (sdk E)) (api_flag E c)" "keeps (data_ok G (sdk E)) (api_do E c)"
proof -
  have "keeps (data_ok G (sdk E)) (api E c)" by (rule keeps_api) (simp_all add: intr_data)
  then show "keeps (data_ok G (sdk E)) (api E c)" "keeps (data_ok G (sdk E)) (api_rc E c)"
    "keeps (data_ok G (sdk E)) (api_flag E c)" "keeps (data_ok G (sdk E)) (api_do E c)"
    by (simp_all add: keeps_api_variants)
qed

lemma data_time_loop [hoare_rules]: "keeps (data_ok G (sdk E)) (modem_time_loop E waited)"
proof (induction "TRACKER_MODEM_TIME_WAIT_SECONDS (cfg E) - waited" arbitrary: waited rule: less_induct)
  case less
  show ?case
    by (subst modem_time_loop.simps)
       (intro hoare_rules less; simp add: data_ok_def watchdog_feed_def hoare_rules MODEM_TIME_POLL_S_def)
qed

lemma data_board [hoare_rules]:
  "keeps (data_ok G (sdk E)) (k_uptime_get E)" "keeps (data_ok G (sdk E)) (watchdog_feed E)"
  "keeps (data_ok G (sdk E)) (watchdog_phase p)" "keeps (data_ok G (sdk E)) (watchdog_guard_start E b)"
  "keeps (data_ok G (sdk E)) (watchdog_guard_stop E)" "keeps (data_ok G (sdk E)) (power_vbus_present E)"
  "keeps (data_ok G (sdk E)) (power_read E)" "keeps (data_ok G (sdk E)) (motion_last_event_uptime E)"
  "keeps (data_ok G (sdk E)) (motion_set_armed E arm)" "keeps (data_ok G (sdk E)) (wake_wait E t)"
  "keeps (data_ok G (sdk E)) (status_led_set E st)" "keeps (data_ok G (sdk E)) (status_led_pattern E pat)"
  "keeps (data_ok G (sdk E)) (status_led_sleep E)" "keeps (data_ok G (sdk E)) (lte_is_registered E)"
  "keeps (data_ok G (sdk E)) (lte_ensure_connected E)"
  unfolding board_defs watchdog_feed_def motion_set_armed_def
  by (intro hoare_rules; simp add: data_ok_def)+

lemma data_cloud [hoare_rules]:
  "keeps (data_ok G (sdk E)) (cloud_send_telemetry E m)" "keeps (data_ok G (sdk E)) (cloud_send_location E f)"
  "keeps (data_ok G (sdk E)) (cloud_is_ready E)" "keeps (data_ok G (sdk E)) (cloud_resume E)"
  "keeps (data_ok G (sdk E)) (cloud_pause E)"
  unfolding send_defs link_defs
  by (intro hoare_rules; simp add: data_ok_def)+

lemma data_receivers [hoare_rules]:
  "keeps (data_ok G (sdk E)) (gnss_start E)" "keeps (data_ok G (sdk E)) (gnss_stop E)"
  "keeps (data_ok G (sdk E)) (gnss_fallback E)" "keeps (data_ok G (sdk E)) (gnss_fallback_available E)"
  "keeps (data_ok G (sdk E)) (gnss_fix_timeout_seconds E)" "keeps (data_ok G (sdk E)) (gnss_agnss_request_wait E t)"
  "keeps (data_ok G (sdk E)) (gnss_wait_fix E t)" "keeps (data_ok G (sdk E)) (agnss_fetch_and_inject E)"
  "keeps (data_ok G (sdk E)) (agnss_wanted E)"
  unfolding receiver_defs assist_defs
  by (intro hoare_rules; simp add: data_ok_def)+

lemma data_main [hoare_rules]:
  "keeps (data_ok G (sdk E)) (vbus_or_surge E mc)" "keeps (data_ok G (sdk E)) (status_led_report E b)"
  "keeps (data_ok G (sdk E)) (collect_telemetry E fx t r)" "keeps (data_ok G (sdk E)) (telemetry_build_json E tm n)"
  "keeps (data_ok G (sdk E)) (recover_if_silent E)" "keeps (data_ok G (sdk E)) (settle_fix E f)"
  "keeps (data_ok G (sdk E)) (wait_fix_opt E n')" "keeps (data_ok G (sdk E)) (cycle_network E)"
  "keeps (data_ok G (sdk E)) (send_payload E s)" "keeps (data_ok G (sdk E)) (sleep_until_wake E)"
  unfolding report_defs recover_if_silent_def send_payload_def sleep_until_wake_def battery_sleep_def
  by (intro hoare_rules; simp add: data_ok_def)+

lemma data_fix [hoare_rules]:
  "keeps (data_ok G (sdk E)) (cold_start_assist E b)" "keeps (data_ok G (sdk E)) (fallback_fix E a)"
  "keeps (data_ok G (sdk E)) (last_resort_fix E)" "keeps (data_ok G (sdk E)) (acquire_fix E)"
  unfolding fix_defs by (intro hoare_rules)+

lemma data_report [hoare_rules]:
  "keeps (data_ok G (sdk E)) (report_outcome E fx t r)" "keeps (data_ok G (sdk E)) (frequent_body E t r)"
  unfolding report_outcome_def report_fix_def frequent_body_def
  by (intro hoare_rules; simp add: data_ok_def)+

lemma data_loop [hoare_rules]: "keeps (data_ok G (sdk E)) (frequent_loop n E mc t r)"
  by (induction n) (simp_all, (intro hoare_rules; assumption)+)

lemma data_cycle [hoare_rules]: "keeps (data_ok G (sdk E)) (cycle n E r)"
  unfolding cycle_def cycle_online_def cycle_tracking_def first_report_def frequent_reporting_def Let_def
  by (intro hoare_rules; simp add: data_ok_def)

lemma data_boot [hoare_rules]: "keeps (data_ok G (sdk E)) (boot E)"
  unfolding boot_def boot_defs cloud_init_defs by (intro hoare_rules; simp add: data_ok_def)

end

section \<open>When everything works\<close>

definition in_coverage :: "(event list \<Rightarrow> call \<Rightarrow> resp) \<Rightarrow> bool" where
  "in_coverage R \<longleftrightarrow> (\<forall>h. rc (R h (Modem Lte_lc_nw_reg_status_get)) = 0 \<and>
     registered (reg_status (R h (Modem Lte_lc_nw_reg_status_get))))"

definition receivers_fix :: "(event list \<Rightarrow> call \<Rightarrow> resp) \<Rightarrow> bool" where
  "receivers_fix R \<longleftrightarrow> (\<forall>h. rc (R h (Modem Gnss_start)) = 0) \<and>
     (\<forall>h t. rc (R h (Kern (K_sem_take Fix_sem_modem t))) = 0 \<and> rc (R h (Kern (K_sem_take Fix_sem_ext t))) = 0)"

text \<open>nRF Cloud, with identifiers that leave room for a payload, or Hologram, with a key.\<close>

definition nrf_accepts :: "config \<Rightarrow> sdk_consts \<Rightarrow> (event list \<Rightarrow> call \<Rightarrow> resp) \<Rightarrow> bool" where
  "nrf_accepts C S R \<longleftrightarrow>
     (\<forall>h m. rc (R h (Cloud (Coap_json_message_send m))) = 0) \<and> (\<forall>h. \<bar>i64 (R h (Cloud Date_time_now))\<bar> < 10 ^ 19) \<and>
     length (TRACKER_NRF_CLOUD_APP_ID C) + length (NRF_CLOUD_JSON_APPID_KEY S) +
       length (NRF_CLOUD_JSON_MSG_TYPE_KEY S) + length (NRF_CLOUD_JSON_MSG_TYPE_VAL_DATA S) +
       length (NRF_CLOUD_MSG_TIMESTAMP_KEY S) + length (NRF_CLOUD_JSON_DATA_KEY S) < 88"

definition hologram_accepts :: "config \<Rightarrow> (event list \<Rightarrow> call \<Rightarrow> resp) \<Rightarrow> bool" where
  "hologram_accepts C R \<longleftrightarrow> HOLOGRAM_DEVICE_KEY C \<noteq> ''CHANGEME'' \<and>
     (\<forall>h. flag (R h (Net CJSON_CreateObject)) \<and> flag (R h (Net CJSON_CreateArray)) \<and>
        (\<forall>k m. flag (R h (Net (CJSON_AddStringToObject k m)))) \<and> (\<forall>n. flag (R h (Net (CJSON_PrintPreallocated n)))) \<and>
        (\<forall>n. rc (R h (Net (Getaddrinfo n))) = 0 \<and> flag (R h (Net (Getaddrinfo n)))) \<and>
        0 \<le> rc (R h (Net Socket)) \<and> (\<forall>fd p. rc (R h (Net (Connect fd p))) = 0) \<and>
        (\<forall>fd m. 0 \<le> rc (R h (Net (Send fd m)))) \<and>
        (\<forall>fd n. 0 < rc (R h (Net (Recv fd n))) \<and>
           occurs ''[0,0]'' (reply_text (rc (R h (Net (Recv fd n)))) (text_out (R h (Net (Recv fd n)))))))"

definition cloud_accepts :: "config \<Rightarrow> sdk_consts \<Rightarrow> (event list \<Rightarrow> call \<Rightarrow> resp) \<Rightarrow> bool" where
  "cloud_accepts C S R = (case TRACKER_CLOUD_PROVIDER C of NrfCloud \<Rightarrow> nrf_accepts C S R | HologramCloud \<Rightarrow> hologram_accepts C R)"

text \<open>All of it, with a clock that runs, a signal strength in range and version strings of a usual length.\<close>

definition works :: "config \<Rightarrow> sdk_consts \<Rightarrow> (event list \<Rightarrow> call \<Rightarrow> resp) \<Rightarrow> bool" where
  "works C S R \<longleftrightarrow> clock_sound R \<and> in_coverage R \<and> receivers_fix R \<and> cloud_accepts C S R \<and>
     (\<forall>h. \<bar>val1 (R h (Modem Modem_info_get_rsrp))\<bar> < 1000) \<and>
     length (TRACKER_BUILD_STAMP C) + length (TRACKER_HW_REVISION C) \<le> 71"

context tracker_runtime begin

lemma registers: "in_coverage (reply E) \<Longrightarrow> result (cycle_network E) w"
  by (simp add: in_coverage_def cycle_network_def lte_ensure_connected_def lte_is_registered_def run_simps result_api)

lemma starts: "receivers_fix (reply E) \<Longrightarrow> result (gnss_start E) w = 0"
  by (simp add: receivers_fix_def gnss_start_def gnss_start_modem_def gnss_modem_start_def run_simps result_api)

lemma sends:
  assumes "cloud_accepts (cfg E) (sdk E) (reply E)" "length m < 256"
  shows "result (send_payload E m) w = 0"
proof -
  have "result (cloud_send_telemetry E m) w = 0"
  proof (cases "TRACKER_CLOUD_PROVIDER (cfg E)")
    case NrfCloud
    then have ok: "nrf_accepts (cfg E) (sdk E) (reply E)" using assms(1) by (simp add: cloud_accepts_def)
    have "\<not> ENVELOPE_MAX \<le> length (device_message (cfg E) (sdk E) None m)"
      "\<not> ENVELOPE_MAX \<le> length (device_message (cfg E) (sdk E) (Some (i64 (reply E h (Cloud Date_time_now)))) m)" for h
      using ok assms(2) device_message_length [of "i64 (reply E h (Cloud Date_time_now))" None "cfg E" "sdk E" m]
        device_message_length [of "i64 (reply E h (Cloud Date_time_now))" "Some (i64 (reply E h (Cloud Date_time_now)))" "cfg E" "sdk E" m]
      by (simp_all add: nrf_accepts_def ENVELOPE_MAX_def)
    then show ?thesis
      using NrfCloud ok
      by (simp add: cloud_send_telemetry_def cloud_nrf_send_telemetry_def run_simps Let_def snprintf_def result_api
          nrf_accepts_def normalize_def)
  next
    case HologramCloud
    then have ok: "hologram_accepts (cfg E) (reply E)" using assms(1) by (simp add: cloud_accepts_def)
    have neg: "\<not> rc (reply E h (Net (Send fd m))) < 0" "\<not> rc (reply E h (Net Socket)) < 0" for h fd m
      using ok by (simp_all add: hologram_accepts_def not_less)
    have "result (exchange E fd env) w = 0" for fd env w
      using ok neg by (simp add: hologram_accepts_def exchange_def run_simps result_api)
    then have "result (socket_send_envelope E env) w = 0" for env w
      using ok neg by (simp add: hologram_accepts_def socket_send_envelope_def run_simps result_api Let_def)
    then show ?thesis
      using HologramCloud ok
      by (simp add: hologram_accepts_def cloud_send_telemetry_def cloud_hologram_send_telemetry_def hologram_send_def
          build_envelope_def add_strings_def run_simps result_api Let_def)
  qed
  then show ?thesis by (simp add: send_payload_def link_stale_def run_simps EACCES_def ENOTCONN_def)
qed

lemma report_sent:
  assumes "cloud_accepts (cfg E) (sdk E) (reply E)" "fix_ok f"
    and "\<And>h. \<bar>val1 (reply E h (Modem Modem_info_get_rsrp))\<bar> < 1000"
    and "length (TRACKER_BUILD_STAMP (cfg E)) + length (TRACKER_HW_REVISION (cfg E)) \<le> 71"
  shows "result (report_fix E (Some f) t r) w = 0"
proof -
  have tm: "plausible (result (collect_telemetry E (Some f) t r) w)" for w
    using assms(2,3) by (simp add: collect_telemetry_def run_simps plausible_def fix_ok_def result_api)
  have built: "result (telemetry_build_json E (result (collect_telemetry E (Some f) t r) w) 256) v = (n, m) \<Longrightarrow>
      0 \<le> n \<and> length m < 256" for n m v
    using telemetry_json_length [OF tm [of w], of "cfg E" "phase_at_reset v"] assms(4)
    by (auto simp: telemetry_build_json_result Let_def)
  show ?thesis
    by (auto simp: report_fix_def run_simps sends [OF assms(1)] split: prod.split dest: built)
qed

end

section \<open>A cycle that reports\<close>

text \<open>The longest silence then: the sleep, and a first report or a pass of the frequent loop before it.\<close>

definition fresh_ms :: "config \<Rightarrow> nat \<Rightarrow> nat \<Rightarrow> nat" where
  "fresh_ms C q s = TRACKER_SLEEP_SECONDS C * 1000 +
     max (TRACKER_GNSS_EXTRA_FIX_SECONDS C * 1000 + 5000) (TRACKER_CHARGING_INTERVAL_SECONDS C * 1000 + 10000) +
     report_ms C q s + s + 60 * q"

definition unheard :: "'a tracker_state_scheme \<Rightarrow> int" where
  "unheard w = int (elapsed (hist w)) - last_send_uptime w"

lemma quiet_unreported:
  "unreported w w' \<Longrightarrow> elapsed (hist w') \<le> elapsed (hist w) + T \<Longrightarrow> unheard w' \<le> unheard w + int T"
  by (simp add: unreported_def unheard_def)

lemma quiet_heard:
  "int (elapsed (hist w)) \<le> last_send_uptime w' \<Longrightarrow> elapsed (hist w') \<le> elapsed (hist w) + T \<Longrightarrow> unheard w' \<le> int T"
  by (simp add: unheard_def)

locale good_runtime = timed_runtime E q s + data_runtime E G for E :: "('a tracker_state_scheme) env" and q s G
begin

lemma gets_fix:
  assumes "G" "works (cfg E) (sdk E) (reply E)" "data_ok G (sdk E) w"
  shows "\<exists>f. result (wait_fix_opt E t) w = Some f \<and> fix_ok f"
proof -
  have keep: "fix_ok (modem_fix (sdk E) (last_pvt (exec (api E c) v))) \<and> fix_ok (last_fix (exec (api E c) v))"
    "data_ok G (sdk E) (exec (api E c) v)" if "data_ok G (sdk E) v" for c v
    using keepsD [OF data_calls(1) that, of c] assms(1) by (simp_all add: data_ok_def)
  have "receivers_fix (reply E)" using assms(2) by (simp add: works_def)
  then show ?thesis
    using assms(3) keep
    by (simp add: wait_fix_opt_def gnss_wait_fix_def gnss_ext_wait_fix_def gnss_modem_wait_fix_def locked_def
        receivers_fix_def run_simps result_api [of _ "Kern (K_sem_take x y)" for x y])
qed

lemma acquires:
  assumes "G" "works (cfg E) (sdk E) (reply E)" "data_ok G (sdk E) w"
  shows "\<exists>f. result (acquire_fix E) w = Some f \<and> fix_ok f"
proof -
  define v where "v = exec (watchdog_phase TRACKER_PHASE_FIX) (exec (cold_start_assist E True) w)"
  define t where "t = result (gnss_fix_timeout_seconds E) v"
  define u where "u = exec (gnss_fix_timeout_seconds E) v"
  have "data_ok G (sdk E) u"
    unfolding u_def v_def by (intro keepsD [OF data_receivers(5)] keepsD [OF data_board(3)] keepsD [OF data_fix(1)] assms(3))
  then obtain f where "result (wait_fix_opt E t) u = Some f" "fix_ok f"
    using gets_fix [OF assms(1,2)] by blast
  then show ?thesis
    by (simp add: acquire_fix_def Let_def run_simps v_def [symmetric] t_def [symmetric] u_def [symmetric])
qed

text \<open>A report that is sent sets the time of the last one to a time after its beginning.\<close>

lemma outcome_heard:
  assumes "G" "works (cfg E) (sdk E) (reply E)" "fix_ok f"
  shows "int (elapsed (hist w)) \<le> last_send_uptime (exec (report_outcome E (Some f) t r) w)"
proof -
  have "result (report_fix E (Some f) t r) w = 0"
    using assms by (intro report_sent) (simp_all add: works_def)
  then have "int (elapsed (hist w)) \<le> last_send_uptime (exec (report_fix E (Some f) t r) w)"
    using assms(2) by (intro report_fix_sent(1) main_thread) (simp_all add: works_def)
  moreover have "unreported v (exec (status_led_report E True) v)" for v
    by (rule advancesD) (rule unreported_cycle_parts)
  ultimately show ?thesis by (simp add: report_outcome_def run_simps unreported_def)
qed

lemma first_quiet:
  assumes "G" "works (cfg E) (sdk E) (reply E)" "fix_ok f" "data_ok G (sdk E) w"
  shows "unheard (exec (first_report E (Some f) t r) w) \<le>
    int (TRACKER_GNSS_EXTRA_FIX_SECONDS (cfg E) * 1000 + 5000 + report_ms (cfg E) q s + 6 * q)"
proof (rule quiet_heard)
  show "elapsed (hist (exec (first_report E (Some f) t r) w)) \<le> elapsed (hist w) +
      (TRACKER_GNSS_EXTRA_FIX_SECONDS (cfg E) * 1000 + 5000 + report_ms (cfg E) q s + 6 * q)"
    by (rule costs_elapsed) (rule costs_first)
  define g where "g = result (settle_fix E f) w"
  define v where "v = exec (settle_fix E f) w"
  have "data_ok G (sdk E) (exec (api E c) w)" for c by (rule keepsD [OF data_calls(1) assms(4)])
  then obtain b where "result (wait_fix_opt E 5)
      (exec (api E (Kern (K_sleep (TRACKER_GNSS_EXTRA_FIX_SECONDS (cfg E) * 1000)))) w) = Some b" "fix_ok b"
    using gets_fix [OF assms(1,2)] by blast
  then have "fix_ok g"
    using assms(3) by (simp add: g_def settle_fix_def run_simps)
  then have "int (elapsed (hist v)) \<le> last_send_uptime (exec (report_outcome E (Some g) t r) v)"
    by (rule outcome_heard [OF assms(1,2)])
  moreover have "unreported w v" unfolding v_def by (rule advancesD) (rule unreported_cycle_parts)
  moreover have "unreported u (exec (watchdog_feed E) u)" for u by (rule advancesD) (rule unreported_leaves)
  ultimately show "int (elapsed (hist w)) \<le> last_send_uptime (exec (first_report E (Some f) t r) w)"
    by (simp add: first_report_def run_simps g_def [symmetric] v_def [symmetric] unreported_def)
qed

lemma body_quiet:
  assumes "G" "works (cfg E) (sdk E) (reply E)" "data_ok G (sdk E) w"
  shows "unheard (exec (frequent_body E t r) w) \<le> int (pass_ms (cfg E) q s - 5 * q)"
proof (rule quiet_heard)
  show "elapsed (hist (exec (frequent_body E t r) w)) \<le> elapsed (hist w) + (pass_ms (cfg E) q s - 5 * q)"
    by (rule costs_elapsed) (rule costs_body)
  define pre where "pre = do {
     watchdog_phase TRACKER_PHASE_FREQUENT;
     p \<leftarrow> power_vbus_present E;
     when_do p (do { motion_set_armed E False; modify (\<lambda>w. w\<lparr>battery_sleeps := 0\<rparr>) });
     api_do E (Kern (K_sleep (TRACKER_CHARGING_INTERVAL_SECONDS (cfg E) * 1000)));
     watchdog_feed E }"
  define v where "v = exec pre w"
  define u where "u = exec (wait_fix_opt E 10) v"
  have "keeps (data_ok G (sdk E)) pre" unfolding pre_def by (intro hoare_rules) (simp add: data_ok_def)
  then have "data_ok G (sdk E) v" using assms(3) unfolding v_def by (rule keepsD)
  then obtain f where f: "result (wait_fix_opt E 10) v = Some f" "fix_ok f" using gets_fix [OF assms(1,2)] by blast
  have "advances unreported pre" unfolding pre_def by (intro advances_rules; simp add: unreported_def)
  then have "unreported w v" unfolding v_def by (rule advancesD)
  moreover have "unreported v u" unfolding u_def by (rule advancesD) (rule unreported_cycle_parts)
  moreover note outcome_heard [OF assms(1,2) f(2), of u t r]
  ultimately show "int (elapsed (hist w)) \<le> last_send_uptime (exec (frequent_body E t r) w)"
    using f(1) by (simp add: frequent_body_def pre_def v_def u_def run_simps unreported_def)
qed

text \<open>However long the frequent loop runs.\<close>

lemma loop_quiet:
  assumes "G" "works (cfg E) (sdk E) (reply E)" "data_ok G (sdk E) w" "unheard w \<le> int Y" "pass_ms (cfg E) q s \<le> Y + 5 * q"
  shows "unheard (exec (frequent_loop n E mc t r) w) \<le> int (Y + 5 * q)"
  using assms(3,4)
proof (induction n arbitrary: w)
  case (Suc n)
  let ?v = "exec (vbus_or_surge E mc) w"
  have "unreported w ?v" by (rule advancesD) (rule unreported_cycle_parts)
  moreover have "elapsed (hist ?v) \<le> elapsed (hist w) + 5 * q" by (rule costs_elapsed) (rule costs_status)
  ultimately have "unheard ?v \<le> unheard w + int (5 * q)" by (rule quiet_unreported)
  moreover have v: "data_ok G (sdk E) ?v" by (rule keepsD [OF data_main(1) Suc.prems(1)])
  moreover have "unheard (exec (frequent_body E t r) ?v) \<le> int Y"
    using body_quiet [OF assms(1,2) v, of t r] assms(5) by linarith
  moreover have "data_ok G (sdk E) (exec (frequent_body E t r) ?v)" by (rule keepsD [OF data_report(2) v])
  ultimately show ?case
    using Suc by (simp add: run_simps)
qed simp

lemma frequent_quiet:
  assumes "G" "works (cfg E) (sdk E) (reply E)" "data_ok G (sdk E) w" "unheard w \<le> int Y" "pass_ms (cfg E) q s \<le> Y + 5 * q"
  shows "unheard (exec (frequent_reporting n E mc t r) w) \<le> int (Y + 12 * q)"
proof -
  define pre where "pre = do { enter \<leftarrow> vbus_or_surge E mc; when_do enter (ignore (power_vbus_present E)) }"
  define v where "v = exec pre w"
  have "costs (7 * q) pre"
    unfolding pre_def by (rule costs_mono, (rule costs_rules | (simp add: call_times; fail))+)
  then have t: "elapsed (hist v) \<le> elapsed (hist w) + 7 * q" unfolding v_def by (rule costs_elapsed)
  have "advances unreported pre" unfolding pre_def by (intro advances_rules; simp)
  then have "unreported w v" unfolding v_def by (rule advancesD)
  then have q: "unheard v \<le> unheard w + int (7 * q)" using t by (rule quiet_unreported)
  have "keeps (data_ok G (sdk E)) pre" unfolding pre_def by (intro hoare_rules)
  then have "data_ok G (sdk E) v" using assms(3) unfolding v_def by (rule keepsD)
  then have "unheard (exec (frequent_loop n E mc t r) v) \<le> int (Y + 7 * q + 5 * q)"
    using q assms(4,5) by (intro loop_quiet assms(1,2)) simp_all
  moreover have "exec (frequent_reporting n E mc t r) w = (if result (vbus_or_surge E mc) w
      then exec (frequent_loop n E mc t r) v else v)"
    by (simp add: frequent_reporting_def pre_def v_def run_simps)
  ultimately show ?thesis using q assms(4) by (simp split: if_split)
qed

lemma tracking_quiet:
  assumes "G" "works (cfg E) (sdk E) (reply E)" "data_ok G (sdk E) w"
  shows "unheard (exec (cycle_tracking n E t r) w) \<le> int (fresh_ms (cfg E) q s)"
proof -
  let ?A = "TRACKER_GNSS_EXTRA_FIX_SECONDS (cfg E) * 1000 + 5000"
  let ?B = "TRACKER_CHARGING_INTERVAL_SECONDS (cfg E) * 1000 + 10000"
  let ?Y = "max ?A ?B + report_ms (cfg E) q s + 14 * q"
  obtain f where f: "result (acquire_fix E) w = Some f" "fix_ok f" using acquires [OF assms] by blast
  define v where "v = exec (acquire_fix E) w"
  define u where "u = exec (first_report E (Some f) t r) v"
  define y where "y = exec (frequent_reporting n E (r = TRACKER_WAKE_MOTION) t r) u"
  define tail where "tail = do {
     watchdog_phase TRACKER_PHASE_GNSS_STOP; gnss_stop E;
     watchdog_phase TRACKER_PHASE_CLOUD_PAUSE; cloud_pause E; sleep_until_wake E }"
  have v: "data_ok G (sdk E) v" unfolding v_def by (rule keepsD [OF data_fix(4) assms(3)])
  have "keeps (data_ok G (sdk E)) (first_report E (Some f) t r)" unfolding first_report_def by (intro hoare_rules)
  then have u: "data_ok G (sdk E) u" unfolding u_def using v by (rule keepsD)
  have "unheard u \<le> int ?Y" using first_quiet [OF assms(1,2) f(2) v, of t r] unfolding u_def by linarith
  then have y: "unheard y \<le> int (?Y + 12 * q)"
    unfolding y_def by (intro frequent_quiet [OF assms(1,2) u]) (simp_all add: pass_ms_def)
  have "costs (TRACKER_SLEEP_SECONDS (cfg E) * 1000 + s + 15 * q) tail"
    unfolding tail_def by (rule costs_mono, (rule costs_rules | (simp add: call_times; fail))+)
  then have "elapsed (hist (exec tail y)) \<le> elapsed (hist y) + (TRACKER_SLEEP_SECONDS (cfg E) * 1000 + s + 15 * q)"
    by (rule costs_elapsed)
  moreover have "advances unreported tail" unfolding tail_def by (intro advances_rules; simp)
  then have "unreported y (exec tail y)" by (rule advancesD)
  ultimately have "unheard (exec tail y) \<le> unheard y + int (TRACKER_SLEEP_SECONDS (cfg E) * 1000 + s + 15 * q)"
    by (rule quiet_unreported [rotated])
  moreover have "exec (cycle_tracking n E t r) w =
      (if result (frequent_reporting n E (r = TRACKER_WAKE_MOTION) t r) u then exec tail y else y)"
    by (simp add: cycle_tracking_def tail_def run_simps f(1) v_def [symmetric] u_def [symmetric] y_def [symmetric])
  ultimately show ?thesis
    using y by (simp add: fresh_ms_def split: if_split)
qed

text \<open>A cycle that begins in good time does not reboot, and ends in good time.\<close>

lemma cycle_quiet:
  assumes "G" "works (cfg E) (sdk E) (reply E)" "data_ok G (sdk E) w" "\<not> TRACKER_SKIP_LTE (cfg E)"
    and "0 < TRACKER_MODEM_RECOVERY_MINUTES (cfg E)"
    and "TRACKER_MODEM_RECOVERY_MINUTES (cfg E) \<le> TRACKER_REBOOT_MINUTES (cfg E)"
    and "unheard w \<le> int (fresh_ms (cfg E) q s)" "fresh_ms (cfg E) q s + 4 * q < TRACKER_REBOOT_MINUTES (cfg E) * 60000"
  shows "result (cycle n E r) w \<noteq> Rebooted" "unheard (exec (cycle n E r) w) \<le> int (fresh_ms (cfg E) q s)"
proof -
  define t where "t = to_u32 (result (k_uptime_get E) w)"
  define pre where "pre = do {
     now \<leftarrow> k_uptime_get E;
     when_do (r = TRACKER_WAKE_VBUS) (modify (\<lambda>w. w\<lparr>battery_sleeps := 0\<rparr>));
     watchdog_phase TRACKER_PHASE_WAKE;
     watchdog_feed E }"
  define v where "v = exec pre w"
  define bring where "bring = do {
     ignore (recover_if_silent E);
     ignore (cycle_network E);
     watchdog_phase TRACKER_PHASE_CLOUD_RESUME;
     watchdog_guard_start E (word_of_nat (TRACKER_CLOUD_CONNECT_BUDGET_SECONDS (cfg E)));
     ignore (cloud_resume E);
     watchdog_guard_stop E;
     status_led_report E False;
     watchdog_phase TRACKER_PHASE_GNSS_START;
     gnss_start E }"
  have ok: "clock_sound (reply E)" "in_coverage (reply E)" "receivers_fix (reply E)" using assms(2) by (simp_all add: works_def)
  have "advances unreported pre" unfolding pre_def by (intro advances_rules; simp add: unreported_def)
  then have "unreported w v" unfolding v_def by (rule advancesD)
  moreover have "costs (2 * q) pre"
    unfolding pre_def by (rule costs_mono, (rule costs_rules | (simp add: call_times; fail))+)
  then have "elapsed (hist v) \<le> elapsed (hist w) + 2 * q" unfolding v_def by (rule costs_elapsed)
  ultimately have "unheard v \<le> unheard w + int (2 * q)" by (rule quiet_unreported)
  moreover have "result (k_uptime_get E) v \<le> int (elapsed (hist v)) + int q"
    using uptime_elapsed_after [OF ok(1) main_thread, of v] costs_elapsed [OF costs_board(1), of v] by simp
  ultimately have "silence_ms E v < int (TRACKER_REBOOT_MINUTES (cfg E)) * 60000"
    using assms(7,8) by (simp add: silence_ms_def unheard_def)
  then have stay: "\<not> result (recover_if_silent E) v" by (simp add: recover_reboots [OF assms(5,6)])
  have run: "result (cycle n E r) w = result (cycle_tracking n E t r) (exec bring v)"
    "exec (cycle n E r) w = exec (cycle_tracking n E t r) (exec bring v)"
    using assms(4) stay registers [OF ok(2)] starts [OF ok(3)]
    by (simp_all add: cycle_def cycle_online_def pre_def bring_def v_def t_def Let_def run_simps)
  have "keeps (data_ok G (sdk E)) pre" "keeps (data_ok G (sdk E)) bring"
    unfolding pre_def bring_def by (intro hoare_rules; simp add: data_ok_def)+
  then have "data_ok G (sdk E) (exec bring v)" using assms(3) unfolding v_def by (simp add: keepsD)
  then show "unheard (exec (cycle n E r) w) \<le> int (fresh_ms (cfg E) q s)"
    unfolding run(2) by (rule tracking_quiet [OF assms(1,2)])
  show "result (cycle n E r) w \<noteq> Rebooted"
    unfolding run(1) by (simp add: cycle_tracking_def sleep_until_wake_def run_simps)
qed

lemma main_quiet:
  assumes "G" "works (cfg E) (sdk E) (reply E)" "data_ok G (sdk E) w" "\<not> TRACKER_SKIP_LTE (cfg E)"
    and "0 < TRACKER_MODEM_RECOVERY_MINUTES (cfg E)"
    and "TRACKER_MODEM_RECOVERY_MINUTES (cfg E) \<le> TRACKER_REBOOT_MINUTES (cfg E)"
    and "fresh_ms (cfg E) q s + 4 * q < TRACKER_REBOOT_MINUTES (cfg E) * 60000" "hist w = []" "last_send_uptime w = 0"
  shows "result (main n fuel E) w \<noteq> Inr Rebooted \<and> unheard (exec (main n fuel E) w) \<le> int (fresh_ms (cfg E) q s)"
proof -
  let ?F = "int (fresh_ms (cfg E) q s)"
  have cycles: "result (cycles n fuel E r) w \<noteq> Rebooted \<and> unheard (exec (cycles n fuel E r) w) \<le> ?F"
    if "data_ok G (sdk E) w" "unheard w \<le> ?F" for r w
    using that
  proof (induction n arbitrary: r w)
    case (Suc n)
    note now = cycle_quiet [OF assms(1,2) Suc.prems(1) assms(4-6) Suc.prems(2) assms(7), of fuel r]
    have "data_ok G (sdk E) (exec (cycle fuel E r) w)" by (rule keepsD [OF data_cycle Suc.prems(1)])
    then show ?case
      using Suc.IH now by (cases "result (cycle fuel E r) w") (simp_all add: run_simps)
  qed simp
  have "unreported w (exec (boot E) w)" by (rule advancesD) (rule unreported_boot)
  then have "unheard (exec (boot E) w) \<le> ?F"
    using boot_elapsed [of w] assms(8,9) by (simp add: unreported_def unheard_def fresh_ms_def report_ms_def)
  moreover have "data_ok G (sdk E) (exec (boot E) w)" by (rule keepsD [OF data_boot assms(3)])
  ultimately show ?thesis
    using cycles by (auto simp: main_def run_simps split: option.split)
qed

end

section \<open>The firmware's handlers\<close>

lemma data_isr:
  "keeps (data_ok G S) (api (isr_env E) c)" "keeps (data_ok G S) (api_do (isr_env E) c)"
  "keeps (data_ok G S) (api_rc (isr_env E) c)"
  by (intro keeps_api keeps_api_variants; simp)+

lemma data_handler:
  assumes "\<And>h. G \<Longrightarrow> fix_ok (modem_fix (sdk E) (pvt (reply E h (Modem (Gnss_read NRF_MODEM_GNSS_DATA_PVT)))))"
    and "\<And>d. i = Int_gnss_data d \<Longrightarrow> G \<Longrightarrow> fix_ok (ext_fix (cfg E) (sdk E) d)"
  shows "keeps (data_ok G (sdk E)) (handler (isr_env E) i)"
proof (cases i)
  case (Int_gnss ev)
  let ?P = "\<lambda>x. G \<longrightarrow> fix_ok (modem_fix (sdk E) (pvt x))"
  have "keeps (data_ok G (sdk E)) (gnss_event_handler (isr_env E) NRF_MODEM_GNSS_EVT_PVT)"
    unfolding gnss_event_handler_def locked_def gnss_event.case
    by (rule keeps_bind_result [where P = ?P], rule data_isr, use assms(1) in \<open>simp add: result_api\<close>)
       (intro hoare_rules data_isr; simp add: data_ok_def)
  moreover have "keeps (data_ok G (sdk E)) (gnss_event_handler (isr_env E) ev)" if "ev \<noteq> NRF_MODEM_GNSS_EVT_PVT"
    using that unfolding gnss_event_handler_def locked_def
    by (cases ev; simp only: gnss_event.case; intro hoare_rules data_isr; simp add: data_ok_def)
  ultimately show ?thesis unfolding Int_gnss handler_def interrupt.case by blast
next
  case (Int_gnss_data d)
  have "G \<Longrightarrow> fix_ok (ext_fix (cfg E) (sdk E) d)" by (rule assms(2) [OF Int_gnss_data])
  then show ?thesis
    unfolding Int_gnss_data handler_def interrupt.case gnss_data_handler_def locked_def Let_def
    by (intro hoare_rules data_isr; simp add: data_ok_def)
qed (simp_all only: handler_def interrupt.case handler_defs,
     (intro hoare_rules data_isr; simp add: data_ok_def)+)

interpretation good: good_runtime "tracker_env C S (in_time q s R) when_int" q s "sources_ok C S R when_int"
  for C S q s R when_int
proof
  fix c and w :: "'a tracker_state_scheme"
  let ?E = "tracker_env C S (in_time q s R) when_int :: ('a tracker_state_scheme) env"
  let ?G = "sources_ok C S R when_int"
  let ?B = "isr_base C S (in_time q s R) :: ('a tracker_state_scheme) env"
  have "data_ok ?G S (deliver ?B i v)"
    if "data_ok ?G S v" "\<And>d. i = Int_gnss_data d \<Longrightarrow> ?G \<Longrightarrow> fix_ok (ext_fix C S d)" for i and v :: "'a tracker_state_scheme"
    using keepsD [OF data_handler [of ?G ?B i], of v] that
    by (simp add: deliver_def sources_ok_def in_time_def)
  then have all: "data_ok ?G S v \<Longrightarrow> (\<And>d. Int_gnss_data d \<in> set is \<Longrightarrow> ?G \<Longrightarrow> fix_ok (ext_fix C S d)) \<Longrightarrow>
      data_ok ?G S (fold (deliver ?B) is v)" for "is" v
    by (induction "is" arbitrary: v) auto
  show "data_ok ?G (sdk ?E) w \<Longrightarrow> data_ok ?G (sdk ?E) (intr ?E c w)"
    by (simp, rule all) (auto simp: sources_ok_def)
qed

end
