(* ===== verification/Scenario.thy ===== *)
theory Scenario
  imports Parking Jolts Breadcrumbs Good_Conditions
begin

text \<open>
  The state at power-on, from the initialisers of the static variables, and a bench environment in
  which every call answers the same, to run the model on.
\<close>

section \<open>Power-on\<close>

definition zero_pvt :: pvt_frame where
  "zero_pvt = \<lparr>pvt_latitude = 0, pvt_longitude = 0, pvt_altitude = 0, pvt_accuracy = 0,
     pvt_speed = 0, pvt_heading = 0, pvt_hdop = 0, pvt_flags = 0, pvt_sv_flags = replicate 12 0\<rparr>"

definition zero_frame :: agnss_frame where
  "zero_frame = \<lparr>data_flags = 0, system_count = 0, system = []\<rparr>"

definition zero_fix :: tracker_fix where
  "zero_fix = \<lparr>latitude = 0, longitude = 0, altitude = 0, accuracy = 0, speed = 0, heading = 0,
     hdop = 0, satellites = 0, source = TRACKER_FIX_SOURCE_MODEM\<rparr>"

text \<open>The \<open>.noinit\<close> variables hold whatever the RAM held.\<close>

definition power_on :: "config \<Rightarrow> u32 \<Rightarrow> u32 \<Rightarrow> tracker_state" where
  "power_on C magic phase = \<lparr>
     hist = [],
     pending = TRACKER_WAKE_TIMER,
     wdt_channel = -1, guard_feeds_left = 0, phase_magic = magic, phase_current = phase,
     phase_at_reset = 0,
     vbus_connected = False,
     usable = False, armed = False, last_event_ms_hi = 0, last_event_ms_lo = 0,
     available = False, current_status = TRACKER_STATUS_OFF, current_pattern = TRACKER_LED_SOLID,
     blinking = False, lit = False,
     last_pvt = zero_pvt, agnss_req = zero_frame, agnss_req_valid = False,
     last_fix = zero_fix, powered = False,
     active = TRACKER_FIX_SOURCE_MODEM, external_usable = False,
     link_state = LINK_DISCONNECTED, creds_ok = False, modem_time_ready = False,
     last_fetch_uptime_ms = 0,
     last_send_uptime = 0, modem_bounced = False,
     battery_sleeps = word_of_nat (TRACKER_MOTION_SETTLE_CYCLES C)\<rparr>"

lemma power_on_idle: "idle (power_on C m p)"
  by (simp add: power_on_def idle_def ext_power_ok_def)

lemma power_on_link: "link_ok C (power_on C m p)" "link_current (power_on C m p)"
  by (simp_all add: power_on_def link_ok_def link_current_def)

section \<open>The bench\<close>

definition bench_sdk :: sdk_consts where
  "bench_sdk = \<lparr>
     NRF_MODEM_GNSS_PVT_FLAG_FIX_VALID = 1,
     NRF_MODEM_GNSS_SV_FLAG_USED_IN_FIX = 2,
     NRF_MODEM_GNSS_MAX_SATELLITES = 12,
     NRF_MODEM_GNSS_AGNSS_GPS_UTC_REQUEST = 1,
     NRF_MODEM_GNSS_AGNSS_KLOBUCHAR_REQUEST = 2,
     NRF_MODEM_GNSS_AGNSS_NEQUICK_REQUEST = 4,
     NRF_MODEM_GNSS_AGNSS_GPS_SYS_TIME_AND_SV_TOW_REQUEST = 8,
     NRF_MODEM_GNSS_AGNSS_POSITION_REQUEST = 16,
     NRF_MODEM_GNSS_AGNSS_INTEGRITY_REQUEST = 32,
     NRF_MODEM_GNSS_SYSTEM_GPS = 1,
     NPM13XX_EVENT_VBUS_DETECTED = 3,
     NPM13XX_EVENT_VBUS_REMOVED = 4,
     LTE_LC_CELL_EUTRAN_ID_MAX = 268435455,
     LTE_LC_CELL_RSRP_INVALID = 255,
     NRF_CLOUD_JSON_APPID_KEY = ''appId'',
     NRF_CLOUD_JSON_MSG_TYPE_KEY = ''messageType'',
     NRF_CLOUD_JSON_MSG_TYPE_VAL_DATA = ''DATA'',
     NRF_CLOUD_MSG_TIMESTAMP_KEY = ''ts'',
     NRF_CLOUD_JSON_DATA_KEY = ''data'',
     NRF_CLOUD_NO_TIMESTAMP = -1,
     rnd32 = (\<lambda>x. x),
     rnd64 = (\<lambda>x. x)\<rparr>"

text \<open>Everything answers 0, with empty data, except that nothing is ever waited for successfully.\<close>

definition resp0 :: resp where
  "resp0 = \<lparr>rc = 0, took = 0, flag = True, i64 = 0, val1 = 0, val2 = 0, text_out = '''',
     reg_status = LTE_LC_NW_REG_REGISTERED_HOME, pvt = zero_pvt, frame = zero_frame,
     creds = \<lparr>cs_ca = True, cs_ca_aws = True, cs_prv_key = True\<rparr>, bytes = []\<rparr>"

definition timed_out :: resp where
  "timed_out = resp0\<lparr>rc := - EAGAIN\<rparr>"

definition bench :: "event list \<Rightarrow> call \<Rightarrow> resp" where
  "bench h c = (case c of Kern (K_sem_take _ _) \<Rightarrow> timed_out | _ \<Rightarrow> resp0)"

text \<open>No interrupts.\<close>

definition no_int :: schedule where
  "no_int h c = []"

lemma bench_rx_sound: "rx_sound bench"
  by (simp add: rx_sound_def uart_pm_sound_def gnss_stop_sound_def bench_def resp0_def pm_done_def)

lemma bench_sem_sound: "sem_sound bench"
  by (simp add: sem_sound_def bench_def timed_out_def resp0_def EAGAIN_def)

lemma timed_out_simps [simp]: "rc timed_out = - 11"
  by (simp add: timed_out_def EAGAIN_def)

section \<open>Answers and schedules\<close>

text \<open>
  \<open>answers f\<close>: every call is answered by \<open>f\<close>, except that a semaphore is taken exactly if it was
  given.  \<open>during c is\<close>: the interrupts \<open>is\<close> arrive while the main thread is in call \<open>c\<close>.
\<close>

definition answers :: "(call \<Rightarrow> resp) \<Rightarrow> event list \<Rightarrow> call \<Rightarrow> resp" where
  "answers f h c = (case c of
     Kern (K_sem_take s _) \<Rightarrow> (if given s h then resp0 else timed_out) | _ \<Rightarrow> f c)"

definition during :: "call \<Rightarrow> interrupt list \<Rightarrow> schedule" where
  "during c is h c' = (if c' = c then is else [])"

lemma answers_sem_sound: "sem_sound (answers f)"
  by (simp add: sem_sound_def answers_def)

section \<open>Running the model\<close>

text \<open>
  Programs are run by rewriting \<open>run_state\<close>, which computes result and state together.
\<close>

lemma resp0_simps [simp]:
  "rc resp0 = 0" "took resp0 = 0" "flag resp0 = True" "i64 resp0 = 0" "val1 resp0 = 0"
  "val2 resp0 = 0" "text_out resp0 = ''''" "reg_status resp0 = LTE_LC_NW_REG_REGISTERED_HOME"
  "pvt resp0 = zero_pvt" "frame resp0 = zero_frame" "bytes resp0 = []"
  by (simp_all add: resp0_def)

lemma run_bind: "run_state (m \<bind> f) w = (case run_state m w of (x, v) \<Rightarrow> run_state (f x) v)"
  by (simp add: run_state_bind)

lemma run_api:
  "run_state (api E c) w = (reply E (hist (intr E c w)) c,
     (intr E c w)\<lparr>hist := Ev (in_isr E) c (reply E (hist (intr E c w)) c) # hist (intr E c w)\<rparr>)"
  by (simp add: api_def Let_def)

lemma run_return: "run_state (return x) w = (x, w)"
  by simp

text \<open>The options, without unfolding the record.\<close>

lemma kconfig_simps:
  "TRACKER_CLOUD_PROVIDER kconfig_defaults = NrfCloud"
  "TRACKER_NRF_CLOUD_APP_ID kconfig_defaults = ''GPSTRACKER''"
  "TRACKER_NRF_CLOUD_PORTAL_LOCATION kconfig_defaults = False"
  "TRACKER_CLOUD_CONNECT_BUDGET_SECONDS kconfig_defaults = 240"
  "TRACKER_MODEM_TIME_WAIT_SECONDS kconfig_defaults = 60"
  "TRACKER_AGNSS kconfig_defaults = True"
  "TRACKER_AGNSS_PROACTIVE_WAIT_SECONDS kconfig_defaults = 5"
  "TRACKER_AGNSS_FIX_TIMEOUT_SECONDS kconfig_defaults = 90"
  "TRACKER_AGNSS_BUDGET_SECONDS kconfig_defaults = 180"
  "TRACKER_AGNSS_MIN_INTERVAL_SECONDS kconfig_defaults = 1800"
  "TRACKER_AGNSS_STOP_GNSS_DURING_FETCH kconfig_defaults = True"
  "TRACKER_AGNSS_FULL_REQUEST_FALLBACK kconfig_defaults = True"
  "NRF_CLOUD_AGNSS_FILTERED kconfig_defaults = True"
  "NRF_CLOUD_AGNSS_ELEVATION_MASK kconfig_defaults = 5"
  "TRACKER_MOTION_WAKE kconfig_defaults = True"
  "TRACKER_MOTION_THRESHOLD_MG kconfig_defaults = 350"
  "TRACKER_MOTION_DURATION_SAMPLES kconfig_defaults = 2"
  "TRACKER_MOTION_ODR_HZ kconfig_defaults = 50"
  "TRACKER_MOTION_HP_CUTOFF kconfig_defaults = 2"
  "TRACKER_MOTION_SETTLE_CYCLES kconfig_defaults = 1"
  "TRACKER_MOTION_SURGE_SECONDS kconfig_defaults = 600"
  "TRACKER_HW_REVISION kconfig_defaults = ''feather-nrf9151''"
  "TRACKER_BUILD_STAMP kconfig_defaults = ''2026-08-02T17:51Z''"
  "TRACKER_WATCHDOG_MARGIN_SECONDS kconfig_defaults = 300"
  "HOLOGRAM_DEVICE_KEY kconfig_defaults = ''CHANGEME''"
  "HOLOGRAM_HOST kconfig_defaults = ''cloudsocket.hologram.io''"
  "HOLOGRAM_PORT kconfig_defaults = 9999"
  "HOLOGRAM_TOPIC kconfig_defaults = ''TRACKER''"
  "TRACKER_SLEEP_SECONDS kconfig_defaults = 540"
  "TRACKER_CHARGING_INTERVAL_SECONDS kconfig_defaults = 60"
  "TRACKER_GNSS_FIX_TIMEOUT_SECONDS kconfig_defaults = 120"
  "TRACKER_GNSS_EXTRA_FIX_SECONDS kconfig_defaults = 5"
  "TRACKER_GNSS_EXTERNAL kconfig_defaults = True"
  "TRACKER_GNSS_EXT_POWER_PIN kconfig_defaults = 13"
  "TRACKER_GNSS_EXT_WARMUP_MS kconfig_defaults = 500"
  "TRACKER_GNSS_EXT_FIX_TIMEOUT_SECONDS kconfig_defaults = 60"
  "TRACKER_GNSS_EXT_UERE_METERS kconfig_defaults = 3"
  "TRACKER_GNSS_EXT_POWER_CYCLE kconfig_defaults = True"
  "TRACKER_GNSS_EXT_MODEM_FALLBACK kconfig_defaults = True"
  "TRACKER_LTE_CONNECT_TIMEOUT_SECONDS kconfig_defaults = 120"
  "TRACKER_MODEM_RECOVERY_MINUTES kconfig_defaults = 30"
  "TRACKER_REBOOT_MINUTES kconfig_defaults = 120"
  "TRACKER_STATUS_LED kconfig_defaults = True"
  "TRACKER_STATUS_LED_RED_INDEX kconfig_defaults = 0"
  "TRACKER_STATUS_LED_GREEN_INDEX kconfig_defaults = 1"
  "TRACKER_STATUS_LED_BLUE_INDEX kconfig_defaults = 2"
  "TRACKER_STATUS_LED_BLINK_MS kconfig_defaults = 500"
  "TRACKER_STATUS_LED_FLASH_ON_MS kconfig_defaults = 50"
  "TRACKER_STATUS_LED_FLASH_OFF_MS kconfig_defaults = 1950"
  "TRACKER_STATUS_LED_FULL_PERCENT kconfig_defaults = 95"
  "TRACKER_STATUS_LED_ON_BATTERY kconfig_defaults = False"
  "TRACKER_FORCE_PUBLISH_WITHOUT_FIX kconfig_defaults = False"
  "TRACKER_SKIP_LTE kconfig_defaults = False"
  "TRACKER_OFFLINE_DEBUG kconfig_defaults = False"
  "BOARD_CIRCUITDOJO_FEATHER_NRF9151 kconfig_defaults = True"
  "LTE_LC_RAI_MODULE kconfig_defaults = True"
  by (simp_all add: kconfig_defaults_def)

definition receivers_only :: config where
  "receivers_only = kconfig_defaults\<lparr>TRACKER_SKIP_LTE := True, TRACKER_STATUS_LED := False,
     TRACKER_MOTION_WAKE := False, TRACKER_AGNSS := False, TRACKER_CLOUD_PROVIDER := HologramCloud\<rparr>"

lemmas evals = run_bind run_api run_return run_gets run_modify run_skip run_when_do
  api_rc_def api_flag_def api_do_def ignore_def no_int_def Let_def

lemmas eval_interrupts = during_def deliver_def can_fire_def handler_def exec_def gnss_event_handler_def
  gnss_data_handler_def lte_handler_def event_callback_def motion_handler_def guard_expiry_def
  blink_work_handler_def

lemmas eval_main = cycle_def cycle_network_def cycle_online_def cycle_tracking_def sleep_until_wake_def
  battery_sleep_def acquire_fix_def cold_start_assist_def fallback_fix_def last_resort_fix_def
  wait_fix_opt_def first_report_def settle_fix_def report_outcome_def frequent_reporting_def
  vbus_or_surge_def surge_active_def agnss_wanted_def led_pattern_def status_led_report_def
  recover_if_silent_def lte_ensure_connected_def lte_is_registered_def

lemmas eval_report = report_fix_def collect_telemetry_def send_payload_def link_stale_def
  telemetry_build_json_def watchdog_reset_phase_def

lemmas eval_board = wake_wait_def wake_take_def wake_signal_def atomic_defs k_uptime_get_def
  watchdog_phase_def watchdog_feed_def watchdog_guard_start_def watchdog_guard_stop_def
  power_vbus_present_def read_vbus_present_def power_read_def motion_set_armed_def
  motion_last_event_uptime_def status_led_sleep_def status_led_set_def status_led_pattern_def
  stop_blink_def apply_led_def set_channel_def reschedule_blink_def

lemmas eval_gnss = gnss_start_def gnss_start_modem_def gnss_stop_def gnss_wait_fix_def
  gnss_active_source_def gnss_fix_timeout_seconds_def gnss_fallback_available_def gnss_fallback_def
  gnss_agnss_request_get_def gnss_agnss_request_wait_def gnss_ext_start_def gnss_ext_open_def
  gnss_ext_stop_def gnss_ext_wait_fix_def power_set_def gnss_modem_start_def gnss_modem_stop_def
  gnss_modem_wait_fix_def gnss_modem_agnss_request_get_def gnss_modem_agnss_request_wait_def locked_def

lemmas eval_cloud = cloud_resume_def cloud_pause_def cloud_is_ready_def cloud_send_telemetry_def
  cloud_send_location_def cloud_supports_agnss_def cloud_nrf_resume_def cloud_nrf_connect_def
  cloud_nrf_pause_def cloud_nrf_is_ready_def cloud_nrf_send_telemetry_def cloud_nrf_send_location_def
  cloud_nrf_supports_agnss_def modem_time_wait_def modem_time_loop.simps
  cloud_hologram_resume_def cloud_hologram_is_ready_def cloud_hologram_pause_def

lemmas eval_boot = main_def boot_def boot_peripherals_def boot_network_def modem_lib_init_def on_modem_lib_init_def
  watchdog_init_def phase_init_def power_init_def motion_init_def set_attr_def status_led_init_def
  gnss_init_def gnss_modem_init_def gnss_ext_init_def cloud_init_def cloud_nrf_init_def cloud_hologram_init_def

end
