(* ===== verification/Component_Properties.thy ===== *)
theory Component_Properties
  imports Scenario
begin

text \<open>
  The properties of single components: payload, watchdog, motion sensor, status LED, cloud message,
  satellites.  Each is followed by a witness that applies it at a concrete input.
\<close>

abbreviation bench_env :: "config \<Rightarrow> tracker_state env" where
  "bench_env C \<equiv> tracker_env C bench_sdk bench no_int"

section \<open>The telemetry payload\<close>

text \<open>
  C11.  A payload that was built without an error reads back, field by field, as the telemetry it was
  built from, with the phase in which the previous run died and the two version strings.
\<close>

theorem payload_round_trip:
  assumes "quote_free (TRACKER_BUILD_STAMP (cfg E))" "quote_free (TRACKER_HW_REVISION (cfg E))"
    and "phase_at_reset w = phase_val p"
    and "result (telemetry_build_json E t len) w = (n, buf)" "0 \<le> n"
  shows "n = int (length buf) \<and> read_payload buf = Some (view_of (cfg E) p t)"
proof -
  have "buf = telemetry_json (cfg E) (phase_val p) t \<and> n = int (length buf)"
    using assms(3-5) by (auto simp: telemetry_build_json_result ENOMEM_def Let_def split: if_splits)
  then show ?thesis by (simp add: read_payload_telemetry_json assms)
qed

definition parked :: tracker_telemetry where
  "parked = \<lparr>tm_longitude = -122.084058, tm_latitude = 37.422131, tm_hdop = 1.2, tm_batt_mv = 3912,
     tm_charge = TRACKER_CHARGE_DISCHARGING, tm_signal_dbm = -97, tm_awake_s = 21,
     tm_wake = TRACKER_WAKE_TIMER\<rparr>"

lemma parked_fits: "length (telemetry_json kconfig_defaults 0 parked) < 256"
  using telemetry_json_length [of parked kconfig_defaults 0]
  by (simp add: plausible_def parked_def kconfig_defaults_def)

lemma parked_built:
  "result (telemetry_build_json (bench_env kconfig_defaults) parked 256) (power_on kconfig_defaults 0 0) =
     (int (length (telemetry_json kconfig_defaults 0 parked)), telemetry_json kconfig_defaults 0 parked)"
  using parked_fits by (simp add: telemetry_build_json_result power_on_def Let_def)

lemma defaults_quote_free:
  "quote_free (TRACKER_BUILD_STAMP kconfig_defaults)" "quote_free (TRACKER_HW_REVISION kconfig_defaults)"
  by (simp_all add: quote_free_def kconfig_defaults_def)

theorem payload_round_trip_witness:
  "read_payload (telemetry_json kconfig_defaults 0 parked) =
     Some (view_of kconfig_defaults TRACKER_PHASE_NONE parked)"
  using payload_round_trip [of "bench_env kconfig_defaults" "power_on kconfig_defaults 0 0"
      TRACKER_PHASE_NONE parked 256, OF _ _ _ parked_built]
  by (simp add: defaults_quote_free power_on_def)

text \<open>
  C30.  With values in the ranges their sources report, and version strings of at most 71 characters
  together, the 256-byte buffer of \<open>report_fix\<close> is large enough.
\<close>

theorem payload_fits:
  assumes "plausible t"
    and "length (TRACKER_BUILD_STAMP (cfg E)) + length (TRACKER_HW_REVISION (cfg E)) \<le> 71"
  shows "fst (result (telemetry_build_json E t 256) w) = int (length (telemetry_json (cfg E) (phase_at_reset w) t)) \<and>
    snd (result (telemetry_build_json E t 256) w) = telemetry_json (cfg E) (phase_at_reset w) t"
  using telemetry_json_length [OF assms(1), of "cfg E" "phase_at_reset w"] assms(2)
  by (simp add: telemetry_build_json_result Let_def)

theorem payload_fits_witness:
  "fst (result (telemetry_build_json (bench_env kconfig_defaults) parked 256) (power_on kconfig_defaults 0 0)) =
     int (length (telemetry_json kconfig_defaults 0 parked))"
  using payload_fits [of parked "bench_env kconfig_defaults" "power_on kconfig_defaults 0 0"]
  by (simp add: plausible_def parked_def kconfig_defaults_def power_on_def)

section \<open>The watchdog\<close>




text \<open>
  The phase marker survives a reset that keeps the RAM: initialisation reports the phase the
  code had announced last before it, and starts a fresh marker.
\<close>

theorem phase_survives_reset:
  assumes "phase_magic w = PHASE_MAGIC"
  shows "phase_at_reset (exec (watchdog_init (tracker_env C S R when_int))
      (after_reset (exec (watchdog_phase p) w))) = phase_val p \<and>
    phase_current (exec (watchdog_init (tracker_env C S R when_int))
      (after_reset (exec (watchdog_phase p) w))) = phase_val TRACKER_PHASE_NONE"
  using assms by (simp add: tracker.watchdog_init_phase after_reset_def watchdog_phase_def run_simps)

theorem phase_survives_reset_witness:
  "phase_at_reset (exec (watchdog_init (bench_env kconfig_defaults))
     (after_reset (exec (watchdog_phase TRACKER_PHASE_AGNSS) (power_on kconfig_defaults PHASE_MAGIC 0)))) = 5"
  using phase_survives_reset [of "power_on kconfig_defaults PHASE_MAGIC 0" kconfig_defaults bench_sdk bench
      no_int TRACKER_PHASE_AGNSS]
  by (simp add: power_on_def)

text \<open>
  Initialising the watchdog succeeds exactly if it leaves a channel to feed; after a failure
  feeding does nothing.
\<close>

theorem watchdog_init_channel_or_nothing:
  assumes "wdt_channel w < 0"
  shows "(result (watchdog_init (tracker_env C S R when_int)) w = 0 \<longleftrightarrow>
      0 \<le> wdt_channel (exec (watchdog_init (tracker_env C S R when_int)) w)) \<and>
    (result (watchdog_init (tracker_env C S R when_int)) w = 0 \<or>
      exec (watchdog_feed (tracker_env C S R when_int)) (exec (watchdog_init (tracker_env C S R when_int)) w) =
      exec (watchdog_init (tracker_env C S R when_int)) w)"
  using tracker.watchdog_init_channel [OF assms, of C S R when_int]
  by (simp add: watchdog_feed_def run_simps)

theorem watchdog_init_channel_or_nothing_witness:
  "0 \<le> wdt_channel (exec (watchdog_init (bench_env kconfig_defaults)) (power_on kconfig_defaults 0 0))"
proof -
  have "result (watchdog_init (bench_env kconfig_defaults)) (power_on kconfig_defaults 0 0) = 0"
    unfolding result_def
    by (simp add: watchdog_init_def phase_init_def evals bench_def power_on_def)
  with watchdog_init_channel_or_nothing [of "power_on kconfig_defaults 0 0" kconfig_defaults bench_sdk bench no_int]
  show ?thesis by (simp add: power_on_def)
qed

section \<open>Motion and the status LED\<close>

text \<open>
  The uptime of a jolt, split over two 32-bit variables by the sensor's handler, is what
  \<open>motion_last_event_uptime\<close> puts together again, for any uptime a signed 64-bit clock can show; the
  handler asks to wake for motion.
\<close>

lemma jolt_time_round_trip:
  fixes E :: "('a motion_state_scheme) env" and w :: "'a motion_state_scheme"
  assumes "TRACKER_MOTION_WAKE (cfg E)"
    and "0 \<le> i64 (reply E (hist w) (Kern K_uptime_get))" "i64 (reply E (hist w) (Kern K_uptime_get)) < 2 ^ 63"
  shows "result (motion_last_event_uptime (isr_env E)) (exec (motion_handler (isr_env E)) w) =
      i64 (reply E (hist w) (Kern K_uptime_get)) \<and>
    pending (exec (motion_handler (isr_env E)) w) = TRACKER_WAKE_MOTION"
  using assms
  by (simp add: motion_last_event_uptime_def motion_handler_def k_uptime_get_def atomic_defs wake_signal_def
      run_simps api_simps Let_def join_halves split_halves)

text \<open>
  C23.  With nothing else touching it, every operation of the LED leaves the two colour channels
  showing the status in the current phase, and the blink work queued exactly while blinking is
  wanted; setting a status or a pattern has the effect it names.
\<close>

theorem led_operations_consistent:
  fixes E :: "('a led_state_scheme) env" and w :: "'a led_state_scheme"
  assumes "quiet E" "distinct_channels (cfg E)" "led_consistent (cfg E) w"
  shows "led_consistent (cfg E) (exec (status_led_set E s) w) \<and>
    led_consistent (cfg E) (exec (status_led_pattern E p) w) \<and>
    led_consistent (cfg E) (exec (status_led_sleep E) w) \<and>
    (blinking w \<longrightarrow> led_consistent (cfg E) (exec (blink_work_handler (isr_env E)) w) \<and>
       lit (exec (blink_work_handler (isr_env E)) w) = (\<not> lit w)) \<and>
    (TRACKER_STATUS_LED (cfg E) \<and> available w \<longrightarrow>
       current_status (exec (status_led_set E s) w) = s \<and> lit (exec (status_led_set E s) w) \<and>
       blinking (exec (status_led_pattern E p) w) = (p \<noteq> TRACKER_LED_SOLID))"
proof (intro conjI impI)
  show "led_consistent (cfg E) (exec (status_led_set E s) w)"
    by (rule status_led_set_consistent [OF assms])
  show "led_consistent (cfg E) (exec (status_led_pattern E p) w)"
    by (rule status_led_pattern_consistent [OF assms])
  show "led_consistent (cfg E) (exec (status_led_sleep E) w)"
    by (rule status_led_sleep_consistent [OF assms])
  have queued: "blink_queued w" using assms(3) by (simp add: led_consistent_def)
  {
    assume "blinking w"
    then show "led_consistent (cfg E) (exec (blink_work_handler (isr_env E)) w)"
      "lit (exec (blink_work_handler (isr_env E)) w) = (\<not> lit w)"
      using blink_work_handler_consistent [OF assms(2) queued] by simp_all
  next
    assume "TRACKER_STATUS_LED (cfg E) \<and> available w"
    then show "current_status (exec (status_led_set E s) w) = s" "lit (exec (status_led_set E s) w)"
      "blinking (exec (status_led_pattern E p) w) = (p \<noteq> TRACKER_LED_SOLID)"
      using status_led_set_available [OF assms(1,2) _ _ queued, of s]
        status_led_pattern_available [OF assms(1,2) _ _ assms(3), of p] by simp_all
  }
qed

definition lamp :: tracker_state where
  "lamp = (power_on kconfig_defaults 0 0)\<lparr>available := True\<rparr>"

theorem led_operations_consistent_witness:
  "led_consistent kconfig_defaults
     (exec (status_led_set (isr_env (bench_env kconfig_defaults)) TRACKER_STATUS_LTE_FIX) lamp) \<and>
   blinking (exec (status_led_pattern (isr_env (bench_env kconfig_defaults)) TRACKER_LED_CHARGING) lamp)"
  using led_operations_consistent [of "isr_env (bench_env kconfig_defaults)" lamp TRACKER_STATUS_LTE_FIX
      TRACKER_LED_CHARGING]
  by (simp add: distinct_channels_def LED_RED_def LED_GREEN_def LED_BLUE_def kconfig_defaults_def
      led_defs lamp_def power_on_def)

section \<open>Messages and satellites\<close>

text \<open>
  C31.  nRF Cloud's envelope fits its 384 bytes whenever the payload fits its 256: the envelope adds
  at most 41 characters to the application id and the five protocol words, for any timestamp of a
  64-bit clock.
\<close>

theorem device_message_fits:
  assumes "\<bar>t\<bar> < 10 ^ 19" "ts = None \<or> ts = Some t" "length inner < 256"
    and "length (TRACKER_NRF_CLOUD_APP_ID C) + length (NRF_CLOUD_JSON_APPID_KEY S) +
      length (NRF_CLOUD_JSON_MSG_TYPE_KEY S) + length (NRF_CLOUD_JSON_MSG_TYPE_VAL_DATA S) +
      length (NRF_CLOUD_MSG_TIMESTAMP_KEY S) + length (NRF_CLOUD_JSON_DATA_KEY S) < 88"
  shows "snprintf ENVELOPE_MAX (device_message C S ts inner) =
      (length (device_message C S ts inner), device_message C S ts inner) \<and>
    length (device_message C S ts inner) < ENVELOPE_MAX"
  using device_message_length [OF assms(1,2), of C S inner] assms(3,4)
  by (simp add: snprintf_def ENVELOPE_MAX_def)

theorem device_message_fits_witness:
  "length (device_message kconfig_defaults bench_sdk (Some 1754157060000)
     (telemetry_json kconfig_defaults 0 parked)) < ENVELOPE_MAX"
  using device_message_fits [of 1754157060000 "Some 1754157060000" "telemetry_json kconfig_defaults 0 parked"
      kconfig_defaults bench_sdk] parked_fits
  by (simp add: kconfig_defaults_def bench_sdk_def)

text \<open>
  The satellite count of a modem fix is the number of entries marked as used; the 16-bit counter
  does not overflow.
\<close>

theorem satellites_counted:
  assumes "NRF_MODEM_GNSS_MAX_SATELLITES S < 2 ^ 16"
  shows "unat (satellites (modem_fix S p)) =
    length (filter (\<lambda>f. f AND NRF_MODEM_GNSS_SV_FLAG_USED_IN_FIX S \<noteq> 0)
      (take (NRF_MODEM_GNSS_MAX_SATELLITES S) (pvt_sv_flags p)))"
  using satellites_in_fix_count [OF assms, of p] by (simp add: modem_fix_def)

theorem satellites_counted_witness:
  "unat (satellites (modem_fix bench_sdk (zero_pvt\<lparr>pvt_sv_flags := [2, 0, 3, 1]\<rparr>))) = 2"
  using satellites_counted [of bench_sdk "zero_pvt\<lparr>pvt_sv_flags := [2, 0, 3, 1]\<rparr>"]
  by (simp add: bench_sdk_def)

end
