(* ===== verification/Receiver_Properties.thy ===== *)
theory Receiver_Properties
  imports Component_Properties
begin

text \<open>
  The properties of the two receivers and their arbiter: what a fix that is handed out rests on, and
  what starting, stopping and falling back leave running.  Each is followed by a witness.
\<close>

section \<open>Fixes are fresh\<close>













section \<open>Starting, stopping, falling back\<close>

text \<open>
  C18.  Starting from rest, \<open>gnss_start\<close> succeeds exactly if it leaves the receiver it calls active
  running; no other receiver runs then, and after a failure none does.
\<close>

theorem gnss_start_runs_the_active_receiver:
  fixes C S R when_int
  defines "E \<equiv> tracker_env C S R when_int :: ('a tracker_state_scheme) env"
  assumes "idle w" "uart_pm_sound R"
  shows "(result (gnss_start E) w = 0 \<longleftrightarrow> running (exec (gnss_start E) w)) \<and>
    rx_ok (exec (gnss_start E) w) \<and> arbiter_ok C (exec (gnss_start E) w) \<and>
    (result (gnss_start E) w \<noteq> 0 \<longrightarrow> idle (exec (gnss_start E) w))"
  using tracker.gnss_start_ok [OF assms(2), where C = C and S = S and R = R and when_int = when_int] assms(3)
  unfolding E_def by simp

definition external_ready :: tracker_state where
  "external_ready = (power_on kconfig_defaults 0 0)\<lparr>external_usable := True\<rparr>"

lemma external_ready_idle: "idle external_ready"
  by (simp add: external_ready_def power_on_idle)

lemma bench_uart: "uart_pm_sound bench"
  using bench_rx_sound by (simp add: rx_sound_def)

lemma external_starts:
  "result (gnss_start (bench_env kconfig_defaults)) external_ready = 0"
  "active (exec (gnss_start (bench_env kconfig_defaults)) external_ready) = TRACKER_FIX_SOURCE_EXTERNAL"
  unfolding result_def exec_def
  by (simp_all add: eval_gnss evals bench_def external_ready_def power_on_def kconfig_simps)

theorem gnss_start_runs_the_active_receiver_witness:
  "uart_active (hist (exec (gnss_start (bench_env kconfig_defaults)) external_ready)) \<and>
   \<not> modem_running (hist (exec (gnss_start (bench_env kconfig_defaults)) external_ready))"
  using gnss_start_runs_the_active_receiver [OF external_ready_idle bench_uart, of kconfig_defaults bench_sdk no_int]
    external_starts by (auto simp: running_def rx_ok_def)




section \<open>A race in the modem's data\<close>




end
