(* ===== verification/Network_Properties.thy ===== *)
theory Network_Properties
  imports Receiver_Properties
begin

text \<open>
  The properties of the cloud transports and of the assistance download: acknowledged sends, the
  session's state machine, released resources, bounded waits, the rate limit.  Each is followed by a
  witness.
\<close>

section \<open>Hologram\<close>

text \<open>
  C20.  With Hologram, a telemetry message counts as sent only if the server acknowledged it: the
  reply that was received during the call contains \<open>[0,0]\<close>.
\<close>

theorem hologram_sent_is_acknowledged:
  fixes C S R when_int w
  defines "E \<equiv> tracker_env C S R when_int :: ('a tracker_state_scheme) env"
  assumes "TRACKER_CLOUD_PROVIDER C = HologramCloud" "\<not> TRACKER_OFFLINE_DEBUG C" "errno_sound R"
    and "result (cloud_send_telemetry E s) w = 0"
  shows "\<exists>es e fd. hist (exec (cloud_send_telemetry E s) w) = es @ hist w \<and> e \<in> set es \<and>
    ev_call e = Net (Recv fd (REPLY_MAX - 1)) \<and> 0 < rc (ev_resp e) \<and>
    occurs ''[0,0]'' (reply_text (rc (ev_resp e)) (text_out (ev_resp e)))"
proof -
  have "acked_between w (exec (cloud_send_telemetry E s) w)"
    using assms tracker.hologram_send_acked [where C = C and S = S and R = R and when_int = when_int and s = s and w = w]
    by (simp add: cloud_send_telemetry_def cloud_hologram_send_telemetry_def)
  then show ?thesis unfolding acked_between_def acked_def by blast
qed

definition keyed :: config where
  "keyed = kconfig_defaults\<lparr>HOLOGRAM_DEVICE_KEY := ''12345678'', TRACKER_CLOUD_PROVIDER := HologramCloud\<rparr>"

definition acks :: "event list \<Rightarrow> call \<Rightarrow> resp" where
  "acks = answers (\<lambda>c. case c of
     Net n \<Rightarrow> (case n of Recv _ _ \<Rightarrow> resp0\<lparr>rc := 5, text_out := ''[0,0]''\<rparr>
       | Socket \<Rightarrow> resp0\<lparr>rc := 3\<rparr> | _ \<Rightarrow> resp0)
   | _ \<Rightarrow> resp0)"

lemmas eval_hologram = cloud_hologram_send_telemetry_def hologram_send_def build_envelope_def
  add_strings_def socket_send_envelope_def exchange_def reply_text_def occurs.simps

theorem hologram_sent_is_acknowledged_witness:
  "\<exists>es e fd. hist (exec (cloud_send_telemetry (tracker_env keyed bench_sdk acks no_int) ''{}'')
      (power_on keyed 0 0)) = es @ [] \<and> e \<in> set es \<and> ev_call e = Net (Recv fd (REPLY_MAX - 1)) \<and>
    0 < rc (ev_resp e) \<and> occurs ''[0,0]'' (reply_text (rc (ev_resp e)) (text_out (ev_resp e)))"
proof -
  have sent: "result (cloud_send_telemetry (tracker_env keyed bench_sdk acks no_int) ''{}'') (power_on keyed 0 0) = 0"
    unfolding result_def
    by (simp add: eval_cloud eval_hologram evals acks_def answers_def power_on_def keyed_def kconfig_simps)
  have "errno_sound acks" by (simp add: errno_sound_def acks_def answers_def)
  with hologram_sent_is_acknowledged [OF _ _ _ sent] show ?thesis
    by (simp add: keyed_def kconfig_simps power_on_def)
qed

text \<open>
  C29.  A send over Hologram closes every socket it opened and frees every address list and every
  cJSON tree, on all its paths, as long as attaching the topics to the envelope works.
\<close>

theorem hologram_send_releases:
  fixes C S R when_int w
  defines "E \<equiv> tracker_env C S R when_int :: ('a tracker_state_scheme) env"
  assumes "\<And>h k. flag (R h (Net (CJSON_AddItemToObject k)))"
  shows "open_fds (hist (exec (hologram_send E s) w)) = open_fds (hist w) \<and>
    held_addrinfo (hist (exec (hologram_send E s) w)) = held_addrinfo (hist w) \<and>
    held_json (hist (exec (hologram_send E s) w)) = held_json (hist w)"
proof -
  have quiet: "net_quiet E" unfolding E_def by (rule tracker_net_quiet)
  have attach: "attach_works E" using assms(2) by (simp add: attach_works_def result_api E_def)
  have build: "open_fds (hist (exec (build_envelope E s n) w)) = open_fds (hist w)"
    "held_addrinfo (hist (exec (build_envelope E s n) w)) = held_addrinfo (hist w)" for n w
    using quiet by (simp_all add: build_envelope_def add_strings_def Let_def run_simps net_quiet_api)
  have sock: "held_json (hist (exec (socket_send_envelope E e) w)) = held_json (hist w)" for e w
    using quiet by (simp add: socket_send_envelope_def exchange_def Let_def run_simps net_quiet_api)
  show ?thesis
    using build_envelope_releases [OF quiet attach] socket_send_envelope_releases [OF quiet] build sock
    by (simp add: hologram_send_def run_simps split: sum.split)
qed

theorem hologram_send_releases_witness:
  "open_fds (hist (exec (hologram_send (tracker_env keyed bench_sdk acks no_int) ''{}'') (power_on keyed 0 0))) = []"
  using hologram_send_releases [of acks keyed bench_sdk no_int "''{}''" "power_on keyed 0 0"]
  by (simp add: acks_def answers_def power_on_def)

text \<open>
  Where attaching the topics fails, they leak, and the message is sent all the same.
\<close>

definition unattached :: "event list \<Rightarrow> call \<Rightarrow> resp" where
  "unattached h c = (case c of Net (CJSON_AddItemToObject _) \<Rightarrow> resp0\<lparr>flag := False\<rparr> | _ \<Rightarrow> acks h c)"

lemma failed_attach_leaks:
  "result (hologram_send (tracker_env keyed bench_sdk unattached no_int) ''{}'') (power_on keyed 0 0) = 0 \<and>
   held_json (hist (exec (hologram_send (tracker_env keyed bench_sdk unattached no_int) ''{}'') (power_on keyed 0 0))) = 1"
  unfolding result_def exec_def
  by (simp add: eval_hologram evals unattached_def acks_def answers_def power_on_def keyed_def kconfig_simps)

text \<open>The number of bytes that \<open>send\<close> accepted is not looked at: none at all counts as sent.\<close>

lemma empty_send_counts_as_sent:
  "(\<forall>h fd s. rc (acks h (Net (Send fd s))) = 0) \<and>
   result (hologram_send (tracker_env keyed bench_sdk acks no_int) ''{}'') (power_on keyed 0 0) = 0"
  unfolding result_def
  by (simp add: eval_hologram evals acks_def answers_def power_on_def keyed_def kconfig_simps)

section \<open>The nRF Cloud session\<close>

datatype cloud_op = Op_init | Op_resume | Op_pause | Op_send string | Op_locate tracker_fix

definition run_op :: "('a cloud_state_scheme) env \<Rightarrow> cloud_op \<Rightarrow> ('a cloud_state_scheme, unit) state" where
  "run_op E op = (case op of
     Op_init \<Rightarrow> ignore (cloud_init E)
   | Op_resume \<Rightarrow> ignore (cloud_resume E)
   | Op_pause \<Rightarrow> cloud_pause E
   | Op_send s \<Rightarrow> ignore (cloud_send_telemetry E s)
   | Op_locate fx \<Rightarrow> ignore (cloud_send_location E fx))"

context cloud_runtime begin

lemma run_op_link_current:
  assumes "TRACKER_CLOUD_PROVIDER (cfg E) = NrfCloud" "\<not> TRACKER_OFFLINE_DEBUG (cfg E)" "link_current w"
  shows "link_current (exec (run_op E op) w)"
proof (cases op)
  case Op_resume
  then show ?thesis
    using cloud_nrf_resume_session assms by (simp add: run_op_def cloud_resume_def run_simps)
next
  case Op_pause
  then show ?thesis
    using cloud_nrf_pause_session assms by (simp add: run_op_def cloud_pause_def run_simps)
qed (use assms in \<open>simp_all add: run_op_def cloud_init_def cloud_nrf_init_def credentials_ok_def
    cloud_send_telemetry_def cloud_nrf_send_telemetry_def cloud_send_location_def
    cloud_nrf_send_location_def run_simps Let_def link_current_def session_api session_call_def
    split: prod.split\<close>)

lemma run_op_protocol:
  assumes "TRACKER_CLOUD_PROVIDER (cfg E) = NrfCloud" "link_current w" "session_protocol (hist w)"
  shows "session_protocol (hist (exec (run_op E op) w))"
  using assms
  by (cases op; cases "session (hist w)")
     (simp_all add: run_op_def cloud_init_def cloud_nrf_init_def credentials_ok_def
      cloud_send_telemetry_def cloud_nrf_send_telemetry_def cloud_send_location_def
      cloud_nrf_send_location_def cloud_resume_def cloud_nrf_resume_def cloud_nrf_connect_def
      modem_time_wait_def cloud_pause_def cloud_nrf_pause_def run_simps Let_def protocol_after
      session_after link_current_def split: prod.split)

end

text \<open>
  C21.  Whatever the order in which the cloud's operations are called, \<open>link_state\<close> is the state the
  session was left in by the calls made so far, and those calls obey the protocol: no second connect,
  no pause of what is not connected, no resume of what is not paused.
\<close>

theorem session_refines_history:
  fixes C S R when_int w
  defines "E \<equiv> tracker_env C S R when_int :: ('a tracker_state_scheme) env"
  assumes "TRACKER_CLOUD_PROVIDER C = NrfCloud" "\<not> TRACKER_OFFLINE_DEBUG C"
    and "link_state w = session (hist w)" "session_protocol (hist w)"
  shows "link_state (fold (\<lambda>op. exec (run_op E op)) ops w) =
      session (hist (fold (\<lambda>op. exec (run_op E op)) ops w)) \<and>
    session_protocol (hist (fold (\<lambda>op. exec (run_op E op)) ops w))"
proof -
  have "link_current (fold (\<lambda>op. exec (run_op E op)) ops w) \<and>
      session_protocol (hist (fold (\<lambda>op. exec (run_op E op)) ops w))"
    if "link_current w" "session_protocol (hist w)" for w
    using that
  proof (induction ops arbitrary: w)
    case (Cons op ops)
    then show ?case
      using tracker.run_op_link_current [where C = C and S = S and R = R and when_int = when_int and w = w and op = op]
        tracker.run_op_protocol [where C = C and S = S and R = R and when_int = when_int and w = w and op = op] assms(2,3)
      by (simp add: E_def)
  qed simp
  then show ?thesis using assms(4,5) by (simp add: link_current_def)
qed

theorem session_refines_history_witness:
  "session_protocol (hist (fold (\<lambda>op. exec (run_op (bench_env kconfig_defaults) op))
     [Op_init, Op_resume, Op_send ''{}'', Op_pause, Op_resume, Op_resume, Op_pause] (power_on kconfig_defaults 0 0)))"
  by (rule session_refines_history [THEN conjunct2]) (simp_all add: power_on_def kconfig_simps)

text \<open>
  C22.  Bringing the link up succeeds exactly if the transport reports itself ready afterwards;
  putting it to rest makes no transport ready; both keep the invariant that a connected link has
  credentials (or is the bench's).
\<close>

theorem cloud_resume_reports_readiness:
  fixes C S R when_int w
  defines "E \<equiv> tracker_env C S R when_int :: ('a tracker_state_scheme) env"
  assumes "cloud_ok C w"
  shows "(result (cloud_resume E) w = 0 \<longleftrightarrow> result (cloud_is_ready E) (exec (cloud_resume E) w)) \<and>
    (result (cloud_is_ready E) (exec (cloud_pause E) w) \<longrightarrow> result (cloud_is_ready E) w) \<and>
    cloud_ok C (exec (cloud_resume E) w) \<and> cloud_ok C (exec (cloud_pause E) w)"
proof (cases "TRACKER_CLOUD_PROVIDER C")
  case NrfCloud
  then have "link_ok C w" using assms(2) by (simp add: cloud_ok_def)
  then show ?thesis
    using NrfCloud tracker.cloud_nrf_resume_result [where C = C and S = S and R = R and when_int = when_int and w = w]
      tracker.cloud_nrf_pause_link [where C = C and S = S and R = R and when_int = when_int and w = w]
    by (auto simp: E_def cloud_resume_def cloud_is_ready_def cloud_nrf_is_ready_def cloud_pause_def
        cloud_ok_def run_simps)
next
  case HologramCloud
  then show ?thesis
    by (simp add: E_def cloud_resume_def cloud_is_ready_def cloud_hologram_resume_def
        cloud_hologram_is_ready_def cloud_pause_def cloud_hologram_pause_def cloud_ok_def run_simps)
qed

definition credentialed :: tracker_state where
  "credentialed = (power_on kconfig_defaults 0 0)\<lparr>creds_ok := True\<rparr>"

theorem cloud_resume_reports_readiness_witness:
  "link_state (exec (cloud_resume (bench_env kconfig_defaults)) credentialed) = LINK_CONNECTED"
proof -
  have "result (cloud_resume (bench_env kconfig_defaults)) credentialed = 0"
    unfolding result_def
    by (simp add: eval_cloud evals bench_def credentialed_def power_on_def kconfig_simps)
  moreover have "cloud_ok kconfig_defaults credentialed"
    by (simp add: cloud_ok_def link_ok_def credentialed_def power_on_def)
  ultimately show ?thesis
    using cloud_resume_reports_readiness [of kconfig_defaults credentialed bench_sdk bench no_int]
    by (simp add: cloud_is_ready_def cloud_nrf_is_ready_def run_simps kconfig_simps)
qed

context cloud_runtime begin

lemma modem_time_loop_waits:
  assumes "\<not> in_isr E" "\<not> modem_time_ready (exec (modem_time_loop E waited) w)"
  shows "slept (hist w) + 1000 * (TRACKER_MODEM_TIME_WAIT_SECONDS (cfg E) - waited) \<le>
    slept (hist (exec (modem_time_loop E waited) w))"
  using assms(2)
proof (induction "TRACKER_MODEM_TIME_WAIT_SECONDS (cfg E) - waited" arbitrary: waited w rule: less_induct)
  case less
  show ?case
  proof (cases "waited < TRACKER_MODEM_TIME_WAIT_SECONDS (cfg E)")
    case True
    let ?w1 = "exec (api E (Modem (Nrf_modem_at_cmd ''AT%CCLK?''))) w"
    let ?w3 = "exec (watchdog_feed E) (exec (api E (Kern (K_sleep (MODEM_TIME_POLL_S * 1000)))) ?w1)"
    have run: "exec (modem_time_loop E waited) w = exec (modem_time_loop E (waited + MODEM_TIME_POLL_S)) ?w3"
      using less.prems True by (auto simp: modem_time_loop.simps [of E waited] run_simps split: if_splits)
    have "slept (hist ?w3) + 1000 * (TRACKER_MODEM_TIME_WAIT_SECONDS (cfg E) - (waited + MODEM_TIME_POLL_S)) \<le>
        slept (hist (exec (modem_time_loop E waited) w))"
      unfolding run using less.prems True unfolding run
      by (intro less.hyps) (simp_all add: MODEM_TIME_POLL_S_def)
    moreover have "slept (hist ?w3) = slept (hist w) + 3000"
      using assms(1) by (simp add: slept_api MODEM_TIME_POLL_S_def)
    ultimately show ?thesis by (simp add: MODEM_TIME_POLL_S_def)
  next
    case False
    then show ?thesis by (simp add: modem_time_loop.simps run_simps)
  qed
qed

end

text \<open>
  C32.  Waiting for network time ends: it sleeps for less than \<open>TRACKER_MODEM_TIME_WAIT_SECONDS\<close> and
  one poll period in total, and gives up only after that many seconds.
\<close>

theorem modem_time_wait_bounded:
  fixes C S R when_int w
  defines "E \<equiv> tracker_env C S R when_int :: ('a tracker_state_scheme) env"
  shows "slept (hist (exec (modem_time_wait E) w)) \<le>
      slept (hist w) + 1000 * (TRACKER_MODEM_TIME_WAIT_SECONDS C + 2) \<and>
    (modem_time_ready (exec (modem_time_wait E) w) \<or>
      slept (hist w) + 1000 * TRACKER_MODEM_TIME_WAIT_SECONDS C \<le> slept (hist (exec (modem_time_wait E) w)))"
  using tracker.modem_time_loop_slept [where C = C and S = S and R = R and when_int = when_int and waited = 0 and w = w]
    tracker.modem_time_loop_waits [where C = C and S = S and R = R and when_int = when_int and waited = 0 and w = w]
  by (auto simp: modem_time_wait_def run_simps E_def)

section \<open>Assistance\<close>

text \<open>
  Within \<open>TRACKER_AGNSS_MIN_INTERVAL_SECONDS\<close> of the last successful fetch, another one is
  declined, and all it does is read the clock: the receiver is not stopped, nothing is downloaded.
\<close>

theorem agnss_rate_limit:
  fixes C S R when_int w
  defines "E \<equiv> tracker_env C S R when_int :: ('a tracker_state_scheme) env"
  assumes "TRACKER_AGNSS C" "0 < TRACKER_AGNSS_MIN_INTERVAL_SECONDS C" "last_fetch_uptime_ms w \<noteq> 0"
    and "result (k_uptime_get E) w - last_fetch_uptime_ms w < int (TRACKER_AGNSS_MIN_INTERVAL_SECONDS C) * 1000"
  shows "result (agnss_fetch_and_inject E) w = - EAGAIN \<and>
    exec (agnss_fetch_and_inject E) w = exec (k_uptime_get E) w"
proof -
  have "result (rate_limited E) w"
    using assms(3-5) tracker.rate_limited_window [where C = C and S = S and R = R and when_int = when_int and w = w]
    by (simp add: E_def)
  moreover have "exec (rate_limited E) w = exec (k_uptime_get E) w"
    using assms(4) by (simp add: rate_limited_def run_simps)
  ultimately show ?thesis
    using assms(2) tracker.agnss_limited [where C = C and S = S and R = R and when_int = when_int and w = w]
    by (simp add: E_def)
qed

definition fetched :: tracker_state where
  "fetched = (power_on kconfig_defaults 0 0)\<lparr>last_fetch_uptime_ms := 4999000000\<rparr>"

definition late :: "event list \<Rightarrow> call \<Rightarrow> resp" where
  "late h c = resp0\<lparr>i64 := 5000000000\<rparr>"

theorem agnss_rate_limit_witness:
  "result (agnss_fetch_and_inject (tracker_env kconfig_defaults bench_sdk late no_int)) fetched = - EAGAIN"
proof -
  have "result (k_uptime_get (tracker_env kconfig_defaults bench_sdk late no_int)) fetched = 5000000000"
    by (simp add: k_uptime_get_def run_simps result_api late_def)
  then show ?thesis
    using agnss_rate_limit [of kconfig_defaults fetched bench_sdk late no_int]
    by (simp add: fetched_def kconfig_simps)
qed

text \<open>
  C27.  An assistance fetch leaves the receiver as it found it: running before, it runs afterwards,
  unless the fetch says it could not be restarted; and it never starts the external module.
\<close>

theorem agnss_restores_the_receiver:
  fixes C S R when_int w
  defines "E \<equiv> tracker_env C S R when_int :: ('a tracker_state_scheme) env"
  assumes "rx_ok w" "active w = TRACKER_FIX_SOURCE_MODEM" "modem_running (hist w)"
  shows "(modem_running (hist (exec (agnss_fetch_and_inject E) w)) \<or>
      result (agnss_fetch_and_inject E) w = - EIO) \<and>
    rx_ok (exec (agnss_fetch_and_inject E) w) \<and>
    active (exec (agnss_fetch_and_inject E) w) = TRACKER_FIX_SOURCE_MODEM"
  using assms tracker.agnss_fetch_and_inject_receiver [where C = C and S = S and R = R and when_int = when_int and w = w]
    tracker.agnss_fetch_and_inject_rx_ok [where C = C and S = S and R = R and when_int = when_int and w = w]
  by simp

definition on_modem :: tracker_state where
  "on_modem = exec (gnss_modem_start (bench_env kconfig_defaults)) (power_on kconfig_defaults 0 0)"

lemma on_modem_ok:
  "rx_ok on_modem" "active on_modem = TRACKER_FIX_SOURCE_MODEM" "modem_running (hist on_modem)"
proof -
  have w: "rx_ok (power_on kconfig_defaults 0 0)" "active (power_on kconfig_defaults 0 0) = TRACKER_FIX_SOURCE_MODEM"
    by (simp_all add: rx_ok_def power_on_def ext_power_ok_def)
  show "rx_ok on_modem" unfolding on_modem_def by (rule tracker.modem_ops_rx_ok(1) [OF w])
  show "active on_modem = TRACKER_FIX_SOURCE_MODEM" unfolding on_modem_def using w(2) by simp
  have "result (gnss_modem_start (bench_env kconfig_defaults)) (power_on kconfig_defaults 0 0) = 0"
    unfolding result_def by (simp add: eval_gnss evals bench_def power_on_def kconfig_simps)
  then show "modem_running (hist on_modem)" unfolding on_modem_def by (simp add: tracker.modem_start_running)
qed

theorem agnss_restores_the_receiver_witness:
  "active (exec (agnss_fetch_and_inject (bench_env kconfig_defaults)) on_modem) = TRACKER_FIX_SOURCE_MODEM"
  using agnss_restores_the_receiver [OF on_modem_ok] by blast

end
