(* ===== verification/Report_Properties.thy ===== *)
theory Report_Properties
  imports Network_Properties
begin

text \<open>
  The properties of main.c's functions: reports, recovery from silence, the battery sleep, the motion
  sensor's arming, the LED's pattern.  Each is followed by a witness.
\<close>

section \<open>Reports\<close>

text \<open>
  C10.  A report that returns 0 sets \<open>last_send_uptime\<close> to an uptime between its beginning and its
  end; a report that returns an error leaves it alone, so that the silence keeps growing.
\<close>

theorem report_is_recorded:
  fixes C S R when_int w
  defines "E \<equiv> tracker_env C S R when_int :: ('a tracker_state_scheme) env"
  assumes "clock_sound R"
  shows "(result (report_fix E fx t r) w = 0 \<longrightarrow>
      int (elapsed (hist w)) \<le> last_send_uptime (exec (report_fix E fx t r) w) \<and>
      last_send_uptime (exec (report_fix E fx t r) w) \<le> int (elapsed (hist (exec (report_fix E fx t r) w)))) \<and>
    (result (report_fix E fx t r) w \<noteq> 0 \<longrightarrow>
      last_send_uptime (exec (report_fix E fx t r) w) = last_send_uptime w)"
  using tracker.report_fix_sent [where C = C and S = S and R = R and when_int = when_int and w = w]
    tracker.report_fix_failed [where C = C and S = S and R = R and when_int = when_int and w = w] assms
  by simp

text \<open>A clock that runs while the main thread sleeps or waits, and Hologram's acknowledgement.\<close>

definition ticking :: "event list \<Rightarrow> call \<Rightarrow> resp" where
  "ticking h c = (case c of
     Kern k \<Rightarrow> (case k of
         K_uptime_get \<Rightarrow> resp0\<lparr>i64 := int (elapsed h)\<rparr>
       | K_sleep ms \<Rightarrow> resp0\<lparr>took := ms\<rparr>
       | K_sem_take _ ms \<Rightarrow> timed_out\<lparr>took := ms\<rparr>
       | _ \<Rightarrow> resp0)
   | _ \<Rightarrow> acks h c)"

lemma ticking_clock: "clock_sound ticking"
  by (simp add: clock_sound_def ticking_def)

abbreviation ticking_env :: "tracker_state env" where
  "ticking_env \<equiv> tracker_env keyed bench_sdk ticking no_int"

lemma ticking_send: "result (send_payload ticking_env s) w = 0"
  unfolding result_def
  by (simp add: send_payload_def link_stale_def eval_cloud eval_hologram evals ticking_def acks_def
      answers_def keyed_def kconfig_simps EACCES_def ENOTCONN_def)

lemma ticking_report_sent:
  "result (report_fix ticking_env None 0 TRACKER_WAKE_TIMER) (power_on keyed 0 0) = 0"
proof -
  define tm where "tm = result (collect_telemetry ticking_env None 0 TRACKER_WAKE_TIMER) (power_on keyed 0 0)"
  have "plausible tm"
    unfolding tm_def result_def
    by (simp add: collect_telemetry_def power_read_def k_uptime_get_def evals ticking_def acks_def answers_def
        plausible_def power_on_def)
  then have "length (telemetry_json keyed phase tm) < 256" for phase
    using telemetry_json_length [of tm keyed phase] by (simp add: keyed_def kconfig_simps)
  then have built: "\<not> n < 0" if "result (telemetry_build_json ticking_env tm 256) w = (n, s)" for n s w
    using that by (auto simp: telemetry_build_json_result Let_def)
  then show ?thesis
    by (auto simp: report_fix_def run_simps tm_def ticking_send split: prod.splits dest: built [unfolded tm_def])
qed

theorem report_is_recorded_witness:
  "last_send_uptime (exec (report_fix ticking_env None 0 TRACKER_WAKE_TIMER) (power_on keyed 0 0)) \<le>
   int (elapsed (hist (exec (report_fix ticking_env None 0 TRACKER_WAKE_TIMER) (power_on keyed 0 0))))"
  using report_is_recorded [OF ticking_clock, of keyed bench_sdk no_int None 0 TRACKER_WAKE_TIMER "power_on keyed 0 0"]
    ticking_report_sent by simp

text \<open>
  C28.  A cycle without a fix sends nothing, unless the build asks for reports without one: between
  the attempt and the end of the first report no call goes to a cloud or to the network.
\<close>

theorem no_fix_no_message:
  fixes C S R when_int w
  defines "E \<equiv> tracker_env C S R when_int :: ('a tracker_state_scheme) env"
  assumes "\<not> TRACKER_FORCE_PUBLISH_WITHOUT_FIX C"
  shows "\<exists>es. hist (exec (first_report E None t r) w) = es @ hist w \<and>
    (\<forall>e \<in> set es. ev_isr e \<or> (\<forall>x. ev_call e \<noteq> Cloud x) \<and> (\<forall>x. ev_call e \<noteq> Net x))"
proof -
  let ?A = "\<lambda>c. (\<forall>x. c \<noteq> Cloud x) \<and> (\<forall>x. c \<noteq> Net x)"
  have "issues ?A (report_outcome E None t r)"
    unfolding E_def by (rule tracker.report_outcome_silent) (simp add: assms(2))
  moreover have "issues ?A (watchdog_feed E)"
    unfolding E_def by (rule tracker.watchdog_feed_issues) simp
  moreover have "first_report E None t r = do { report_outcome E None t r; watchdog_feed E }"
    by (simp add: first_report_def)
  ultimately have "issues ?A (first_report E None t r)"
    by (simp add: issues_bind)
  then show ?thesis by (simp add: issues_def)
qed

theorem no_fix_no_message_witness:
  "\<exists>es. hist (exec (first_report (bench_env kconfig_defaults) None 0 TRACKER_WAKE_TIMER) (power_on kconfig_defaults 0 0)) = es \<and>
    (\<forall>e \<in> set es. ev_isr e \<or> (\<forall>x. ev_call e \<noteq> Cloud x) \<and> (\<forall>x. ev_call e \<noteq> Net x))"
  using no_fix_no_message [of kconfig_defaults bench_sdk bench no_int 0 TRACKER_WAKE_TIMER "power_on kconfig_defaults 0 0"]
  by (simp add: kconfig_simps power_on_def)

text \<open>
  C35.  With nRF Cloud, the reconnect that \<open>report_fix\<close> means to do for a stale session never takes
  place while the link is marked connected: the report makes no call that brings a session up,
  whatever the first send returns.
\<close>

theorem stale_report_never_reconnects:
  fixes C S R when_int w
  defines "E \<equiv> tracker_env C S R when_int :: ('a tracker_state_scheme) env"
  assumes "TRACKER_CLOUD_PROVIDER C = NrfCloud" "link_ok C w" "link_state w = LINK_CONNECTED"
  shows "\<exists>es. hist (exec (report_fix E fx t r) w) = es @ hist w \<and>
    (\<forall>e \<in> set es. ev_isr e \<or> ev_call e \<noteq> Cloud Coap_connect \<and> ev_call e \<noteq> Cloud Coap_resume)"
proof -
  have "calls_only other_call w (exec (report_fix E fx t r) w)"
    unfolding E_def by (rule tracker.report_fix_never_reconnects) (simp_all add: assms)
  then show ?thesis unfolding calls_only_def session_call_def by blast
qed

definition linked :: tracker_state where
  "linked = (power_on kconfig_defaults 0 0)\<lparr>creds_ok := True, link_state := LINK_CONNECTED\<rparr>"

text \<open>The server rejects every message because the session is gone.\<close>

definition aged_out :: "event list \<Rightarrow> call \<Rightarrow> resp" where
  "aged_out h c = (case c of Cloud (Coap_json_message_send _) \<Rightarrow> resp0\<lparr>rc := - EACCES\<rparr> | _ \<Rightarrow> resp0)"

theorem stale_report_never_reconnects_witness:
  "\<exists>es. hist (exec (report_fix (tracker_env kconfig_defaults bench_sdk aged_out no_int) None 0 TRACKER_WAKE_TIMER) linked) = es \<and>
    (\<forall>e \<in> set es. ev_isr e \<or> ev_call e \<noteq> Cloud Coap_connect \<and> ev_call e \<noteq> Cloud Coap_resume)"
  using stale_report_never_reconnects [of kconfig_defaults linked bench_sdk aged_out no_int None 0 TRACKER_WAKE_TIMER]
  by (simp add: linked_def power_on_def kconfig_simps link_ok_def)

text \<open>
  C37.  The awake time in the telemetry is the whole seconds since the cycle began, as long as the
  uptime fits 32 bits (the first 49.7 days).
\<close>

theorem awake_time_is_exact:
  fixes C S R when_int w
  defines "E \<equiv> tracker_env C S R when_int :: ('a tracker_state_scheme) env"
  assumes "0 \<le> T" "T \<le> result (k_uptime_get E) w" "result (k_uptime_get E) w < 2 ^ 32"
  shows "uint (tm_awake_s (result (collect_telemetry E fx (to_u32 T) r) w)) =
    (result (k_uptime_get E) w - T) div 1000"
proof -
  have "uint (to_u32 T) = T" using assms(2-4) by (simp add: uint_word_of_int)
  moreover have "c_div (result (k_uptime_get E) w - T) 1000 = (result (k_uptime_get E) w - T) div 1000"
    using assms(3) by simp
  moreover have "(result (k_uptime_get E) w - T) div 1000 < 2 ^ 32" "0 \<le> (result (k_uptime_get E) w - T) div 1000"
    using assms(2-4) by (simp_all add: pos_imp_zdiv_nonneg_iff)
  ultimately show ?thesis
    by (simp add: collect_telemetry_def run_simps uint_word_of_int)
qed

definition at_uptime :: "int \<Rightarrow> event list \<Rightarrow> call \<Rightarrow> resp" where
  "at_uptime now h c = resp0\<lparr>i64 := now\<rparr>"

lemma at_uptime_now:
  "result (k_uptime_get (tracker_env C S (at_uptime now) no_int)) w = now"
  by (simp add: k_uptime_get_def run_simps result_api at_uptime_def)

theorem awake_time_is_exact_witness:
  "uint (tm_awake_s (result (collect_telemetry (tracker_env kconfig_defaults bench_sdk (at_uptime 65000) no_int) None
     (to_u32 40000) TRACKER_WAKE_TIMER) (power_on kconfig_defaults 0 0))) = 25"
  using awake_time_is_exact [of 40000 kconfig_defaults bench_sdk "at_uptime 65000" no_int
      "power_on kconfig_defaults 0 0" None TRACKER_WAKE_TIMER]
  by (simp add: at_uptime_now)

text \<open>Beyond, the truncated start of the cycle is subtracted from the full uptime: 5 s become 49.7 days.\<close>

lemma awake_time_wraps:
  "uint (tm_awake_s (result (collect_telemetry (tracker_env kconfig_defaults bench_sdk (at_uptime 4294972296) no_int) None
     (to_u32 4294967296) TRACKER_WAKE_TIMER) (power_on kconfig_defaults 0 0))) = 4294972"
proof -
  have "to_u32 4294967296 = 0" by simp
  then show ?thesis
    by (simp add: collect_telemetry_def run_simps at_uptime_now c_div_def)
qed

section \<open>Recovery from silence\<close>

text \<open>
  The tracker reboots itself exactly if nothing has been sent for \<open>TRACKER_REBOOT_MINUTES\<close>; then
  the phase marker says so, and the reset is the last thing it does.
\<close>

theorem reboots_after_long_silence:
  fixes C S R when_int w
  defines "E \<equiv> tracker_env C S R when_int :: ('a tracker_state_scheme) env"
  assumes "0 < TRACKER_MODEM_RECOVERY_MINUTES C" "TRACKER_MODEM_RECOVERY_MINUTES C \<le> TRACKER_REBOOT_MINUTES C"
  shows "(result (recover_if_silent E) w \<longleftrightarrow>
      result (k_uptime_get E) w - last_send_uptime w \<ge> int (TRACKER_REBOOT_MINUTES C) * 60000) \<and>
    (result (recover_if_silent E) w \<longrightarrow>
      phase_current (exec (recover_if_silent E) w) = phase_val TRACKER_PHASE_NO_NETWORK \<and>
      ev_call (hd (hist (exec (recover_if_silent E) w))) = Kern Sys_reboot)"
  using tracker.recover_reboots [where C = C and S = S and R = R and when_int = when_int and w = w]
    tracker.recover_reboot_marked [where C = C and S = S and R = R and when_int = when_int and w = w] assms
  by (simp add: silence_ms_def)

theorem reboots_after_long_silence_witness:
  "ev_call (hd (hist (exec (recover_if_silent (tracker_env kconfig_defaults bench_sdk (at_uptime 7200000) no_int))
     (power_on kconfig_defaults 0 0)))) = Kern Sys_reboot"
  using reboots_after_long_silence [of kconfig_defaults bench_sdk "at_uptime 7200000" no_int "power_on kconfig_defaults 0 0"]
  by (simp add: kconfig_simps at_uptime_now power_on_def)

text \<open>
  C4.  On battery, a tracker that nothing wakes early and whose every send fails reboots: once
  \<open>n\<close> sleeps cover \<open>TRACKER_REBOOT_MINUTES\<close>, a run of \<open>main\<close> of at most \<open>n + 1\<close> passes of its loop ends so.
\<close>

theorem silent_tracker_reboots:
  fixes C S R when_int m p
  defines "E \<equiv> tracker_env C S R when_int :: tracker_state env"
  assumes "clock_sound R" "undisturbed R"
    and "\<forall>w. \<not> result (power_vbus_present E) w" "\<And>s w. result (send_payload E s) w \<noteq> 0"
    and "\<not> TRACKER_SKIP_LTE C" "0 < TRACKER_MODEM_RECOVERY_MINUTES C"
    and "TRACKER_MODEM_RECOVERY_MINUTES C \<le> TRACKER_REBOOT_MINUTES C"
    and "TRACKER_REBOOT_MINUTES C * 60 \<le> n * TRACKER_SLEEP_SECONDS C"
    and "result (boot E) (power_on C m p) = None"
  shows "result (main (Suc n) fuel E) (power_on C m p) = Inr Rebooted"
proof -
  let ?w = "exec (boot E) (power_on C m p)"
  have "unreported (power_on C m p) ?w" unfolding E_def by (rule advancesD) (rule tracker.unreported_boot)
  then have "last_send_uptime ?w = 0" by (simp add: unreported_def power_on_def)
  moreover have "int (TRACKER_REBOOT_MINUTES C) * 60000 \<le> int n * (int (TRACKER_SLEEP_SECONDS C) * 1000)"
    using assms(9) [folded of_nat_le_iff [where 'a = int]] by simp
  ultimately have "result (cycles (Suc n) fuel E TRACKER_WAKE_BOOT) ?w = Rebooted"
    unfolding E_def using assms(2-8) by (intro tracker.cycles_silent) (simp_all add: E_def del: cycles.simps)
  then show ?thesis using assms(10) by (simp add: main_def run_simps del: cycles.simps)
qed

text \<open>A build without a Hologram key: every send is refused.\<close>

definition unkeyed :: config where
  "unkeyed = receivers_only\<lparr>TRACKER_SKIP_LTE := False\<rparr>"

abbreviation unkeyed_env :: "tracker_state env" where
  "unkeyed_env \<equiv> tracker_env unkeyed bench_sdk ticking no_int"

lemma unkeyed_never_sends: "result (send_payload unkeyed_env s) w \<noteq> 0"
  unfolding result_def
  by (simp add: send_payload_def link_stale_def eval_cloud eval_hologram evals ticking_def acks_def
      answers_def unkeyed_def receivers_only_def kconfig_simps EACCES_def ENOTCONN_def ENOMEM_def
      split: prod.split)

lemma unkeyed_boots: "result (boot unkeyed_env) (power_on unkeyed 0 0) = None"
  unfolding result_def
  by (simp add: eval_boot eval_main eval_board evals power_on_def unkeyed_def receivers_only_def kconfig_simps
      ticking_def acks_def answers_def)

theorem silent_tracker_reboots_witness:
  "result (main 15 0 unkeyed_env) (power_on unkeyed 0 0) = Inr Rebooted"
proof -
  have "\<forall>w. \<not> result (power_vbus_present unkeyed_env) w"
    by (simp add: power_vbus_present_def read_vbus_present_def run_simps api_simps no_int_def ticking_def
      acks_def answers_def VBUS_STAT_PRESENT_def)
  moreover have "undisturbed ticking" by (simp add: undisturbed_def ticking_def)
  ultimately have "result (main (Suc 14) 0 unkeyed_env) (power_on unkeyed 0 0) = Inr Rebooted"
    by (intro silent_tracker_reboots ticking_clock unkeyed_never_sends unkeyed_boots)
       (simp_all add: unkeyed_def receivers_only_def kconfig_simps)
  then show ?thesis by simp
qed

section \<open>Settling and arming\<close>

context tracker_runtime begin

lemma battery_sleep_counts:
  assumes "TRACKER_MOTION_SETTLE_CYCLES (cfg E) < 2 ^ 32" "battery_sleeps w = 0"
  shows "unat (battery_sleeps ((exec (battery_sleep E) ^^ n) w)) = min n (TRACKER_MOTION_SETTLE_CYCLES (cfg E))"
proof (induction n)
  case (Suc n)
  then show ?case using battery_sleep_count [OF assms(1), of "(exec (battery_sleep E) ^^ n) w"] by simp
qed (simp add: assms(2))

end

text \<open>
  From the moment external power was seen, the count of battery sleeps goes up by one per sleep
  until it reaches \<open>TRACKER_MOTION_SETTLE_CYCLES\<close>, and stays there.
\<close>

theorem settle_count_saturates:
  fixes C S R when_int and w :: "'a tracker_state_scheme"
  defines "sleep \<equiv> exec (battery_sleep (tracker_env C S R when_int))"
  assumes "TRACKER_MOTION_SETTLE_CYCLES C < 2 ^ 32" "battery_sleeps w = 0"
  shows "unat (battery_sleeps ((sleep ^^ n) w)) = min n (TRACKER_MOTION_SETTLE_CYCLES C)"
  using tracker.battery_sleep_counts [where C = C and S = S and R = R and when_int = when_int and w = w and n = n] assms
  by simp

definition unplugged :: tracker_state where
  "unplugged = (power_on kconfig_defaults 0 0)\<lparr>battery_sleeps := 0\<rparr>"

theorem settle_count_saturates_witness:
  "unat (battery_sleeps ((exec (battery_sleep (bench_env kconfig_defaults)) ^^ 3) unplugged)) = 1"
  using settle_count_saturates [of kconfig_defaults unplugged 3 bench_sdk bench no_int]
  by (simp add: kconfig_simps unplugged_def)



text \<open>
  Whatever is asked of it and whatever the sensor answers, \<open>armed\<close> is what the sensor was last
  successfully set to, and asking for what already holds makes no call on the bus.
\<close>

lemma armed_matches_the_sensor:
  fixes C S R when_int and w :: "'a tracker_state_scheme"
  defines "arm \<equiv> \<lambda>a. exec (motion_set_armed (tracker_env C S R when_int) a)"
  assumes "armed w = trigger_set (hist w)"
  shows "armed (fold arm as w) = trigger_set (hist (fold arm as w)) \<and>
    arm (armed (fold arm as w)) (fold arm as w) = fold arm as w"
proof -
  have "armed_current (fold arm as w)" if "armed_current w" for w
    using that
  proof (induction "as" arbitrary: w)
    case (Cons a as)
    have "armed_current (arm a w)"
      unfolding arm_def by (rule keepsD [OF tracker.motion_set_armed_armed_current Cons.prems])
    then show ?case by (simp add: Cons.IH)
  qed simp
  then show ?thesis
    using assms(2) by (simp add: armed_current_def arm_def tracker.motion_set_armed_idle)
qed

section \<open>The LED's pattern\<close>



end
