(* ===== verification/Run_Properties.thy ===== *)
theory Run_Properties
  imports Report_Properties
begin

text \<open>
  Properties of whole runs of \<open>main\<close> from power-on: the arguments of every call, the restarts of the
  modem and the cloud session during sleep; the recovery decision; what the phase marker says after a
  reset; the longest silence, whatever fails and when everything works.
\<close>

section \<open>Every call in its domain\<close>

text \<open>
  C8.  A build whose options are within the ranges of Kconfig makes, in a whole run from power-on and
  under any interrupts, only calls with arguments in their domain: the watchdog is fed on a channel it
  installed and only once it runs; sockets are used and closed only while they are open, and cJSON items
  only while they are alive; pins, LED channels, sensor attributes, periods, buffer sizes and message
  lengths are within their bounds.
\<close>

theorem every_call_is_in_its_domain:
  fixes C S R when_int m p
  defines "E \<equiv> tracker_env C S R when_int :: tracker_state env"
  assumes "builds C"
  shows "calls_ok C (hist (exec (main n fuel E) (power_on C m p)))"
proof -
  have "typed C (exec (main n fuel E) (power_on C m p))"
    using typed.typed_main [where C = C and S = S and R = R and when_int = when_int and w = "power_on C m p"]
    unfolding E_def by (simp add: typed_idle_def power_on_def)
  then show ?thesis using assms(2) by (simp add: typed_def)
qed

theorem every_call_is_in_its_domain_witness:
  "calls_ok kconfig_defaults (hist (exec (main 10 50 (tracker_env kconfig_defaults bench_sdk bench
     (during (Kern (K_sem_take Wake_sem 540000)) [Int_pmic (BIT 3), Int_motion, Int_blink])))
     (power_on kconfig_defaults 0 0)))"
  by (rule every_call_is_in_its_domain) (rule kconfig_defaults_builds)

section \<open>Recovery\<close>

text \<open>
  C14.  The check for silence is the decision it is meant to be: from the time since the last report and
  the restart mark, it carries on, restarts the modem or reboots, by exactly the calls and the change
  of the mark that the decision prescribes.
\<close>

theorem recovery_follows_the_decision:
  fixes C S R when_int w
  defines "E \<equiv> tracker_env C S R when_int :: ('a tracker_state_scheme) env"
  defines "silence \<equiv> result (k_uptime_get E) w - last_send_uptime w"
  defines "d \<equiv> decide C silence (modem_bounced w)"
  assumes "0 \<le> silence"
  shows "(result (recover_if_silent E) w \<longleftrightarrow> d = Reboot_device) \<and>
    modem_bounced (exec (recover_if_silent E) w) = next_mark C silence (modem_bounced w) \<and>
    own_calls (hist (exec (recover_if_silent E) w)) = rev (recovery_calls d) @ Kern K_uptime_get # own_calls (hist w) \<and>
    phase_current (exec (recover_if_silent E) w) =
      (if d = Reboot_device then phase_val TRACKER_PHASE_NO_NETWORK else phase_current w)"
  using main.recover_decides [where C = C and S = S and R = R and when_int = when_int and w = w] assms(4)
  unfolding d_def silence_def E_def silence_ms_def by simp

theorem recovery_follows_the_decision_witness:
  "own_calls (hist (exec (recover_if_silent (tracker_env kconfig_defaults bench_sdk (at_uptime 2400000) no_int))
     (power_on kconfig_defaults 0 0))) = [Modem (Lte_lc_func_mode_set LTE_LC_FUNC_MODE_NORMAL),
       Kern (K_sleep 1000), Modem (Lte_lc_func_mode_set LTE_LC_FUNC_MODE_OFFLINE), Kern K_uptime_get]"
  using recovery_follows_the_decision [of kconfig_defaults bench_sdk "at_uptime 2400000" no_int "power_on kconfig_defaults 0 0"]
  by (simp add: kconfig_simps at_uptime_now power_on_def decide_def)

text \<open>
  C12.  In a whole run from power-on, the cloud accepts a report between any two restarts of the modem,
  if the uptime is the time the calls took and failing socket calls set \<open>errno\<close>.
\<close>

theorem report_between_restarts:
  fixes C S R when_int m p
  defines "E \<equiv> tracker_env C S R when_int :: tracker_state env"
  assumes "clock_sound R" "errno_sound R" "\<not> TRACKER_OFFLINE_DEBUG C"
  shows "restarts_separated C (hist (exec (main n fuel E) (power_on C m p)))"
proof -
  have "restarts_ok C (power_on C m p)" by (simp add: restarts_ok_def power_on_def)
  then have "restarts_ok C (exec (main n fuel E) (power_on C m p))"
    using main.restarts_main [where C = C and S = S and R = R and when_int = when_int and n = n and fuel = fuel,
        THEN keepsD] assms(2-4)
    unfolding E_def by simp
  then show ?thesis by (simp add: restarts_ok_def)
qed

text \<open>A tracker out of coverage, 40 minutes after power-on.\<close>

definition stranded :: "event list \<Rightarrow> call \<Rightarrow> resp" where
  "stranded h c = (case c of
     Modem Nrf_modem_lib_init \<Rightarrow> resp0\<lparr>took := 2400000\<rparr>
   | Modem Lte_lc_nw_reg_status_get \<Rightarrow> resp0\<lparr>reg_status := LTE_LC_NW_REG_OTHER 0\<rparr>
   | Modem Lte_lc_connect_async \<Rightarrow> resp0\<lparr>rc := -1\<rparr>
   | _ \<Rightarrow> ticking h c)"

lemma stranded_sound: "clock_sound stranded" "errno_sound stranded"
  by (simp_all add: clock_sound_def errno_sound_def stranded_def ticking_def acks_def answers_def)

theorem report_between_restarts_witness:
  "restarts_separated unkeyed (hist (exec (main 3 0 (tracker_env unkeyed bench_sdk stranded no_int)) (power_on unkeyed 0 0))) \<and>
   restarted unkeyed (hist (exec (main 1 0 (tracker_env unkeyed bench_sdk stranded no_int)) (power_on unkeyed 0 0)))"
proof
  show "restarts_separated unkeyed (hist (exec (main 3 0 (tracker_env unkeyed bench_sdk stranded no_int)) (power_on unkeyed 0 0)))"
    by (rule report_between_restarts)
       (simp_all add: stranded_sound unkeyed_def receivers_only_def kconfig_simps)
  show "restarted unkeyed (hist (exec (main 1 0 (tracker_env unkeyed bench_sdk stranded no_int)) (power_on unkeyed 0 0)))"
    unfolding exec_def
    by (simp add: eval_boot eval_main eval_board evals power_on_def unkeyed_def receivers_only_def kconfig_simps
        stranded_def ticking_def acks_def answers_def accepts_def acked_def registered_def PHASE_MAGIC_def
        EINPROGRESS_def ETIMEDOUT_def)
qed

section \<open>The cloud session in sleep\<close>

text \<open>
  C13.  With nRF Cloud, and a modem that lets a connected session be paused, the session is not left
  connected in any battery sleep of a whole run from power-on, whatever failed in the cycle before.
\<close>

theorem no_sleep_with_a_connected_session:
  fixes C S R when_int m p
  defines "E \<equiv> tracker_env C S R when_int :: tracker_state env"
  assumes "builds C" "pause_works R" "TRACKER_CLOUD_PROVIDER C = NrfCloud" "\<not> TRACKER_OFFLINE_DEBUG C"
  shows "sleeps_parked (hist (exec (main n fuel E) (power_on C m p)))"
proof -
  have "TRACKER_MOTION_SETTLE_CYCLES C < 2 ^ 32" using assms(2) by (simp add: builds_defs)
  moreover from this have "unlinked C (power_on C m p)"
    by (simp add: unlinked_def consistent_defs power_on_def unat_of_nat)
  ultimately show ?thesis
    unfolding E_def using assms(3-5) by (intro tracker.main_parks) (simp_all add: parking_def power_on_def)
qed

text \<open>A cycle in which the session is brought up and no receiver starts.\<close>

definition no_receiver :: "event list \<Rightarrow> call \<Rightarrow> resp" where
  "no_receiver h c = (case c of Modem Gnss_start \<Rightarrow> resp0\<lparr>rc := -1\<rparr> | _ \<Rightarrow> bench h c)"

definition linked :: config where
  "linked = receivers_only\<lparr>TRACKER_SKIP_LTE := False, TRACKER_CLOUD_PROVIDER := NrfCloud, TRACKER_GNSS_EXTERNAL := False\<rparr>"

theorem no_sleep_with_a_connected_session_witness:
  "sleeps_parked (hist (exec (main 3 5 (tracker_env linked bench_sdk no_receiver no_int)) (power_on linked 0 0))) \<and>
   session (hist (exec (main 1 0 (tracker_env linked bench_sdk no_receiver no_int)) (power_on linked 0 0))) = LINK_PAUSED"
proof
  have "pause_works no_receiver" by (simp add: pause_works_def no_receiver_def bench_def)
  moreover have "builds linked"
    by (simp add: builds_defs linked_def receivers_only_def kconfig_simps)
  ultimately show "sleeps_parked (hist (exec (main 3 5 (tracker_env linked bench_sdk no_receiver no_int)) (power_on linked 0 0)))"
    by (intro no_sleep_with_a_connected_session) (simp_all add: linked_def receivers_only_def kconfig_simps)
  have creds: "cs_ca (creds resp0)" "cs_ca_aws (creds resp0)" "cs_prv_key (creds resp0)"
    by (simp_all add: resp0_def)
  show "session (hist (exec (main 1 0 (tracker_env linked bench_sdk no_receiver no_int)) (power_on linked 0 0))) = LINK_PAUSED"
    unfolding exec_def
    by (simp add: eval_boot eval_main eval_board eval_gnss eval_cloud evals power_on_def linked_def receivers_only_def
        kconfig_simps no_receiver_def bench_def credentials_ok_def PHASE_MAGIC_def creds registered_def)
qed

section \<open>The marker after a reset\<close>

text \<open>The state at power-on, with nothing recorded yet.\<close>

definition power_on_traced :: "config \<Rightarrow> u32 \<Rightarrow> u32 \<Rightarrow> crumb_state" where
  "power_on_traced C m p = tracker_state.extend (power_on C m p) (crumb_state.fields [])"



text \<open>
  Assistance as the last resort is fetched under FIX, where the list of phases has AGNSS for it: a
  reset in that download is reported as a wait for a fix.
\<close>

definition last_try :: crumb_state where
  "last_try = (power_on_traced kconfig_defaults PHASE_MAGIC (phase_val TRACKER_PHASE_FIX))\<lparr>link_state := LINK_CONNECTED\<rparr>"

lemma late_assistance_unmarked:
  "\<exists>r. (PHASE_MAGIC, phase_val TRACKER_PHASE_FIX, Cloud (Coap_agnss_data_get r)) \<in>
     set (crumbs (exec (last_resort_fix (traced (tracker_env kconfig_defaults bench_sdk bench no_int))) last_try))"
  unfolding exec_def last_try_def
  by (simp add: eval_main eval_board eval_cloud eval_gnss evals assist_defs request_frame_def power_on_def kconfig_simps bench_def 
        traced_simps power_on_traced_def tracker_state.defs crumb_state.defs power_on_def strtol_def)

section \<open>The longest silence\<close>

text \<open>
  C5.  Whenever a run from power-on is back at the head of the loop, the last report is at most
  \<open>TRACKER_REBOOT_MINUTES\<close> and one longest cycle ago, whatever woke the tracker in between: if calls that
  wait for the network take at most \<open>s\<close> ms, every other at most \<open>q\<close> ms over what it was asked to wait,
  and no frequent loop made more than \<open>fuel\<close> passes.
\<close>

theorem silence_is_bounded:
  fixes C S R when_int m p n fuel
  defines "E \<equiv> tracker_env C S R when_int :: tracker_state env"
  defines "w \<equiv> exec (main n fuel E) (power_on C m p)"
  assumes "prompt q s R" "clock_sound R" "\<not> TRACKER_SKIP_LTE C"
    and "0 < TRACKER_MODEM_RECOVERY_MINUTES C" "TRACKER_MODEM_RECOVERY_MINUTES C \<le> TRACKER_REBOOT_MINUTES C"
    and "result (main n fuel E) (power_on C m p) = Inr (Slept reason)"
  shows "int (elapsed (hist w)) - last_send_uptime w \<le>
    int (TRACKER_REBOOT_MINUTES C) * 60000 + int (cycle_ms C q s fuel)"
  using timed.main_silence [where C = C and q = q and s = s and S = S and R = R and when_int = when_int
      and w = "power_on C m p"] assms(4-8)
  unfolding E_def w_def in_time_prompt [OF assms(3)] by (simp add: power_on_def)


text \<open>A tracker that no network takes in.\<close>

definition no_coverage :: "event list \<Rightarrow> call \<Rightarrow> resp" where
  "no_coverage h c = (case c of
     Modem Lte_lc_nw_reg_status_get \<Rightarrow> resp0\<lparr>reg_status := LTE_LC_NW_REG_OTHER 0\<rparr>
   | Modem Lte_lc_connect_async \<Rightarrow> resp0\<lparr>rc := -1\<rparr>
   | _ \<Rightarrow> ticking h c)"

theorem silence_is_bounded_witness:
  "result (main 1 0 (tracker_env unkeyed bench_sdk no_coverage no_int)) (power_on unkeyed 0 0) = Inr (Slept TRACKER_WAKE_TIMER) \<and>
   int (elapsed (hist (exec (main 1 0 (tracker_env unkeyed bench_sdk no_coverage no_int)) (power_on unkeyed 0 0)))) -
     last_send_uptime (exec (main 1 0 (tracker_env unkeyed bench_sdk no_coverage no_int)) (power_on unkeyed 0 0)) \<le> 8331700"
proof -
  let ?E = "tracker_env unkeyed bench_sdk no_coverage no_int"
  have run: "result (main 1 0 ?E) (power_on unkeyed 0 0) = Inr (Slept TRACKER_WAKE_TIMER)"
    unfolding result_def
    by (simp add: eval_boot eval_main eval_board evals power_on_def unkeyed_def receivers_only_def kconfig_simps
        no_coverage_def ticking_def acks_def answers_def acked_def registered_def PHASE_MAGIC_def
        EINPROGRESS_def ETIMEDOUT_def)
  have sound: "prompt 0 0 no_coverage" "clock_sound no_coverage"
    by (auto simp: prompt_def clock_sound_def no_coverage_def ticking_def acks_def answers_def time_limit_def slow_call_def wait_ms_def
        timed_out_def split: call.splits kern_call.splits modem_call.splits net_call.splits)
  have "cycle_ms unkeyed 0 0 0 = 1131700"
    by (simp add: cycle_ms_def report_ms_def acquire_ms_def fix_window_def modem_time_ms_def
        unkeyed_def receivers_only_def kconfig_simps)
  then show ?thesis
    using run silence_is_bounded [OF sound _ _ _ run] by (simp add: unkeyed_def receivers_only_def kconfig_simps)
qed

section \<open>A tracker for which everything works\<close>

text \<open>
  C6.  A tracker in coverage and under a clear sky, whose cloud takes its reports, does not reboot, and
  at the end of a run from power-on, of any length and whatever wakes it, its last report is at most
  \<open>fresh_ms\<close> ago: a sleep, and a first report or a pass of the frequent loop.
\<close>

theorem working_tracker_reports:
  fixes C S R when_int m p n fuel
  defines "E \<equiv> tracker_env C S R when_int :: tracker_state env"
  defines "w \<equiv> exec (main n fuel E) (power_on C m p)"
  assumes "works C S R" "sources_ok C S R when_int" "prompt q s R" "\<not> TRACKER_SKIP_LTE C"
    and "0 < TRACKER_MODEM_RECOVERY_MINUTES C" "TRACKER_MODEM_RECOVERY_MINUTES C \<le> TRACKER_REBOOT_MINUTES C"
    and "fresh_ms C q s + 4 * q < TRACKER_REBOOT_MINUTES C * 60000"
  shows "result (main n fuel E) (power_on C m p) \<noteq> Inr Rebooted \<and>
    int (elapsed (hist w)) - last_send_uptime w \<le> int (fresh_ms C q s)"
proof -
  have "data_ok True S (power_on C m p)"
    by (simp add: data_ok_def power_on_def fix_ok_def modem_fix_def zero_pvt_def zero_fix_def)
  then show ?thesis
    using good.main_quiet [where C = C and q = q and s = s and S = S and R = R and when_int = when_int
        and w = "power_on C m p"] assms(3,4,6-9)
    unfolding E_def w_def unheard_def in_time_prompt [OF assms(5)] by (simp add: power_on_def)
qed

text \<open>Both receivers answer at once, and the server takes what it is sent.\<close>

definition fine_day :: "event list \<Rightarrow> call \<Rightarrow> resp" where
  "fine_day h c = (case c of Kern (K_sem_take _ _) \<Rightarrow> resp0 | _ \<Rightarrow> ticking h c)"

theorem working_tracker_reports_witness:
  "result (main 3 5 (tracker_env keyed bench_sdk fine_day no_int)) (power_on keyed 0 0) \<noteq> Inr Rebooted \<and>
   int (elapsed (hist (exec (main 3 5 (tracker_env keyed bench_sdk fine_day no_int)) (power_on keyed 0 0)))) -
     last_send_uptime (exec (main 3 5 (tracker_env keyed bench_sdk fine_day no_int)) (power_on keyed 0 0)) \<le> 670000"
proof -
  have "works keyed bench_sdk fine_day"
    by (auto simp: works_def clock_sound_def in_coverage_def receivers_fix_def cloud_accepts_def hologram_accepts_def
        fine_day_def ticking_def acks_def answers_def keyed_def kconfig_simps registered_def reply_text_def occurs.simps
        split: call.splits kern_call.splits)
  moreover have "sources_ok keyed bench_sdk fine_day no_int"
    by (simp add: sources_ok_def fix_ok_def modem_fix_def fine_day_def ticking_def acks_def answers_def no_int_def zero_pvt_def)
  moreover have "prompt 0 0 fine_day"
    by (auto simp: prompt_def fine_day_def ticking_def acks_def answers_def time_limit_def slow_call_def wait_ms_def
        timed_out_def split: call.splits kern_call.splits modem_call.splits net_call.splits)
  moreover have "fresh_ms keyed 0 0 = 670000"
    by (simp add: fresh_ms_def report_ms_def modem_time_ms_def keyed_def kconfig_simps)
  ultimately show ?thesis
    using working_tracker_reports [of keyed bench_sdk fine_day no_int 0 0 3 5 0 0] by (simp add: keyed_def kconfig_simps)
qed

end
