(* ===== verification/Spec2Isabelle.thy ===== *)
theory Spec2Isabelle
  imports Run_Properties
begin

text \<open>
  Verification of the firmware of a GPS tracker (src/app/src): an application for Zephyr and the nRF
  Connect SDK that wakes up, brings the network and the cloud link up, gets a position fix from an
  external receiver or from the modem's own, reports it, and sleeps.

  \<^bold>\<open>How the program is put together.\<close>  One thread runs \<open>main\<close> (main.c).  Everything else happens in
  interrupt handlers and callbacks: GNSS events (gnss_modem.c, gnss_ext.c), LTE events (main.c), the
  PMIC's VBUS events (power.c), the accelerometer (motion.c), the watchdog guard's timer (watchdog.c)
  and the LED's blink work (status_led.c).  They share static variables with the main thread, under
  spinlocks or as atomics, and wake it through semaphores.

  \<^bold>\<open>The model.\<close>  Every C function is a program of the state monad over one extensible record; each
  component adds its static variables to the record of the one before.  Calls into the SDK go through
  \<open>api\<close>: an environment \<open>env\<close> answers them, from the whole history of calls, and may first let
  handlers run (\<open>intr\<close>).  The history \<open>hist\<close> is the list of calls with their answers, newest first;
  \<open>ev_isr\<close> says whether a handler made the call.  Devices, semaphores, the modem and the cloud session
  have no state of their own: what they are in is a function of the history (\<open>given\<close>, \<open>pin_high\<close>,
  \<open>uart_active\<close>, \<open>modem_running\<close>, \<open>trigger_set\<close>, \<open>session\<close>, \<open>open_fds\<close>).  The handlers of the
  firmware run under a schedule that is universally quantified (\<open>tracker_env\<close> in Handlers).
  Hypotheses about the SDK are named and state documented behaviour: \<open>sem_sound\<close> (a take succeeds only
  after a give), \<open>clock_sound\<close> (uptime is the time the calls took), \<open>uart_pm_sound\<close> and
  \<open>gnss_stop_sound\<close> (device power management), \<open>errno_sound\<close>, \<open>prompt\<close> (how long calls take),
  \<open>undisturbed\<close> (nothing ends a battery sleep early), \<open>pause_works\<close> (a connected session can be
  paused), \<open>works\<close> and \<open>sources_ok\<close> (the network, the receivers and the cloud do what they are there
  for, with fixes in range; used by C6 only).  \<open>builds\<close> states that the Kconfig options are within their ranges and the build's assertion
  holds.

  \<^bold>\<open>Theories, in the order of their imports.\<close>
  \<^item> Prelude: the monad, \<open>hoare\<close>, \<open>keeps\<close> (invariants) and \<open>advances\<close> (transitive relations between
    the states before and after) with their rule collections, C division, errno values.
  \<^item> Platform: Kconfig options, SDK constants and calls, environments, \<open>issues\<close> (which calls a program
    makes), the locale \<open>runtime\<close>, semaphores and time in the history.
  \<^item> Wake (wake.c), Watchdog (watchdog.c), Power_Supply (power.c), Formatting (printf and its
    inverse), Telemetry (telemetry.c), Motion (motion.c), Status_Led (status_led.c), Fix (fix.h),
    Gnss_Modem (gnss_modem.c), Gnss_Ext (gnss_ext.c), Gnss (gnss.c), Cloud_Nrf (cloud_nrf.c),
    Hologram (hologram.c, cloud_hologram.c), Cloud (cloud.h), Agnss (agnss.c), Startup (startup.c):
    one component each, with its state, operations, and the locale of what its clients rely on
    (\<open>wake_runtime\<close> to \<open>agnss_runtime\<close>, each extending the one before; \<open>receiver\<close> and
    \<open>cloud_transport\<close> for the two interfaces with two providers).
  \<^item> Tracker and Cycle (main.c): the functions of main.c; then \<open>main\<close> as \<open>boot\<close> and \<open>cycle\<close>, one pass
    of its endless loop, split where the source has its comments.  Rest: what the receivers are doing
    whenever the thread sleeps, over whole runs of \<open>main\<close>.
  \<^item> Handlers: delivery of interrupts, and the interpretation \<open>tracker\<close> of all the locales on the
    firmware's own handlers, on which the properties rest.
  \<^item> Timing: how long each function of the main thread takes at most, by rules that follow its syntax
    (\<open>costs\<close>), if the calls are \<open>prompt\<close>.  Pacing: the time since the watchdog was last fed, through
    whole runs (\<open>paced\<close>).  Reach: the states at the head of the endless loop, as an inductive
    predicate, and the invariant that holds in them.  Silence: runs in which no report gets through.
    Call_Types: the ranges of app/Kconfig, the domain of each SDK call (\<open>call_ok\<close>), and that every
    function and handler stays in it.  Recovery: the check for silence as a decision, and restarts of the
    modem in whole runs.  Parking: the cloud session in sleep.  Jolts: the time of the last jolt under
    interrupts.  Breadcrumbs: an auxiliary list of the phase marker at every call (\<open>traced\<close>), and that
    every call that may block is announced by a phase of its own (\<open>phases_of\<close>).  Longest_Silence: a cycle
    that is given up costs at most \<open>cycle_ms\<close>, and a report or the reboot ends every silence.
    Good_Conditions: what has to work for every cycle to report (\<open>good_runtime\<close>, over \<open>timed_runtime\<close> and
    the ranges of the receivers' data), and how old the last report then gets (\<open>fresh_ms\<close>).
  \<^item> Scenario: the state at power-on, environments to run the model on, and the equations that
    evaluate it.
  \<^item> Component_Properties, Receiver_Properties, Network_Properties, Report_Properties, Run_Properties and
    this theory: the properties, each with a witness that applies it at a concrete input (C25
    stands with its component); Run_Properties holds those of whole runs that are not here.

  \<^bold>\<open>What is shown.\<close>  Over whole runs from power-on: C1, the receivers are off in every sleep; C2, the
  watchdog is never starved; C3, what the static variables say about the cloud, the sensor and the
  receivers is true at the head of the loop; C4, a tracker that cannot report reboots; C5, no silence
  outlasts the reboot threshold by more than a cycle, whatever wakes the tracker; C6, a tracker for which
  everything works reports in every cycle and never reboots; C7, after a watchdog reset the phase marker
  names the place where the main thread was; C8, every call has arguments in its domain; C12, a report
  lies between two restarts of the modem; C13, no sleep with a connected session.  C9, C18, C19, C27,
  C33: the receivers run when their arbiter says so, and hand out fresh fixes only.  C10, C11, C28, C30,
  C34, C37: what is reported and how.  C14: recovery from silence as a decision.  C15, C32, C38: loops
  end, or do not, as they should.  C16: the watchdog's guard.  C17, C24, C26: waking by power and motion.
  C20 to C22, C29, C31: the two cloud transports.  C23, C25: LED and battery.  C35, C36, C38, C39, C40
  show flaws: a reconnect that never happens, a fix that was never valid, a silence that is not noticed,
  a wake-up that is lost, a jolt in the future.  \<open>late_assistance_unmarked\<close> shows the one place that C7
  has to name coarsely: assistance fetched as the last resort, under FIX.

  \<^bold>\<open>Bounds and fuel.\<close>  \<open>modem_time_loop\<close> and the table search are total functions.  The frequent loop
  runs as long as there is power, so it takes fuel; C15 gives the fuel that suffices on battery.
  \<open>cycles\<close> runs any number of passes of \<open>while (1)\<close>.

  \<^bold>\<open>Not modelled.\<close>  Logging, except for calls in its arguments.  The SDK, cJSON and the sockets, which
  are parameters.  Kconfig dependencies, devicetree, build files.  Handlers run to completion,
  one after the other, between calls of the main thread: interrupts of interrupts, and interrupts
  between two plain accesses of the main thread with no call in between, are not modelled; timeouts are natural numbers of milliseconds.  Floating-point numbers are rationals, with
  rounding as a parameter; NaN and infinities do not occur.  An operator string of less than three
  characters, which serving_cell_info_get reads past, reads as empty.
\<close>

section \<open>The receivers\<close>




section \<open>The watchdog\<close>

text \<open>
  C2.  The watchdog is never starved: if the calls that wait for the network take at most \<open>s\<close> ms, every
  other at most \<open>q\<close> ms over what it was asked to wait, and the configured times leave room for them
  (\<open>enough\<close>), then in a whole run from power-on no call ends more than the watchdog's timeout after
  the last feed, whatever the answers and the interrupts.
\<close>

theorem watchdog_never_starves:
  fixes C S R when_int m p
  defines "E \<equiv> tracker_env C S R when_int :: tracker_state env"
  assumes "prompt q s R" "enough C q s (unat (WDT_TIMEOUT_MS C))"
  shows "fed_within (unat (WDT_TIMEOUT_MS C)) (hist (exec (main n fuel E) (power_on C m p)))"
  using timed.main_fed [where C = C and q = q and s = s and S = S and R = R and when_int = when_int and w = "power_on C m p"] assms(3)
  unfolding E_def in_time_prompt [OF assms(2)] by (simp add: power_on_def)

text \<open>Every call takes as long as it may.\<close>

definition dawdling :: "event list \<Rightarrow> call \<Rightarrow> resp" where
  "dawdling h c = (ticking h c)\<lparr>took := time_limit 500 60000 c\<rparr>"

lemma dawdling_prompt: "prompt 500 60000 dawdling"
  by (simp add: prompt_def dawdling_def)

lemma defaults_enough: "enough kconfig_defaults 500 60000 (unat (WDT_TIMEOUT_MS kconfig_defaults))"
  by (simp add: enough_def worst_sleep_def acquire_ms_def fix_window_def modem_time_ms_def WDT_TIMEOUT_MS_def
      kconfig_simps)

theorem watchdog_never_starves_witness:
  "fed_within 840000 (hist (exec (main 100 50 (tracker_env kconfig_defaults bench_sdk dawdling no_int))
     (power_on kconfig_defaults 0 0)))"
  using watchdog_never_starves [OF dawdling_prompt defaults_enough] by (simp add: WDT_TIMEOUT_MS_def kconfig_simps)

section \<open>The head of the loop\<close>



section \<open>The frequent loop\<close>

text \<open>
  C15.  On battery, with no jolt while it runs, the frequent loop ends: the fuel that suffices is the
  number of reporting intervals that fit into what is left of the surge time, and one more.
\<close>

theorem frequent_loop_terminates:
  fixes C S R when_int and w :: tracker_state
  defines "E \<equiv> tracker_env C S R when_int"
  assumes "clock_sound R" "\<And>h c. Int_motion \<notin> set (when_int h c)"
    and "\<forall>w. \<not> result (power_vbus_present E) w"
    and "last_jolt w + int (TRACKER_MOTION_SURGE_SECONDS C) * 1000 \<le>
      int (elapsed (hist w)) + int fuel * (int (TRACKER_CHARGING_INTERVAL_SECONDS C) * 1000)"
  shows "result (frequent_loop (Suc fuel) E motion_cycle t r) w"
  unfolding E_def
  by (rule tracker.frequent_loop_ends)
     (use assms(2-5) no_jolts_preserves [OF assms(3)] in \<open>simp_all add: E_def del: frequent_loop.simps\<close>)

definition jolted :: tracker_state where
  "jolted = (power_on keyed 0 0)\<lparr>last_event_ms_lo := 1000\<rparr>"

lemma ticking_no_power: "\<not> result (power_vbus_present (tracker_env keyed bench_sdk ticking no_int)) w"
  by (simp add: power_vbus_present_def read_vbus_present_def run_simps api_simps no_int_def ticking_def
      acks_def answers_def VBUS_STAT_PRESENT_def)

lemma keyed_surge: "TRACKER_MOTION_SURGE_SECONDS keyed = 600" "TRACKER_CHARGING_INTERVAL_SECONDS keyed = 60"
  by (simp_all add: keyed_def kconfig_simps)

theorem frequent_loop_terminates_witness:
  "result (frequent_loop 12 (tracker_env keyed bench_sdk ticking no_int) True 0 TRACKER_WAKE_MOTION) jolted"
proof -
  have "result (frequent_loop (Suc 11) (tracker_env keyed bench_sdk ticking no_int) True 0 TRACKER_WAKE_MOTION) jolted"
    by (rule frequent_loop_terminates)
       (simp_all add: ticking_clock no_int_def ticking_no_power jolted_def power_on_def last_jolt_def
          event_time_def keyed_surge)
  then show ?thesis by (simp add: numeral_eq_Suc)
qed

text \<open>
  C38.  While external power is present the frequent loop does not end, however long it runs, and
  whatever becomes of its reports: it neither restarts the modem nor reboots.
\<close>

theorem frequent_loop_runs_while_powered:
  fixes C S R when_int and w :: tracker_state
  defines "E \<equiv> tracker_env C S R when_int"
  assumes "\<forall>w. result (power_vbus_present E) w"
  shows "\<not> result (frequent_loop fuel E motion_cycle t r) w \<and>
    (\<exists>es. hist (exec (frequent_loop fuel E motion_cycle t r) w) = es @ hist w \<and>
      (\<forall>e \<in> set es. \<not> ev_isr e \<longrightarrow> ev_call e \<noteq> offline_call \<and> ev_call e \<noteq> Kern Sys_reboot))"
proof
  show "\<not> result (frequent_loop fuel E motion_cycle t r) w"
    using assms(2) by (induction fuel arbitrary: w) (simp_all add: vbus_or_surge_def run_simps)
  show "\<exists>es. hist (exec (frequent_loop fuel E motion_cycle t r) w) = es @ hist w \<and>
      (\<forall>e \<in> set es. \<not> ev_isr e \<longrightarrow> ev_call e \<noteq> offline_call \<and> ev_call e \<noteq> Kern Sys_reboot)"
    unfolding E_def by (rule issuesE [OF tracker.frequent_loop_no_recovery]) blast
qed

text \<open>A charger whose status register shows VBUS.\<close>

definition plugged_in :: "event list \<Rightarrow> call \<Rightarrow> resp" where
  "plugged_in h c = (case c of
     Board (Sensor_channel_get SENSOR_CHAN_NPM13XX_CHARGER_VBUS_STATUS) \<Rightarrow> resp0\<lparr>val1 := 1\<rparr>
   | _ \<Rightarrow> ticking h c)"

theorem frequent_loop_runs_while_powered_witness:
  "\<not> result (frequent_loop 1000 (tracker_env keyed bench_sdk plugged_in no_int) True 0 TRACKER_WAKE_VBUS) jolted"
  by (rule frequent_loop_runs_while_powered [THEN conjunct1])
     (simp add: power_vbus_present_def read_vbus_present_def run_simps api_simps plugged_in_def no_int_def
        ticking_def acks_def answers_def VBUS_STAT_PRESENT_def BIT_def)

section \<open>Waking up\<close>

text \<open>
  C17.  A wake-up that is not the timer's was raised while the tracker waited: an interrupt stored
  that reason after the wait had begun, and it is the reason stored last.
\<close>

theorem wake_reason_was_raised_while_waiting:
  fixes C S R when_int and w :: tracker_state
  defines "E \<equiv> tracker_env C S R when_int"
  assumes "result (wake_wait E s) w = reason" "reason \<noteq> TRACKER_WAKE_TIMER"
  shows "\<exists>es e0 es0. hist (exec (wake_wait E s) w) = es @ e0 # es0 @ hist w \<and>
    sets_pending (wake_reason_val TRACKER_WAKE_TIMER) e0 \<and>
    last_stored (hist (exec (wake_wait E s) w)) = Some (wake_reason_val reason) \<and>
    (\<exists>e \<in> set es. ev_isr e \<and> sets_pending (wake_reason_val reason) e)"
  using tracker.wake_wait_from_handler [where C = C and S = S and R = R and when_int = when_int and s = s and w = w
      and r = reason] assms
  unfolding E_def by simp

definition plug_asleep :: schedule where
  "plug_asleep = during (Kern (K_sem_take Wake_sem 540000)) [Int_pmic (BIT 3)]"

theorem wake_reason_was_raised_while_waiting_witness:
  "last_stored (hist (exec (wake_wait (tracker_env kconfig_defaults bench_sdk (answers (\<lambda>_. resp0)) plug_asleep) 540)
     (power_on kconfig_defaults 0 0))) = Some 2"
proof -
  have "result (wake_wait (tracker_env kconfig_defaults bench_sdk (answers (\<lambda>_. resp0)) plug_asleep) 540)
      (power_on kconfig_defaults 0 0) = TRACKER_WAKE_VBUS"
    unfolding result_def
    by (simp add: eval_board evals eval_interrupts plug_asleep_def answers_def power_on_def bench_sdk_def BIT_def)
  from wake_reason_was_raised_while_waiting [OF this] show ?thesis by auto
qed



section \<open>The time of the last jolt\<close>

text \<open>
  C26.  Jolts may arrive while \<open>motion_last_event_uptime\<close> reads the two halves of the time: what it
  returns lies between the last jolt before the call and the last one after it, as long as no multiple
  of 2^32 ms of uptime falls between that jolt and the end of the call.
\<close>

theorem motion_read_is_a_past_jolt:
  fixes C S R when_int and w :: tracker_state
  defines "E \<equiv> tracker_env C S R when_int"
  assumes "TRACKER_MOTION_WAKE C" "clock_sound R" "last_jolt w \<le> int (elapsed (hist w))"
    and "elapsed (hist (exec (motion_last_event_uptime E) w)) < 2 ^ 64"
    and "int (elapsed (hist (exec (motion_last_event_uptime E) w))) div 2 ^ 32 = last_jolt w div 2 ^ 32"
  shows "last_jolt w \<le> result (motion_last_event_uptime E) w \<and>
    result (motion_last_event_uptime E) w \<le> last_jolt (exec (motion_last_event_uptime E) w)"
proof -
  define w1 where "w1 = exec (api E (Kern (Atomic_get Last_event_ms_lo))) w"
  define w2 where "w2 = exec (api E (Kern (Atomic_get Last_event_ms_hi))) w1"
  have run: "exec (motion_last_event_uptime E) w = w2"
    "result (motion_last_event_uptime E) w = event_time (last_event_ms_hi w2) (last_event_ms_lo w1)"
    using assms(2) by (simp_all add: motion_last_event_uptime_def atomic_defs run_simps join_halves E_def w1_def w2_def)
  have e: "elapsed (hist w) \<le> elapsed (hist w1)" "elapsed (hist w1) \<le> elapsed (hist w2)"
    unfolding w1_def w2_def E_def by (rule api_elapsed)+
  then have small: "elapsed (hist w) < 2 ^ 64" "elapsed (hist w1) < 2 ^ 64" using assms(5) run by simp_all
  note j1 = api_last_jolt [OF assms(3) small(1) assms(4), of C S when_int "Kern (Atomic_get Last_event_ms_lo)",
      folded E_def, folded w1_def]
  have p1: "last_jolt w1 \<le> int (elapsed (hist w1))" using j1(2) e(1) by simp
  note j2 = api_last_jolt [OF assms(3) small(2) p1, of C S when_int "Kern (Atomic_get Last_event_ms_hi)",
      folded E_def, folded w2_def]
  have "last_jolt w2 \<le> int (elapsed (hist w2))" using j2(2) e(2) by simp
  then have "last_jolt w1 div 2 ^ 32 \<le> last_jolt w2 div 2 ^ 32" "last_jolt w2 div 2 ^ 32 \<le> last_jolt w div 2 ^ 32"
    "last_jolt w div 2 ^ 32 \<le> last_jolt w1 div 2 ^ 32"
    using assms(6) j1(1) j2(1) unfolding run by (metis zdiv_mono1 zero_less_numeral zero_less_power)+
  then have "uint (last_event_ms_hi w2) = uint (last_event_ms_hi w1)"
    unfolding last_jolt_hi by linarith
  then have "last_event_ms_hi w2 = last_event_ms_hi w1" by (rule word_uint_eqI)
  then have "result (motion_last_event_uptime E) w = last_jolt w1" by (simp add: run last_jolt_def)
  then show ?thesis using j1(1) j2(1) by (simp add: run)
qed

definition jolt_while_read :: tracker_state where
  "jolt_while_read = (power_on keyed 0 0)\<lparr>hist := [Ev False (Kern (K_sleep 5000)) (resp0\<lparr>took := 5000\<rparr>),
     Ev False (Board (Sensor_trigger_set True)) resp0], last_event_ms_lo := 1000\<rparr>"

theorem motion_read_is_a_past_jolt_witness:
  "1000 \<le> result (motion_last_event_uptime (tracker_env keyed bench_sdk ticking
     (during (Kern (Atomic_get Last_event_ms_hi)) [Int_motion]))) jolt_while_read \<and>
   result (motion_last_event_uptime (tracker_env keyed bench_sdk ticking
     (during (Kern (Atomic_get Last_event_ms_hi)) [Int_motion]))) jolt_while_read \<le> 5000"
proof -
  let ?E = "tracker_env keyed bench_sdk ticking (during (Kern (Atomic_get Last_event_ms_hi)) [Int_motion])"
  have wake: "TRACKER_MOTION_WAKE keyed" by (simp add: keyed_def kconfig_simps)
  then have "last_jolt (exec (motion_last_event_uptime ?E) jolt_while_read) = 5000"
    "elapsed (hist (exec (motion_last_event_uptime ?E) jolt_while_read)) = 5000"
    unfolding exec_def
    by (simp_all add: eval_board evals eval_interrupts jolt_while_read_def ticking_def acks_def answers_def
        last_jolt_def event_time_def)
  moreover have "last_jolt jolt_while_read = 1000" "elapsed (hist jolt_while_read) = 5000"
    by (simp_all add: jolt_while_read_def power_on_def last_jolt_def event_time_def)
  ultimately show ?thesis
    using motion_read_is_a_past_jolt [OF wake ticking_clock, of jolt_while_read bench_sdk
        "during (Kern (Atomic_get Last_event_ms_hi)) [Int_motion]"] by simp
qed

text \<open>
  C40.  Otherwise the result may lie in the future: a jolt between the two reads, the first one after the
  lower half of the clock rolled over, gives the new upper half with the old lower one, up to 49.7 days
  late.  (The comment in \<open>motion_handler\<close> expects a torn read to be early.)
\<close>

theorem torn_read_lies_in_the_future:
  fixes C S R and w :: tracker_state
  defines "E \<equiv> tracker_env C S R (during (Kern (Atomic_get Last_event_ms_hi)) [Int_motion])"
  assumes "TRACKER_MOTION_WAKE C" "trigger_set (hist w)" "0 \<le> now" "now < 2 ^ 63"
    and "\<And>h. i64 (R h (Kern K_uptime_get)) = now"
    and "now mod 2 ^ 32 < uint (last_event_ms_lo w)"
  shows "last_jolt (exec (motion_last_event_uptime E) w) = now \<and>
    result (motion_last_event_uptime E) w = now + (uint (last_event_ms_lo w) - now mod 2 ^ 32) \<and>
    now < result (motion_last_event_uptime E) w"
proof -
  have "now div 4294967296 * 4294967296 = now - now mod 4294967296" by (simp add: minus_mod_eq_div_mult)
  moreover have "uint (to_u32 (drop_bit 32 now)) = now div 2 ^ 32"
    using assms(4,5) by (simp add: uint_to_u32 drop_bit_eq_div)
  ultimately show ?thesis
    using assms split_halves [of now]
    by (simp add: motion_last_event_uptime_def atomic_defs run_simps api_simps join_halves during_def deliver_def
      can_fire_def handler_def motion_handler_def wake_signal_def k_uptime_get_def Let_def last_jolt_def event_time_def)
qed

text \<open>An armed sensor, a jolt 296 ms before the lower half of the clock rolls over, the next 104 ms after.\<close>

definition armed_late :: tracker_state where
  "armed_late = (power_on kconfig_defaults 0 0)\<lparr>hist := [Ev False (Board (Sensor_trigger_set True)) resp0],
     armed := True, last_event_ms_lo := 4294967000\<rparr>"

definition after_rollover :: "event list \<Rightarrow> call \<Rightarrow> resp" where
  "after_rollover h c = resp0\<lparr>i64 := 4294967400\<rparr>"

theorem torn_read_lies_in_the_future_witness:
  "result (motion_last_event_uptime (tracker_env kconfig_defaults bench_sdk after_rollover
     (during (Kern (Atomic_get Last_event_ms_hi)) [Int_motion]))) armed_late = 8589934296"
  using torn_read_lies_in_the_future [of kconfig_defaults armed_late 4294967400 after_rollover bench_sdk]
  by (simp add: armed_late_def after_rollover_def power_on_def kconfig_simps)

section \<open>Writers of the LED\<close>

text \<open>
  The blink work can run between the two channel writes of \<open>status_led_set\<close>: then the LED shows
  colours in a phase it takes for dark, until the next run of the work.
\<close>

definition blinking_lamp :: tracker_state where
  "blinking_lamp = (exec (status_led_pattern (bench_env kconfig_defaults) TRACKER_LED_CHARGING)
     ((power_on kconfig_defaults 0 0)\<lparr>available := True\<rparr>))"

definition blink_between :: schedule where
  "blink_between = during (Board (Led_on 0)) [Int_blink]"

lemma status_led_set_can_be_overtaken:
  "led_consistent kconfig_defaults blinking_lamp \<and>
   \<not> led_consistent kconfig_defaults (exec (status_led_set (tracker_env kconfig_defaults bench_sdk bench blink_between)
     TRACKER_STATUS_LTE_NO_FIX) blinking_lamp)"
  unfolding exec_def blinking_lamp_def led_consistent_def
  by (simp add: eval_board evals eval_interrupts blink_between_def bench_def power_on_def kconfig_simps led_defs
      phase_delay_def LED_RED_def LED_GREEN_def red_status_def green_status_def)

end
